(* ===== verification/Hf_Prelude.thy ===== *)
theory Hf_Prelude
  imports Main "HOL-Library.Word" "HOL-Library.AList" "HOL-Library.Sublist"
    "HOL-Library.Char_ord" "HOL-Library.List_Lexorder"
begin

text \<open>
  Shared vocabulary of the development: the integer and byte types of the Rust sources, results
  as sums, hash maps as association lists with distinct keys, and the string operations of the
  Rust standard library the components call.

  A Rust \<^verbatim>\<open>str\<close> is a list of characters here; \<^typ>\<open>char\<close> carries the code points U+0000 to
  U+00FF, and the functions below follow the standard library on that range (Unicode white space
  is U+0009 to U+000D, U+0020, U+0085 and U+00A0).  Bytes on a wire are words of eight bits.

  A \<^verbatim>\<open>HashMap\<close> is an association list whose keys are distinct.  The code looks entries up, inserts
  and removes them by key, and sorts what it collects from an iteration, so no result depends on
  the order of the list.
\<close>

named_theorems hf_defs \<open>definitions that the component proofs unfold\<close>

type_synonym byte = "8 word"
type_synonym bytes = "byte list"
type_synonym u16 = "16 word"
type_synonym u32 = "32 word"
type_synonym u64 = "64 word"
type_synonym i64 = "64 word"
type_synonym 'v table = "(string \<times> 'v) list"

section \<open>Results\<close>

abbreviation Ok :: "'a \<Rightarrow> 'e + 'a" where
  "Ok \<equiv> Inr"

abbreviation Err :: "'e \<Rightarrow> 'e + 'a" where
  "Err \<equiv> Inl"

definition is_ok :: "'e + 'a \<Rightarrow> bool" where
  "is_ok r = (case r of Inl _ \<Rightarrow> False | Inr _ \<Rightarrow> True)"

lemma is_ok_simps [simp]: "is_ok (Ok x)" "\<not> is_ok (Err e)"
  by (simp_all add: is_ok_def)

lemma is_ok_iff: "is_ok r \<longleftrightarrow> (\<exists>x. r = Ok x)"
  by (cases r) auto

section \<open>Hash maps\<close>

abbreviation keys :: "'v table \<Rightarrow> string list" where
  "keys t \<equiv> map fst t"

definition tget :: "string \<Rightarrow> 'v table \<Rightarrow> 'v option" where
  "tget k t = map_of t k"

definition tput :: "string \<Rightarrow> 'v \<Rightarrow> 'v table \<Rightarrow> 'v table" where
  "tput k v t = AList.update k v t"

definition tdel :: "string \<Rightarrow> 'v table \<Rightarrow> 'v table" where
  "tdel k t = AList.delete k t"

definition thas :: "string \<Rightarrow> 'v table \<Rightarrow> bool" where
  "thas k t = (tget k t \<noteq> None)"

text \<open>An in-place change through \<^verbatim>\<open>get_mut\<close>: absent keys are left alone.\<close>

definition tmod :: "string \<Rightarrow> ('v \<Rightarrow> 'v) \<Rightarrow> 'v table \<Rightarrow> 'v table" where
  "tmod k f t = (case tget k t of None \<Rightarrow> t | Some v \<Rightarrow> tput k (f v) t)"

lemma tget_Nil [simp]: "tget k [] = None"
  by (simp add: tget_def)

lemma tget_Cons [simp]: "tget k ((k', v) # t) = (if k = k' then Some v else tget k t)"
  by (simp add: tget_def)

lemma tget_tput [simp]: "tget k (tput k' v t) = (if k = k' then Some v else tget k t)"
  by (simp add: tget_def tput_def update_conv')

lemma tget_tdel [simp]: "tget k (tdel k' t) = (if k = k' then None else tget k t)"
  by (simp add: tget_def tdel_def delete_conv')

lemma tget_tmod [simp]:
  "tget k (tmod k' f t) = (if k = k' then map_option f (tget k t) else tget k t)"
  by (simp add: tmod_def split: option.split)

lemma thas_simps [simp]:
  "\<not> thas k []"
  "thas k (tput k' v t) \<longleftrightarrow> k = k' \<or> thas k t"
  "thas k (tdel k' t) \<longleftrightarrow> k \<noteq> k' \<and> thas k t"
  "thas k (tmod k' f t) \<longleftrightarrow> thas k t"
  by (auto simp: thas_def)

lemma thas_tget: "thas k t \<longleftrightarrow> (\<exists>v. tget k t = Some v)"
  by (auto simp: thas_def)

lemma set_keys: "k \<in> set (keys t) \<longleftrightarrow> thas k t"
  by (force simp: thas_def tget_def map_of_eq_None_iff)

lemma distinct_tput [simp]: "distinct (keys t) \<Longrightarrow> distinct (keys (tput k v t))"
  by (simp add: tput_def distinct_update)

lemma distinct_tdel [simp]: "distinct (keys t) \<Longrightarrow> distinct (keys (tdel k t))"
  by (simp add: tdel_def distinct_delete)

lemma distinct_tmod [simp]: "distinct (keys t) \<Longrightarrow> distinct (keys (tmod k f t))"
  by (simp add: tmod_def split: option.split)

lemma keys_tput [simp]: "fst ` set (tput k v t) = insert k (fst ` set t)"
  using set_keys [of _ "tput k v t"] set_keys [of _ t]
  by (simp add: set_eq_iff del: image_iff)

lemma keys_tdel [simp]: "fst ` set (tdel k t) = fst ` set t - {k}"
  using set_keys [of _ "tdel k t"] set_keys [of _ t]
  by (simp add: set_eq_iff conj_commute del: image_iff)

lemma keys_tmod [simp]: "fst ` set (tmod k f t) = fst ` set t"
  using set_keys [of _ "tmod k f t"] set_keys [of _ t]
  by (simp add: set_eq_iff del: image_iff)

lemma tget_set: "distinct (keys t) \<Longrightarrow> (k, v) \<in> set t \<longleftrightarrow> tget k t = Some v"
  by (simp add: tget_def)

lemma length_tdel_absent: "\<not> thas k t \<Longrightarrow> tdel k t = t"
  by (simp add: tdel_def thas_def tget_def delete_id map_of_eq_None_iff)

lemma tdel_idem [simp]: "tdel k (tdel k t) = tdel k t"
  by (simp add: length_tdel_absent)

lemma tput_tput [simp]: "tput k v (tput k w t) = tput k v t"
  by (induction t) (auto simp: tput_def)

lemma tdel_tput [simp]: "tdel k (tput k v t) = tdel k t"
  by (simp add: tdel_def tput_def delete_update_same)

section \<open>Decimal and hexadecimal output\<close>

definition digit :: "nat \<Rightarrow> char" where
  "digit n = char_of (48 + n)"

fun show_nat :: "nat \<Rightarrow> string" where
  "show_nat n = (if n < 10 then [digit n] else show_nat (n div 10) @ [digit (n mod 10)])"

declare show_nat.simps [simp del]

lemma digit_eval [simp]:
  "digit 0 = CHR ''0''" "digit (Suc 0) = CHR ''1''" "digit 1 = CHR ''1''" "digit 2 = CHR ''2''"
  "digit 3 = CHR ''3''" "digit 4 = CHR ''4''" "digit 5 = CHR ''5''" "digit 6 = CHR ''6''"
  "digit 7 = CHR ''7''" "digit 8 = CHR ''8''" "digit 9 = CHR ''9''"
  by code_simp+

text \<open>Reading the digits back recovers the number, so distinct numbers print differently.\<close>

definition read_nat :: "string \<Rightarrow> nat" where
  "read_nat s = foldl (\<lambda>n c. 10 * n + (of_char c - 48)) 0 s"

lemma of_char_digit [simp]: "n < 10 \<Longrightarrow> of_char (digit n) = (48 + n :: nat)"
  by (simp add: digit_def)

lemma read_show_nat [simp]: "read_nat (show_nat n) = n"
proof (induction n rule: show_nat.induct)
  case (1 n)
  then show ?case
    by (cases "n < 10") (simp_all add: show_nat.simps [of n] read_nat_def)
qed

lemma show_nat_inj [simp]: "show_nat m = show_nat n \<longleftrightarrow> m = n"
  by (metis read_show_nat)

text \<open>\<^verbatim>\<open>str::parse\<close> of an unsigned integer type: an optional plus sign and decimal digits, below the bound.\<close>

definition is_digit :: "char \<Rightarrow> bool" where
  "is_digit c = (let n = of_char c :: nat in 48 \<le> n \<and> n \<le> 57)"

definition parse_uint :: "nat \<Rightarrow> string \<Rightarrow> nat option" where
  "parse_uint bound s = (let ds = (case s of [] \<Rightarrow> [] | c # cs \<Rightarrow> if c = CHR ''+'' then cs else s) in
     if ds \<noteq> [] \<and> list_all is_digit ds \<and> read_nat ds < bound then Some (read_nat ds) else None)"

lemma show_nat_not_Nil [simp]: "show_nat n \<noteq> []"
  by (simp add: show_nat.simps [of n])

definition to_lower :: "char \<Rightarrow> char" where
  "to_lower c = (let n = of_char c :: nat in if 65 \<le> n \<and> n \<le> 90 then char_of (n + 32) else c)"

definition hex_digit :: "nat \<Rightarrow> char" where
  "hex_digit n = (if n < 10 then char_of (48 + n) else char_of (87 + n))"

text \<open>The rendering \<^verbatim>\<open>{b:02x}\<close> of a byte.\<close>

definition hex_byte :: "byte \<Rightarrow> string" where
  "hex_byte b = [hex_digit (unat b div 16), hex_digit (unat b mod 16)]"

lemma hex_digit_inj: "m < 16 \<Longrightarrow> n < 16 \<Longrightarrow> hex_digit m = hex_digit n \<Longrightarrow> m = n"
proof -
  assume a: "m < 16" "n < 16" and "hex_digit m = hex_digit n"
  then have "(of_char (hex_digit m) :: nat) = of_char (hex_digit n)" by simp
  with a show "m = n" by (auto simp: hex_digit_def split: if_splits)
qed

lemma unat_byte_less: "unat (b :: byte) < 256"
  using unsigned_less [of b] by simp

lemma hex_byte_inj [simp]: "hex_byte a = hex_byte b \<longleftrightarrow> a = b"
proof
  assume h: "hex_byte a = hex_byte b"
  have "unat a div 16 < 16" "unat b div 16 < 16"
    using unat_byte_less [of a] unat_byte_less [of b] by simp_all
  with h have "unat a div 16 = unat b div 16" "unat a mod 16 = unat b mod 16"
    by (auto simp: hex_byte_def intro: hex_digit_inj)
  then have "unat a = unat b" by (metis div_mult_mod_eq)
  then show "a = b" by (simp add: word_eq_iff_unsigned [where ?'a = nat])
qed simp

section \<open>Characters and strings\<close>

definition is_whitespace :: "char \<Rightarrow> bool" where
  "is_whitespace c = (let n = of_char c :: nat in 9 \<le> n \<and> n \<le> 13 \<or> n = 32 \<or> n = 133 \<or> n = 160)"

definition is_control :: "char \<Rightarrow> bool" where
  "is_control c = (let n = of_char c :: nat in n < 32 \<or> 127 \<le> n \<and> n < 160)"

definition trim_end_with :: "(char \<Rightarrow> bool) \<Rightarrow> string \<Rightarrow> string" where
  "trim_end_with p s = rev (dropWhile p (rev s))"

definition trim_str :: "string \<Rightarrow> string" where
  "trim_str s = trim_end_with is_whitespace (dropWhile is_whitespace s)"

text \<open>\<^verbatim>\<open>str::strip_prefix\<close> and \<^verbatim>\<open>str::split_once\<close> on one character.\<close>

definition strip_prefix :: "string \<Rightarrow> string \<Rightarrow> string option" where
  "strip_prefix p s = (if prefix p s then Some (drop (length p) s) else None)"

definition split_once :: "char \<Rightarrow> string \<Rightarrow> (string \<times> string) option" where
  "split_once c s = (if c \<in> set s
     then Some (takeWhile (\<lambda>d. d \<noteq> c) s, tl (dropWhile (\<lambda>d. d \<noteq> c) s)) else None)"

text \<open>\<^verbatim>\<open>str::find\<close> of a substring: the position of its first occurrence.\<close>

fun find_sub :: "string \<Rightarrow> string \<Rightarrow> nat option" where
  "find_sub pat [] = (if pat = [] then Some 0 else None)"
| "find_sub pat (c # s) = (if prefix pat (c # s) then Some 0 else map_option Suc (find_sub pat s))"

text \<open>The quotes around names in messages, and \<^verbatim>\<open>slice::join\<close>.\<close>

definition quote :: "string \<Rightarrow> string" where
  "quote s = CHR 0x27 # s @ [CHR 0x27]"

fun join_with :: "string \<Rightarrow> string list \<Rightarrow> string" where
  "join_with sep [] = ''''"
| "join_with sep [x] = x"
| "join_with sep (x # xs) = x @ sep @ join_with sep xs"

lemma set_trim_end_with: "set (trim_end_with p s) \<subseteq> set s"
  using set_dropWhileD [of _ p "rev s"] by (auto simp: trim_end_with_def)

lemma set_trim_str: "set (trim_str s) \<subseteq> set s"
  unfolding trim_str_def using set_trim_end_with set_dropWhileD by fastforce

lemma last_trim_end_with: "trim_end_with p s \<noteq> [] \<Longrightarrow> \<not> p (last (trim_end_with p s))"
  by (simp add: trim_end_with_def last_rev hd_dropWhile)

lemma length_trim_end_with: "length (trim_end_with p s) \<le> length s"
  by (simp add: trim_end_with_def) (metis length_dropWhile_le length_rev)

lemma find_sub_Some: "find_sub pat s = Some n \<Longrightarrow> prefix pat (drop n s)"
  by (induction s arbitrary: n) (auto split: if_splits)

lemma find_sub_None: "find_sub pat s = None \<longleftrightarrow> \<not> sublist pat s"
proof (induction s)
  case (Cons c s)
  then show ?case by (auto simp: sublist_Cons_right)
qed simp

lemma find_sub_sublist: "find_sub pat s = Some n \<Longrightarrow> sublist pat s"
  by (metis find_sub_None option.distinct(1))

section \<open>Lists\<close>

definition contains :: "'a list \<Rightarrow> 'a \<Rightarrow> bool" where
  "contains xs x = (x \<in> set xs)"

lemma list_eq_append_take_drop: "xs = ys @ zs \<Longrightarrow> take (length ys) xs = ys \<and> drop (length ys) xs = zs"
  by simp

section \<open>Step systems\<close>

text \<open>
  Components that process one command at a time share this argument: an invariant kept by every
  command issued when its guard holds is kept by every guarded run.
\<close>

fun guarded :: "('c \<Rightarrow> 's \<Rightarrow> 's) \<Rightarrow> ('c \<Rightarrow> 's \<Rightarrow> bool) \<Rightarrow> 'c list \<Rightarrow> 's \<Rightarrow> bool" where
  "guarded step ok [] s = True"
| "guarded step ok (c # cs) s = (ok c s \<and> guarded step ok cs (step c s))"

lemma guarded_append:
  "guarded step ok (xs @ ys) s \<longleftrightarrow> guarded step ok xs s \<and> guarded step ok ys (fold step xs s)"
  by (induction xs arbitrary: s) auto

lemma guarded_True [simp]: "guarded step (\<lambda>_ _. True) cs s"
  by (induction cs arbitrary: s) auto

lemma guarded_all: "(\<And>c s. c \<in> set cs \<Longrightarrow> ok c s) \<Longrightarrow> guarded step ok cs s"
  by (induction cs arbitrary: s) auto

locale guarded_system =
  fixes step :: "'c \<Rightarrow> 's \<Rightarrow> 's"
    and ok :: "'c \<Rightarrow> 's \<Rightarrow> bool"
    and inv :: "'s \<Rightarrow> bool"
  assumes step_inv: "inv s \<Longrightarrow> ok c s \<Longrightarrow> inv (step c s)"
begin

lemma run_inv: "inv s \<Longrightarrow> guarded step ok cs s \<Longrightarrow> inv (fold step cs s)"
  by (induction cs arbitrary: s) (auto intro: step_inv)

text \<open>Whatever follows from the invariant after one more command follows after every run.\<close>

lemma run_induct:
  assumes "inv s" "guarded step ok cs s" "P s"
    and "\<And>c s. inv s \<Longrightarrow> ok c s \<Longrightarrow> P s \<Longrightarrow> P (step c s)"
  shows "P (fold step cs s)"
  using assms(1-3) by (induction cs arbitrary: s) (auto intro: step_inv assms(4))

end

end
