(* ===== verification/Hf_Json.thy ===== *)
theory Hf_Json
  imports Complex_Main Hf_Prelude
begin

text \<open>
  The JSON values the program exchanges (\<^verbatim>\<open>serde_json::Value\<close>) and the accessors it calls on them.
  Integers stand for numbers written without a fraction, within the range of i64 and u64; other
  numbers are rationals, since JSON has no infinities.  An object is an association list; the code
  reads objects by key only.  Text serialisation is not defined here: components that need it take
  it as a parameter.
\<close>

datatype json =
    JNull
  | JBool bool
  | JInt int
  | JFloat rat
  | JStr string
  | JArr "json list"
  | JObj "(string \<times> json) list"

definition jget :: "json \<Rightarrow> string \<Rightarrow> json option" where
  "jget j k = (case j of JObj m \<Rightarrow> tget k m | _ \<Rightarrow> None)"

definition as_str :: "json \<Rightarrow> string option" where
  "as_str j = (case j of JStr s \<Rightarrow> Some s | _ \<Rightarrow> None)"

definition as_bool :: "json \<Rightarrow> bool option" where
  "as_bool j = (case j of JBool b \<Rightarrow> Some b | _ \<Rightarrow> None)"

definition as_u64 :: "json \<Rightarrow> nat option" where
  "as_u64 j = (case j of JInt i \<Rightarrow> if 0 \<le> i \<and> i < 2 ^ 64 then Some (nat i) else None | _ \<Rightarrow> None)"

definition as_f64 :: "json \<Rightarrow> rat option" where
  "as_f64 j = (case j of JInt i \<Rightarrow> Some (of_int i) | JFloat r \<Rightarrow> Some r | _ \<Rightarrow> None)"

definition as_array :: "json \<Rightarrow> json list option" where
  "as_array j = (case j of JArr xs \<Rightarrow> Some xs | _ \<Rightarrow> None)"

definition as_object :: "json \<Rightarrow> json table option" where
  "as_object j = (case j of JObj m \<Rightarrow> Some m | _ \<Rightarrow> None)"

text \<open>The idiom \<^verbatim>\<open>body.get(k).and_then(Value::as_x)\<close>.\<close>

definition get_with :: "(json \<Rightarrow> 'a option) \<Rightarrow> json \<Rightarrow> string \<Rightarrow> 'a option" where
  "get_with f j k = Option.bind (jget j k) f"

abbreviation "get_str \<equiv> get_with as_str"
abbreviation "get_bool \<equiv> get_with as_bool"
abbreviation "get_u64 \<equiv> get_with as_u64"

definition unwrap_or :: "'a option \<Rightarrow> 'a \<Rightarrow> 'a" where
  "unwrap_or x d = (case x of None \<Rightarrow> d | Some v \<Rightarrow> v)"

lemma unwrap_or_simps [simp]: "unwrap_or None d = d" "unwrap_or (Some v) d = v"
  by (simp_all add: unwrap_or_def)

lemma jget_simps [simp]:
  "jget (JObj m) k = tget k m"
  "jget JNull k = None" "jget (JStr s) k = None" "jget (JBool b) k = None"
  "jget (JInt i) k = None" "jget (JFloat r) k = None" "jget (JArr xs) k = None"
  by (simp_all add: jget_def)

lemma as_str_simps [simp]:
  "as_str (JStr s) = Some s" "as_str JNull = None" "as_str (JBool b) = None"
  "as_str (JInt i) = None" "as_str (JFloat r) = None" "as_str (JArr xs) = None"
  "as_str (JObj m) = None"
  by (simp_all add: as_str_def)

lemma as_bool_simps [simp]:
  "as_bool (JBool b) = Some b" "as_bool JNull = None" "as_bool (JStr s) = None"
  "as_bool (JInt i) = None" "as_bool (JFloat r) = None" "as_bool (JArr xs) = None"
  "as_bool (JObj m) = None"
  by (simp_all add: as_bool_def)

lemma as_u64_JInt [simp]: "n < 2 ^ 64 \<Longrightarrow> as_u64 (JInt (int n)) = Some n"
  by (simp add: as_u64_def)

lemma as_u64_bound: "as_u64 j = Some n \<Longrightarrow> n < 2 ^ 64"
  by (auto simp: as_u64_def nat_less_iff split: json.splits if_splits)

lemma as_object_simps [simp]: "as_object (JObj m) = Some m"
  by (simp add: as_object_def)

lemma as_array_simps [simp]: "as_array (JArr xs) = Some xs"
  by (simp add: as_array_def)

lemma get_with_simps [simp]:
  "get_with f (JObj m) k = Option.bind (tget k m) f" "get_with f JNull k = None"
  by (simp_all add: get_with_def)

end
