(* ===== verification/Hf_Packet.thy ===== *)
theory Hf_Packet
  imports Hf_Json
begin

text \<open>
  The wire protocol crate: packet and identity types (\<^verbatim>\<open>protocol/src/packet.rs\<close>,
  \<^verbatim>\<open>protocol/src/identity.rs\<close>, the constants of \<^verbatim>\<open>protocol/src/lib.rs\<close>), and the newline framing of
  packets on a control connection.

  The JSON text of a packet comes from serde_json and is a parameter (\<^verbatim>\<open>ser\<close>, \<^verbatim>\<open>de\<close>).  A buffered
  reader is the list of the chunks its \<^verbatim>\<open>fill_buf\<close> calls deliver; a read fault is an element of that
  list, and the end of the list is the end of the stream.
\<close>

section \<open>Constants\<close>

definition PROTO_VERSION :: u16 where "PROTO_VERSION = 8"
definition DEFAULT_TCP_PORT :: u16 where "DEFAULT_TCP_PORT = 1716"
definition UDP_BROADCAST_PORT :: u16 where "UDP_BROADCAST_PORT = 1716"
definition MAX_PACKET_LEN :: nat where "MAX_PACKET_LEN = 512 * 1024"

definition TYPE_IDENTITY :: string where "TYPE_IDENTITY = ''kdeconnect.identity''"
definition TYPE_PAIR :: string where "TYPE_PAIR = ''kdeconnect.pair''"
definition TYPE_PING :: string where "TYPE_PING = ''kdeconnect.ping''"
definition TYPE_NOTIFICATION :: string where "TYPE_NOTIFICATION = ''kdeconnect.notification''"
definition TYPE_NOTIFICATION_REQUEST :: string where
  "TYPE_NOTIFICATION_REQUEST = ''kdeconnect.notification.request''"
definition TYPE_MOUSEPAD :: string where "TYPE_MOUSEPAD = ''kdeconnect.mousepad.request''"
definition TYPE_MPRIS :: string where "TYPE_MPRIS = ''kdeconnect.mpris''"
definition TYPE_MPRIS_REQUEST :: string where "TYPE_MPRIS_REQUEST = ''kdeconnect.mpris.request''"
definition TYPE_CLIPBOARD :: string where "TYPE_CLIPBOARD = ''kdeconnect.clipboard''"
definition TYPE_CLIPBOARD_CONNECT :: string where
  "TYPE_CLIPBOARD_CONNECT = ''kdeconnect.clipboard.connect''"
definition TYPE_SHARE :: string where "TYPE_SHARE = ''kdeconnect.share.request''"
definition TYPE_SHARE_UPDATE :: string where
  "TYPE_SHARE_UPDATE = ''kdeconnect.share.request.update''"
definition TYPE_RUNCOMMAND :: string where "TYPE_RUNCOMMAND = ''kdeconnect.runcommand''"
definition TYPE_RUNCOMMAND_REQUEST :: string where
  "TYPE_RUNCOMMAND_REQUEST = ''kdeconnect.runcommand.request''"
definition TYPE_BATTERY :: string where "TYPE_BATTERY = ''kdeconnect.battery''"
definition TYPE_BATTERY_REQUEST :: string where
  "TYPE_BATTERY_REQUEST = ''kdeconnect.battery.request''"
definition TYPE_SFTP :: string where "TYPE_SFTP = ''kdeconnect.sftp''"
definition TYPE_TELEPHONY :: string where "TYPE_TELEPHONY = ''kdeconnect.telephony''"
definition TYPE_SYSTEMVOLUME :: string where "TYPE_SYSTEMVOLUME = ''kdeconnect.systemvolume''"
definition TYPE_FINDMYPHONE :: string where "TYPE_FINDMYPHONE = ''kdeconnect.findmyphone.request''"

lemmas type_defs =
  TYPE_IDENTITY_def TYPE_PAIR_def TYPE_PING_def TYPE_NOTIFICATION_def
  TYPE_NOTIFICATION_REQUEST_def TYPE_MOUSEPAD_def TYPE_MPRIS_def TYPE_MPRIS_REQUEST_def
  TYPE_CLIPBOARD_def TYPE_CLIPBOARD_CONNECT_def TYPE_SHARE_def TYPE_SHARE_UPDATE_def
  TYPE_RUNCOMMAND_def TYPE_RUNCOMMAND_REQUEST_def TYPE_BATTERY_def TYPE_BATTERY_REQUEST_def
  TYPE_SFTP_def TYPE_TELEPHONY_def TYPE_SYSTEMVOLUME_def TYPE_FINDMYPHONE_def

datatype proto_error =
    Io string
  | Json string
  | Cert string
  | Other string

section \<open>Identities\<close>

record identity =
  device_id :: string
  device_name :: string
  device_type :: string
  protocol_version :: u16
  incoming :: "string list"
  outgoing :: "string list"
  tcp_source_port :: u16

definition supports_incoming :: "identity \<Rightarrow> string \<Rightarrow> bool" where
  "supports_incoming i t = list_ex (\<lambda>cap. cap = t) (incoming i)"

definition supports_outgoing :: "identity \<Rightarrow> string \<Rightarrow> bool" where
  "supports_outgoing i t = list_ex (\<lambda>cap. cap = t) (outgoing i)"

text \<open>The JSON object the derived serialiser writes, with the upstream field names.\<close>

definition json_of_identity :: "identity \<Rightarrow> json" where
  "json_of_identity i = JObj
     [(''deviceId'', JStr (device_id i)),
      (''deviceName'', JStr (device_name i)),
      (''deviceType'', JStr (device_type i)),
      (''protocolVersion'', JInt (uint (protocol_version i))),
      (''incomingCapabilities'', JArr (map JStr (incoming i))),
      (''outgoingCapabilities'', JArr (map JStr (outgoing i))),
      (''tcpPort'', JInt (uint (tcp_source_port i)))]"

text \<open>
  The derived deserialiser of a field: the field may appear under its name or its alias, but not
  under both; an absent field takes its default where the attribute gives one.
\<close>

definition de_field :: "(json \<Rightarrow> 'a option) \<Rightarrow> 'a option \<Rightarrow> string list \<Rightarrow> json table \<Rightarrow> 'a option" where
  "de_field conv dflt names m = (case filter (\<lambda>n. thas n m) names of
       [] \<Rightarrow> dflt
     | [n] \<Rightarrow> Option.bind (tget n m) conv
     | _ \<Rightarrow> None)"

definition de_u16 :: "json \<Rightarrow> u16 option" where
  "de_u16 j = (case as_u64 j of Some n \<Rightarrow> if n < 2 ^ 16 then Some (of_nat n) else None | None \<Rightarrow> None)"

definition de_strings :: "json \<Rightarrow> string list option" where
  "de_strings j = (case j of JArr xs \<Rightarrow> those (map as_str xs) | _ \<Rightarrow> None)"

text \<open>The derived deserialiser also takes a sequence, read by position.\<close>

definition de_elem :: "(json \<Rightarrow> 'a option) \<Rightarrow> 'a option \<Rightarrow> nat \<Rightarrow> json list \<Rightarrow> 'a option" where
  "de_elem conv dflt i xs = (if i < length xs then conv (xs ! i) else dflt)"

definition make_identity :: "string option \<times> string option \<times> string option \<times> u16 option \<times>
    string list option \<times> string list option \<times> u16 option \<Rightarrow> identity option" where
  "make_identity f = (case f of
       (Some d, Some n, Some t, Some v, Some i, Some u, Some p) \<Rightarrow>
         Some \<lparr>device_id = d, device_name = n, device_type = t, protocol_version = v,
               incoming = i, outgoing = u, tcp_source_port = p\<rparr>
     | _ \<Rightarrow> None)"

definition identity_of_json :: "json \<Rightarrow> identity option" where
  "identity_of_json j = (case j of
       JObj m \<Rightarrow> make_identity
         (de_field as_str None [''deviceId''] m,
          de_field as_str None [''deviceName'', ''name''] m,
          de_field as_str None [''deviceType''] m,
          de_field de_u16 (Some 0) [''protocolVersion'', ''ProtocolVersion''] m,
          de_field de_strings (Some []) [''incomingCapabilities''] m,
          de_field de_strings (Some []) [''outgoingCapabilities''] m,
          de_field de_u16 (Some 0) [''tcpPort'', ''tcpSourcePort''] m)
     | JArr xs \<Rightarrow> if length xs > 7 then None else make_identity
         (de_elem as_str None 0 xs, de_elem as_str None 1 xs, de_elem as_str None 2 xs,
          de_elem de_u16 (Some 0) 3 xs, de_elem de_strings (Some []) 4 xs,
          de_elem de_strings (Some []) 5 xs, de_elem de_u16 (Some 0) 6 xs)
     | _ \<Rightarrow> None)"

section \<open>Packets\<close>

record packet =
  packet_id :: i64
  ptype :: string
  body :: json
  payload_size :: "i64 option"
  payload_transfer_info :: "json table option"

text \<open>
  The process-wide counter \<^verbatim>\<open>NEXT_PACKET_ID\<close> is passed explicitly: \<^verbatim>\<open>fetch_add\<close> returns the old value
  and stores the new one, both modulo \<open>2 ^ 64\<close>.
\<close>

definition next_packet_id :: "i64 \<Rightarrow> i64 \<times> i64" where
  "next_packet_id c = (c + 1, c + 1)"

definition packet_new :: "i64 \<Rightarrow> string \<Rightarrow> json \<Rightarrow> packet \<times> i64" where
  "packet_new c t b = (let (i, c') = next_packet_id c in
     (\<lparr>packet_id = i, ptype = t, body = b, payload_size = None, payload_transfer_info = None\<rparr>, c'))"

definition with_payload :: "packet \<Rightarrow> i64 \<Rightarrow> u16 \<Rightarrow> packet" where
  "with_payload p sz port =
     p\<lparr>payload_size := Some sz, payload_transfer_info := Some [(''port'', JInt (uint port))]\<rparr>"

definition has_payload :: "packet \<Rightarrow> bool" where
  "has_payload p = (case payload_size p of Some sz \<Rightarrow> sz \<noteq> 0 | None \<Rightarrow> False)"

definition payload_transfer_port :: "packet \<Rightarrow> u16 option" where
  "payload_transfer_port p =
     (case Option.bind (Option.bind (payload_transfer_info p) (tget ''port'')) as_u64 of
        Some port \<Rightarrow> if port < 2 ^ 16 then Some (of_nat port) else None
      | None \<Rightarrow> None)"

definition identity_packet :: "i64 \<Rightarrow> identity \<Rightarrow> packet \<times> i64" where
  "identity_packet c i = (let (n, c') = next_packet_id c in
     (\<lparr>packet_id = n, ptype = TYPE_IDENTITY, body = json_of_identity i,
       payload_size = None, payload_transfer_info = None\<rparr>, c'))"

section \<open>Framing\<close>

abbreviation newline :: byte where "newline \<equiv> 10"

definition encode_into :: "(packet \<Rightarrow> string + bytes) \<Rightarrow> packet \<Rightarrow> bytes \<Rightarrow> proto_error + bytes" where
  "encode_into ser p buf = (case ser p of
       Inl e \<Rightarrow> Err (Json e)
     | Inr json \<Rightarrow>
         if length json > MAX_PACKET_LEN
         then Err (Other (''packet of '' @ show_nat (length json) @
                '' bytes exceeds MAX_PACKET_LEN ('' @ show_nat MAX_PACKET_LEN @ '')''))
         else Ok (buf @ json @ [newline]))"

datatype chunk = Chunk bytes | Fault string

type_synonym reader = "chunk list"

definition position :: "('a \<Rightarrow> bool) \<Rightarrow> 'a list \<Rightarrow> nat option" where
  "position f xs = (let n = length (takeWhile (\<lambda>x. \<not> f x) xs) in if n < length xs then Some n else None)"

text \<open>\<^verbatim>\<open>consume(n)\<close> on the buffered chunk: what is left of it is returned by the next \<^verbatim>\<open>fill_buf\<close>.\<close>

definition consume :: "nat \<Rightarrow> bytes \<Rightarrow> reader \<Rightarrow> reader" where
  "consume n c r = (if n < length c then Chunk (drop n c) # r else r)"

fun read_frame_loop :: "bytes \<Rightarrow> reader \<Rightarrow> (proto_error + bytes) \<times> reader" where
  "read_frame_loop line [] =
     (Err (Other (if line = [] then ''connection closed before a frame''
                  else ''truncated frame: connection closed mid-line'')), [])"
| "read_frame_loop line (Fault e # r) = (Err (Io e), r)"
| "read_frame_loop line (Chunk c # r) =
     (if c = [] then
        (Err (Other (if line = [] then ''connection closed before a frame''
                     else ''truncated frame: connection closed mid-line'')), Chunk c # r)
      else (case position (\<lambda>b. b = newline) c of
          Some pos \<Rightarrow>
            if length line + pos > MAX_PACKET_LEN
            then (Err (Other (''framed packet of '' @ show_nat (length line + pos) @
                    '' bytes exceeds MAX_PACKET_LEN ('' @ show_nat MAX_PACKET_LEN @ '')'')), Chunk c # r)
            else (Ok (line @ take pos c), consume (pos + 1) c r)
        | None \<Rightarrow>
            if length line + length c > MAX_PACKET_LEN
            then (Err (Other (''framed packet exceeds MAX_PACKET_LEN ('' @
                    show_nat MAX_PACKET_LEN @ '')'')), Chunk c # r)
            else read_frame_loop (line @ c) r))"

definition read_frame :: "reader \<Rightarrow> (proto_error + bytes) \<times> reader" where
  "read_frame r = read_frame_loop [] r"

definition read_from :: "(bytes \<Rightarrow> string + packet) \<Rightarrow> reader \<Rightarrow> (proto_error + packet) \<times> reader" where
  "read_from de r = (case read_frame r of
       (Inl e, r') \<Rightarrow> (Err e, r')
     | (Inr payload, r') \<Rightarrow> ((case de payload of Inl e \<Rightarrow> Err (Json e) | Inr p \<Rightarrow> Ok p), r'))"

text \<open>\<^verbatim>\<open>write_to\<close> appends the whole frame to what the peer will read, unless encoding or the write fails.\<close>

definition write_to :: "(packet \<Rightarrow> string + bytes) \<Rightarrow> (bytes \<Rightarrow> string option) \<Rightarrow> packet \<Rightarrow> bytes \<Rightarrow>
    proto_error + bytes" where
  "write_to ser write_all p wire = (case encode_into ser p [] of
       Inl e \<Rightarrow> Err e
     | Inr frame \<Rightarrow> (case write_all frame of Some e \<Rightarrow> Err (Io e) | None \<Rightarrow> Ok (wire @ frame)))"

text \<open>A connection's reader loop calls \<^verbatim>\<open>read_from\<close> repeatedly on one buffered reader.\<close>

fun read_packets :: "(bytes \<Rightarrow> string + packet) \<Rightarrow> nat \<Rightarrow> reader \<Rightarrow> (proto_error + packet) list \<times> reader" where
  "read_packets de 0 r = ([], r)"
| "read_packets de (Suc n) r = (let (x, r') = read_from de r; (xs, r'') = read_packets de n r'
     in (x # xs, r''))"

fun write_packets :: "(packet \<Rightarrow> string + bytes) \<Rightarrow> (bytes \<Rightarrow> string option) \<Rightarrow> packet list \<Rightarrow> bytes \<Rightarrow>
    proto_error + bytes" where
  "write_packets ser write_all [] wire = Ok wire"
| "write_packets ser write_all (p # ps) wire = (case write_to ser write_all p wire of
       Inl e \<Rightarrow> Err e | Inr wire' \<Rightarrow> write_packets ser write_all ps wire')"

text \<open>What one frame read should return, stated on the undivided byte stream.\<close>

datatype verdict = Frame bytes bytes | Closed_Before | Truncated | Too_Long

definition frame_spec :: "bytes \<Rightarrow> verdict" where
  "frame_spec s = (let p = takeWhile (\<lambda>b. b \<noteq> newline) s in
     if length p > MAX_PACKET_LEN then Too_Long
     else if p \<noteq> s then Frame p (drop (Suc (length p)) s)
     else if s = [] then Closed_Before else Truncated)"

section \<open>Facts about packets and identities\<close>

lemma those_map_as_str [simp]: "those (map as_str (map JStr xs)) = Some xs"
  by (induction xs) auto

lemma de_strings_JArr [simp]: "de_strings (JArr (map JStr xs)) = Some xs"
  by (simp only: de_strings_def json.case those_map_as_str)

lemma de_u16_uint [simp]: "de_u16 (JInt (uint (w :: u16))) = Some w"
  using unsigned_less [where ?'a = nat, of w] unsigned_less [where ?'a = int, of w]
  by (simp add: de_u16_def as_u64_def)

lemma payload_port_with_payload [simp]: "payload_transfer_port (with_payload p n port) = Some port"
  using de_u16_uint [of port]
  by (simp add: payload_transfer_port_def with_payload_def de_u16_def split: option.splits if_splits)

section \<open>Facts about framing\<close>

lemma position_None: "position f xs = None \<longleftrightarrow> (\<forall>x\<in>set xs. \<not> f x)"
proof
  assume "position f xs = None"
  then have "length (takeWhile (\<lambda>x. \<not> f x) xs) = length xs"
    using length_takeWhile_le [of "\<lambda>x. \<not> f x" xs] by (auto simp: position_def Let_def split: if_splits)
  then show "\<forall>x\<in>set xs. \<not> f x"
    by (metis takeWhile_eq_take take_all order_refl takeWhile_eq_all_conv)
qed (simp add: position_def takeWhile_eq_all_conv [THEN iffD2])

lemma position_Some:
  assumes "\<forall>x\<in>set p. \<not> f x" "f y"
  shows "position f (p @ y # q) = Some (length p)"
  using assms by (simp add: position_def takeWhile_append2)

lemma split_at_first: "y \<in> set xs \<Longrightarrow> \<exists>p q. xs = p @ y # q \<and> y \<notin> set p"
  by (metis split_list_first)

lemma first_occurrence_unique:
  assumes "p @ y # q = p' @ y # q'" "y \<notin> set p" "y \<notin> set p'"
  shows "p = p' \<and> q = q'"
  using assms by (auto simp: append_eq_append_conv2 Cons_eq_append_conv append_eq_Cons_conv)

text \<open>Reading a frame off a stream of chunks is reading a line off the concatenated bytes.\<close>

lemma read_frame_loop_line:
  assumes "\<forall>c\<in>set cs. c \<noteq> []" "concat cs = payload @ newline # rest" "newline \<notin> set payload"
    "length line + length payload \<le> MAX_PACKET_LEN"
  shows "\<exists>cs'. read_frame_loop line (map Chunk cs @ r) = (Ok (line @ payload), map Chunk cs' @ r)
           \<and> concat cs' = rest \<and> (\<forall>c\<in>set cs'. c \<noteq> [])"
  using assms
proof (induction cs arbitrary: line payload)
  case (Cons c cs)
  show ?case
  proof (cases "newline \<in> set c")
    case True
    then obtain p q where c: "c = p @ newline # q" "newline \<notin> set p" using split_at_first by fast
    with Cons.prems have pq: "p = payload" "q @ concat cs = rest"
      using first_occurrence_unique [of p newline "q @ concat cs" payload rest] by auto
    have pos: "position (\<lambda>b. b = newline) c = Some (length payload)"
      using c pq position_Some [of p "\<lambda>b. b = newline"] by auto
    show ?thesis
    proof (cases "q = []")
      case True
      with c pq pos Cons.prems show ?thesis by (intro exI [of _ cs]) (simp add: consume_def)
    next
      case False
      with c pq pos Cons.prems show ?thesis by (intro exI [of _ "q # cs"]) (simp add: consume_def)
    qed
  next
    case False
    then have pos: "position (\<lambda>b. b = newline) c = None" by (auto simp: position_None)
    from Cons.prems(2) False obtain us where us: "payload = c @ us" "concat cs = us @ newline # rest"
      by (auto simp: append_eq_append_conv2 append_eq_Cons_conv)
    with Cons.prems Cons.IH [of us "line @ c"] pos show ?thesis by auto
  qed
qed simp

lemma read_frame_loop_oversize:
  assumes "\<forall>c\<in>set cs. c \<noteq> []" "length line \<le> MAX_PACKET_LEN"
    "newline \<notin> set (take (Suc MAX_PACKET_LEN - length line) (concat cs))"
    "length line + length (concat cs) > MAX_PACKET_LEN"
  shows "\<exists>m r'. read_frame_loop line (map Chunk cs @ r) = (Err (Other m), r') \<and> prefix ''framed packet'' m"
  using assms
proof (induction cs arbitrary: line)
  case (Cons c cs)
  show ?case
  proof (cases "newline \<in> set c")
    case True
    then obtain p q where c: "c = p @ newline # q" "newline \<notin> set p" using split_at_first by fast
    have "length line + length p > MAX_PACKET_LEN"
    proof (rule ccontr)
      assume "\<not> ?thesis"
      then have "Suc MAX_PACKET_LEN - length line \<ge> Suc (length p)" by simp
      then obtain k where "Suc MAX_PACKET_LEN - length line = Suc (length p) + k"
        using le_Suc_ex by blast
      with Cons.prems(3) c show False by simp
    qed
    moreover have "position (\<lambda>b. b = newline) c = Some (length p)"
      using c position_Some [of p "\<lambda>b. b = newline"] by auto
    ultimately show ?thesis using c by simp
  next
    case False
    then have "position (\<lambda>b. b = newline) c = None" by (auto simp: position_None)
    with Cons.prems Cons.IH [of "line @ c"] show ?thesis by (auto simp: diff_diff_left)
  qed
qed simp

lemma read_frame_loop_eof:
  assumes "\<forall>c\<in>set cs. c \<noteq> []" "newline \<notin> set (concat cs)"
    "length line + length (concat cs) \<le> MAX_PACKET_LEN"
  shows "read_frame_loop line (map Chunk cs) = (Err (Other
    (if line @ concat cs = [] then ''connection closed before a frame''
     else ''truncated frame: connection closed mid-line'')), [])"
  using assms
proof (induction cs arbitrary: line)
  case (Cons c cs)
  then have "position (\<lambda>b. b = newline) c = None" by (auto simp: position_None)
  with Cons.prems Cons.IH [of "line @ c"] show ?case by auto
qed simp

lemma takeWhile_neq_split:
  assumes "takeWhile (\<lambda>b. b \<noteq> y) s \<noteq> s"
  obtains rest where "s = takeWhile (\<lambda>b. b \<noteq> y) s @ y # rest"
    "rest = drop (Suc (length (takeWhile (\<lambda>b. b \<noteq> y) s))) s"
proof -
  have "dropWhile (\<lambda>b. b \<noteq> y) s \<noteq> []" using assms takeWhile_dropWhile_id [of "\<lambda>b. b \<noteq> y" s] by force
  then obtain rest where r: "dropWhile (\<lambda>b. b \<noteq> y) s = y # rest"
    by (metis (mono_tags, lifting) hd_dropWhile list.collapse)
  have s: "s = takeWhile (\<lambda>b. b \<noteq> y) s @ y # rest"
    by (metis r takeWhile_dropWhile_id)
  moreover have "rest = drop (Suc (length (takeWhile (\<lambda>b. b \<noteq> y) s))) s"
    using arg_cong [OF r, of tl] by (simp add: dropWhile_eq_drop drop_Suc tl_drop)
  ultimately show thesis by (rule that)
qed

lemma newline_not_in_takeWhile: "y \<notin> set (takeWhile (\<lambda>b. b \<noteq> y) s)"
  by (auto dest: set_takeWhileD)

lemma take_takeWhile_prefix:
  "n \<le> length (takeWhile P s) \<Longrightarrow> set (take n s) \<subseteq> set (takeWhile P s)"
  by (metis set_take_subset takeWhile_eq_take min.absorb1 take_take)

lemma write_to_OkD:
  "write_to ser w p wire = Ok wire' \<Longrightarrow>
     \<exists>j. ser p = Ok j \<and> length j \<le> MAX_PACKET_LEN \<and> wire' = wire @ j @ [newline]"
  by (auto simp: write_to_def encode_into_def split: sum.splits if_splits option.splits)

lemma write_packets_prefix:
  "write_packets ser w ps wire = Ok wire' \<Longrightarrow> \<exists>t. wire' = wire @ t"
  by (induction ps arbitrary: wire) (fastforce dest: write_to_OkD split: sum.splits)+

lemma read_packets_write_packets:
  assumes law: "\<And>p j. ser p = Ok j \<Longrightarrow> newline \<notin> set j \<and> de j = Ok p"
    and "write_packets ser w ps wire = Ok (wire @ t)" "\<forall>c\<in>set cs. c \<noteq> []" "concat cs = t @ rest"
  shows "\<exists>cs'. read_packets de (length ps) (map Chunk cs) = (map Ok ps, map Chunk cs') \<and> concat cs' = rest"
  using assms(2-)
proof (induction ps arbitrary: wire t cs)
  case (Cons p ps)
  then obtain j where j: "ser p = Ok j" "length j \<le> MAX_PACKET_LEN"
    and wr: "write_packets ser w ps (wire @ j @ [newline]) = Ok (wire @ t)"
    by (auto dest!: write_to_OkD split: sum.splits)
  then obtain t' where t': "t = j @ newline # t'" using write_packets_prefix [OF wr] by auto
  obtain cs' where cs': "read_frame (map Chunk cs) = (Ok j, map Chunk cs')"
    "concat cs' = t' @ rest" "\<forall>c\<in>set cs'. c \<noteq> []"
    using read_frame_loop_line [of cs j "t' @ rest" "[]" "[]"] Cons.prems t' j law [OF j(1)]
    by (auto simp: read_frame_def)
  from Cons.IH [OF _ cs'(3,2), of "wire @ j @ [newline]"] wr t'
  show ?case using cs'(1) law [OF j(1)] by (auto simp: read_from_def)
next
  case Nil
  then show ?case by (intro exI [of _ cs]) simp
qed

section \<open>Properties\<close>

text \<open>C28. Reading one frame from any division of a byte stream into non-empty chunks gives what the
  line-oriented specification gives on the undivided stream: the bytes before the first newline,
  with exactly the bytes after it left to read, when at most \<^verbatim>\<open>MAX_PACKET_LEN\<close> bytes precede it; an
  oversize error when more do, newline or not; and the two end-of-stream errors otherwise.\<close>

theorem read_frame_meets_spec:
  assumes "\<forall>c\<in>set cs. c \<noteq> []"
  shows "case frame_spec (concat cs) of
      Frame p rest \<Rightarrow> \<exists>cs'. read_frame (map Chunk cs) = (Ok p, map Chunk cs') \<and> concat cs' = rest
    | Closed_Before \<Rightarrow> read_frame (map Chunk cs) = (Err (Other ''connection closed before a frame''), [])
    | Truncated \<Rightarrow>
        read_frame (map Chunk cs) = (Err (Other ''truncated frame: connection closed mid-line''), [])
    | Too_Long \<Rightarrow> \<exists>m r. read_frame (map Chunk cs) = (Err (Other m), r) \<and> prefix ''framed packet'' m"
proof -
  define s p where s: "s = concat cs" and p: "p = takeWhile (\<lambda>b. b \<noteq> newline) s"
  have np: "newline \<notin> set p" by (simp add: p newline_not_in_takeWhile)
  have fs: "frame_spec s = (if length p > MAX_PACKET_LEN then Too_Long
      else if p \<noteq> s then Frame p (drop (Suc (length p)) s)
      else if s = [] then Closed_Before else Truncated)"
    by (simp only: frame_spec_def Let_def p)
  consider (long) "length p > MAX_PACKET_LEN"
    | (line) "length p \<le> MAX_PACKET_LEN" "p \<noteq> s"
    | (eof) "length p \<le> MAX_PACKET_LEN" "p = s" by linarith
  then show ?thesis
  proof cases
    case long
    then have "newline \<notin> set (take (Suc MAX_PACKET_LEN) s)" "length s > MAX_PACKET_LEN"
      using np take_takeWhile_prefix [of "Suc MAX_PACKET_LEN" "\<lambda>b. b \<noteq> newline" s]
        length_takeWhile_le [of "\<lambda>b. b \<noteq> newline" s] by (auto simp: p)
    with read_frame_loop_oversize [OF assms, of "[]" "[]"] long show ?thesis
      by (simp add: read_frame_def fs flip: s)
  next
    case line
    then obtain rest where r: "s = p @ newline # rest" "rest = drop (Suc (length p)) s"
      using takeWhile_neq_split [of newline s] p by metis
    have "frame_spec s = Frame p rest" using line unfolding fs r(2) by simp
    moreover have "concat cs = p @ newline # rest" using r(1) unfolding s .
    ultimately show ?thesis
      using read_frame_loop_line [OF assms _ np, of rest "[]" "[]"] line
      by (auto simp: read_frame_def s)
  next
    case eof
    with read_frame_loop_eof [OF assms, of "[]"] np show ?thesis
      by (simp add: read_frame_def fs flip: s)
  qed
qed

theorem read_frame_meets_spec_witness:
  "frame_spec (concat [[1, 2], [3, 10, 4], [5]]) = Frame [1, 2, 3] [4, 5] \<and>
   (\<exists>cs'. read_frame (map Chunk [[1, 2], [3, 10, 4], [5]]) = (Ok [1, 2, 3], map Chunk cs') \<and>
      concat cs' = [4, 5])"
  using read_frame_meets_spec [of "[[1, 2], [3, 10, 4], [5]]"]
  by (simp add: frame_spec_def MAX_PACKET_LEN_def)

text \<open>Packets written one after the other to a connection are read back unchanged and in order,
  however the bytes are divided into chunks on the way, with nothing lost of what follows them.
  The serialiser is assumed to be inverted by the deserialiser and to emit no newline byte.\<close>

lemma packet_stream_roundtrip:
  assumes "\<And>p j. ser p = Ok j \<Longrightarrow> newline \<notin> set j \<and> de j = Ok p"
    and "write_packets ser write_all ps [] = Ok wire"
    and "\<forall>c\<in>set cs. c \<noteq> []" and "concat cs = wire @ rest"
  shows "\<exists>cs'. read_packets de (length ps) (map Chunk cs) = (map Ok ps, map Chunk cs') \<and> concat cs' = rest"
  using read_packets_write_packets [of ser de write_all ps "[]" wire cs rest] assms by simp

definition demo_packet :: packet where
  "demo_packet = fst (packet_new 0 TYPE_PING JNull)"

text \<open>An identity written to JSON is read back exactly, whatever its field values.\<close>

lemma identity_json_roundtrip [simp]: "identity_of_json (json_of_identity i) = Some i"
  by (simp add: identity_of_json_def json_of_identity_def make_identity_def de_field_def thas_def)

end
