(* ===== verification/Hf_Transfer.thy ===== *)
theory Hf_Transfer
  imports Hf_Packet
begin

text \<open>
  Inbound file transfers: the staging engine of \<^verbatim>\<open>daemon/src/transfer.rs\<close>, and the loop of
  \<^verbatim>\<open>daemon/src/device.rs\<close> that pumps a payload connection into it.

  The file system is a map from paths to contents.  What the operating system may refuse is a record
  of faults passed to every operation, so each early return of the code is a branch of the model.
  The payload connection is the bytes that will arrive on it, how they end, and how many of them a
  read returns at a time.
\<close>

section \<open>Errors and the file system\<close>

datatype io_error = NotFound | AlreadyExists | UnexpectedEof | IoOther string

datatype core_error =
    CIo io_error
  | CSqlite string
  | CJson string
  | COther string

type_synonym path = string
type_synonym fs = "path \<Rightarrow> bytes option"

record faults =
  f_mkdir :: "string option"
  f_open :: "string option"
  f_write :: "(nat \<times> string) option"
  f_flush :: "string option"
  f_rename :: "string option"
  f_remove :: "string option"
  f_probe :: "path \<Rightarrow> bool"

definition no_faults :: faults where
  "no_faults = \<lparr>f_mkdir = None, f_open = None, f_write = None, f_flush = None, f_rename = None,
     f_remove = None, f_probe = (\<lambda>_. False)\<rparr>"

text \<open>\<^verbatim>\<open>Path::join\<close>: an absolute right-hand side replaces the left-hand side.\<close>

definition join :: "path \<Rightarrow> string \<Rightarrow> path" where
  "join d n = (if n \<noteq> [] \<and> hd n = CHR ''/'' then n
     else if d = [] \<or> last d = CHR ''/'' then d @ n else d @ CHR ''/'' # n)"

section \<open>File names\<close>

definition PART_SUFFIX :: string where "PART_SUFFIX = ''.handfast-part''"
definition FALLBACK_NAME :: string where "FALLBACK_NAME = ''received-file''"
definition MAX_FILE_NAME_LEN :: nat where "MAX_FILE_NAME_LEN = 240"
definition MAX_NAME_COLLISIONS :: nat where "MAX_NAME_COLLISIONS = 10000"

fun split_by :: "(char \<Rightarrow> bool) \<Rightarrow> string \<Rightarrow> string list" where
  "split_by p [] = [[]]"
| "split_by p (c # cs) = (if p c then [] # split_by p cs
     else (case split_by p cs of [] \<Rightarrow> [[c]] | s # ss \<Rightarrow> (c # s) # ss))"

definition is_separator :: "char \<Rightarrow> bool" where
  "is_separator c = (c = CHR ''/'' \<or> c = CHR 0x5C)"

definition usable_segment :: "string \<Rightarrow> bool" where
  "usable_segment s = (s \<noteq> '''' \<and> s \<noteq> ''.'' \<and> s \<noteq> ''..'')"

definition clean_char :: "char \<Rightarrow> char" where
  "clean_char c = (if c \<in> {CHR ''<'', CHR ''>'', CHR '':'', CHR 0x22, CHR ''|'', CHR ''?'', CHR ''*''}
     then CHR ''_''
     else if (of_char c :: nat) < 0x20 \<or> c = CHR 0x7F then CHR ''_'' else c)"

definition sanitize_file_name :: "string \<Rightarrow> string" where
  "sanitize_file_name raw =
     (let picked = fold (\<lambda>seg acc. if usable_segment seg then Some seg else acc)
                     (split_by is_separator raw) None;
          base = (case picked of None \<Rightarrow> FALLBACK_NAME | Some s \<Rightarrow> s);
          cleaned = map clean_char base;
          trimmed = trim_end_with (\<lambda>c. c = CHR ''.'' \<or> c = CHR '' '') cleaned;
          truncated = take MAX_FILE_NAME_LEN trimmed
      in if truncated = [] then FALLBACK_NAME else truncated)"

text \<open>
  \<^verbatim>\<open>Path::file_stem\<close> and \<^verbatim>\<open>Path::extension\<close> of a bare file name: the split is at the last dot, and a
  name whose only dot is its first character has no extension.
\<close>

definition stem_ext :: "string \<Rightarrow> string \<times> string option" where
  "stem_ext n = (if n = '''' \<or> n = ''.'' \<or> n = ''..'' then (FALLBACK_NAME, None)
     else let ext = rev (takeWhile (\<lambda>c. c \<noteq> CHR ''.'') (rev n));
              stem = take (length n - Suc (length ext)) n
          in if CHR ''.'' \<notin> set n \<or> stem = [] then (n, None) else (stem, Some ext))"

definition numbered :: "string \<Rightarrow> nat \<Rightarrow> string" where
  "numbered n i = (case stem_ext n of
       (stem, Some ext) \<Rightarrow> stem @ '' ('' @ show_nat i @ '').'' @ ext
     | (stem, None) \<Rightarrow> stem @ '' ('' @ show_nat i @ '')'')"

definition exists_path :: "faults \<Rightarrow> fs \<Rightarrow> path \<Rightarrow> bool" where
  "exists_path f fs p = (f_probe f p \<or> fs p \<noteq> None)"

function probe_numbered :: "(path \<Rightarrow> bool) \<Rightarrow> path \<Rightarrow> string \<Rightarrow> nat \<Rightarrow> path option" where
  "probe_numbered taken d n i = (if i < MAX_NAME_COLLISIONS
     then if taken (join d (numbered n i)) then probe_numbered taken d n (Suc i)
          else Some (join d (numbered n i))
     else None)"
  by pat_completeness auto
termination by (relation "measure (\<lambda>(_, _, _, i). MAX_NAME_COLLISIONS - i)") auto

declare probe_numbered.simps [simp del]

definition free_destination :: "faults \<Rightarrow> fs \<Rightarrow> path \<Rightarrow> string \<Rightarrow> path" where
  "free_destination f fs d n =
     (if \<not> exists_path f fs (join d n) then join d n
      else (case probe_numbered (exists_path f fs) d n 1 of Some p \<Rightarrow> p | None \<Rightarrow> join d n))"

section \<open>The staging engine\<close>

definition CHUNK_SIZE :: nat where "CHUNK_SIZE = 64 * 1024"
definition PAYLOAD_CHUNK_SIZE :: nat where "PAYLOAD_CHUNK_SIZE = 4096"
definition UNKNOWN_SIZE :: u64 where "UNKNOWN_SIZE = -1"

record transfer_meta =
  transfer_id :: string
  tm_device_id :: string
  file_name :: string
  file_size :: u64

record incoming_transfer =
  meta :: transfer_meta
  final_name :: string
  part_path :: path
  received :: u64

record engine =
  save_dir :: path
  eng_incoming :: "incoming_transfer table"

type_synonym 'a outcome = "(core_error + 'a) \<times> engine \<times> fs"

definition engine_new :: "path \<Rightarrow> engine" where
  "engine_new d = \<lparr>save_dir = d, eng_incoming = []\<rparr>"

definition start_receive :: "faults \<Rightarrow> transfer_meta \<Rightarrow> engine \<Rightarrow> fs \<Rightarrow> unit outcome" where
  "start_receive f m e fs =
     (if thas (transfer_id m) (eng_incoming e)
      then (Err (COther (''transfer '' @ [CHR 0x27] @ transfer_id m @ [CHR 0x27] @ '' already active'')), e, fs)
      else (case f_mkdir f of
          Some err \<Rightarrow> (Err (CIo (IoOther err)), e, fs)
        | None \<Rightarrow>
            let fname = sanitize_file_name (file_name m);
                part = join (save_dir e) (fname @ PART_SUFFIX)
            in (case f_open f of
                  Some err \<Rightarrow> (Err (CIo (IoOther err)), e, fs)
                | None \<Rightarrow>
                    if fs part \<noteq> None then (Err (CIo AlreadyExists), e, fs)
                    else (Ok (),
                          e\<lparr>eng_incoming := tput (transfer_id m)
                              \<lparr>meta = m, final_name = fname, part_path = part, received = 0\<rparr> (eng_incoming e)\<rparr>,
                          fs(part \<mapsto> [])))))"

definition write_chunk :: "faults \<Rightarrow> string \<Rightarrow> bytes \<Rightarrow> engine \<Rightarrow> fs \<Rightarrow> u64 outcome" where
  "write_chunk f tid data e fs =
     (if length data > CHUNK_SIZE
      then (Err (COther (''chunk of '' @ show_nat (length data) @ '' bytes exceeds CHUNK_SIZE ('' @
              show_nat CHUNK_SIZE @ '')'')), e, fs)
      else (case tget tid (eng_incoming e) of
          None \<Rightarrow> (Err (COther (''unknown transfer '' @ [CHR 0x27] @ tid @ [CHR 0x27])), e, fs)
        | Some t \<Rightarrow>
            let total_after = received t + of_nat (length data) in
            if total_after > file_size (meta t)
            then (Err (COther (''transfer '' @ [CHR 0x27] @ tid @ [CHR 0x27] @ '' overflows declared size: '' @
                    show_nat (unat (received t)) @ '' + '' @ show_nat (length data) @ '' > '' @
                    show_nat (unat (file_size (meta t))))), e, fs)
            else (case f_open f of
                Some err \<Rightarrow> (Err (CIo (IoOther err)), e, fs)
              | None \<Rightarrow> (case fs (part_path t) of
                    None \<Rightarrow> (Err (CIo NotFound), e, fs)
                  | Some old \<Rightarrow> (case f_write f of
                        Some (n, err) \<Rightarrow>
                          (Err (CIo (IoOther err)), e, fs(part_path t \<mapsto> old @ take n data))
                      | None \<Rightarrow> (case f_flush f of
                            Some err \<Rightarrow> (Err (CIo (IoOther err)), e, fs(part_path t \<mapsto> old @ data))
                          | None \<Rightarrow>
                              (Ok total_after,
                               e\<lparr>eng_incoming := tput tid (t\<lparr>received := total_after\<rparr>) (eng_incoming e)\<rparr>,
                               fs(part_path t \<mapsto> old @ data))))))))"

definition finish_receive :: "faults \<Rightarrow> string \<Rightarrow> engine \<Rightarrow> fs \<Rightarrow> path outcome" where
  "finish_receive f tid e fs =
     (case tget tid (eng_incoming e) of
        None \<Rightarrow> (Err (COther (''unknown transfer '' @ [CHR 0x27] @ tid @ [CHR 0x27])), e, fs)
      | Some t \<Rightarrow>
          if file_size (meta t) \<noteq> UNKNOWN_SIZE \<and> received t \<noteq> file_size (meta t)
          then (Err (COther (''transfer '' @ [CHR 0x27] @ tid @ [CHR 0x27] @ '' incomplete: '' @
                  show_nat (unat (received t)) @ ''/'' @ show_nat (unat (file_size (meta t))) @ '' bytes'')), e, fs)
          else let dest = free_destination f fs (save_dir e) (final_name t) in
            (case f_rename f of
               Some err \<Rightarrow> (Err (CIo (IoOther err)), e, fs)
             | None \<Rightarrow> (case fs (part_path t) of
                   None \<Rightarrow> (Err (CIo NotFound), e, fs)
                 | Some content \<Rightarrow>
                     (Ok dest, e\<lparr>eng_incoming := tdel tid (eng_incoming e)\<rparr>,
                      (fs(part_path t := None))(dest \<mapsto> content)))))"

definition abort :: "faults \<Rightarrow> string \<Rightarrow> engine \<Rightarrow> fs \<Rightarrow> unit outcome" where
  "abort f tid e fs =
     (case tget tid (eng_incoming e) of
        None \<Rightarrow> (Err (COther (''unknown transfer '' @ [CHR 0x27] @ tid @ [CHR 0x27])), e, fs)
      | Some t \<Rightarrow>
          let e' = e\<lparr>eng_incoming := tdel tid (eng_incoming e)\<rparr> in
          (case f_remove f of
             Some err \<Rightarrow> (Err (CIo (IoOther err)), e', fs)
           | None \<Rightarrow> (Ok (), e', fs(part_path t := None))))"

definition is_active :: "engine \<Rightarrow> string \<Rightarrow> bool" where
  "is_active e tid = thas tid (eng_incoming e)"

definition active_count :: "engine \<Rightarrow> nat" where
  "active_count e = length (eng_incoming e)"

text \<open>A file name that is one harmless component: it cannot leave a directory it is joined onto.\<close>

definition safe_char :: "char \<Rightarrow> bool" where
  "safe_char c = (\<not> is_separator c \<and> (of_char c :: nat) \<ge> 0x20 \<and> c \<noteq> CHR 0x7F \<and>
     c \<notin> {CHR ''<'', CHR ''>'', CHR '':'', CHR 0x22, CHR ''|'', CHR ''?'', CHR ''*''})"

definition safe_name :: "string \<Rightarrow> bool" where
  "safe_name n = (usable_segment n \<and> length n \<le> MAX_FILE_NAME_LEN \<and> list_all safe_char n)"

text \<open>
  What holds of an engine and its file system between operations: every active transfer has a
  staging file of its own, named after its sanitised file name, whose length is the number of bytes
  counted as received and does not exceed the declared size.
\<close>

definition transfer_ok :: "engine \<Rightarrow> fs \<Rightarrow> string \<Rightarrow> incoming_transfer \<Rightarrow> bool" where
  "transfer_ok e fs tid t =
     (transfer_id (meta t) = tid \<and> safe_name (final_name t) \<and>
      part_path t = join (save_dir e) (final_name t @ PART_SUFFIX) \<and>
      received t \<le> file_size (meta t) \<and>
      (case fs (part_path t) of None \<Rightarrow> False | Some c \<Rightarrow> length c = unat (received t)))"

definition engine_inv :: "engine \<Rightarrow> fs \<Rightarrow> bool" where
  "engine_inv e fs =
     (distinct (keys (eng_incoming e)) \<and>
      (\<forall>tid t. tget tid (eng_incoming e) = Some t \<longrightarrow> transfer_ok e fs tid t) \<and>
      (\<forall>i j s t. tget i (eng_incoming e) = Some s \<longrightarrow> tget j (eng_incoming e) = Some t \<longrightarrow>
         part_path s = part_path t \<longrightarrow> i = j))"

text \<open>Operations on one engine in the order the manager's lock serialises them.\<close>

datatype eng_op =
    OpStart transfer_meta
  | OpWrite string bytes
  | OpFinish string
  | OpAbort string

fun op_id :: "eng_op \<Rightarrow> string" where
  "op_id (OpStart m) = transfer_id m"
| "op_id (OpWrite tid _) = tid"
| "op_id (OpFinish tid) = tid"
| "op_id (OpAbort tid) = tid"

fun run_op :: "faults \<Rightarrow> eng_op \<Rightarrow> engine \<times> fs \<Rightarrow> engine \<times> fs" where
  "run_op f (OpStart m) (e, fs) = snd (start_receive f m e fs)"
| "run_op f (OpWrite tid d) (e, fs) = snd (write_chunk f tid d e fs)"
| "run_op f (OpFinish tid) (e, fs) = snd (finish_receive f tid e fs)"
| "run_op f (OpAbort tid) (e, fs) = snd (abort f tid e fs)"

text \<open>The bytes of the writes to one transfer that the engine accepted.\<close>

fun accepted :: "faults \<Rightarrow> string \<Rightarrow> eng_op list \<Rightarrow> engine \<times> fs \<Rightarrow> bytes" where
  "accepted f tid [] s = []"
| "accepted f tid (op # ops) s =
     (case op of
        OpWrite i d \<Rightarrow> if i = tid \<and> is_ok (fst (write_chunk f i d (fst s) (snd s))) then d else []
      | _ \<Rightarrow> []) @ accepted f tid ops (run_op f op s)"

text \<open>
  A run in which writes reach the disk whole, no file grows to \<open>2 ^ 64\<close> bytes, and every finished
  download finds an unused name.
\<close>

definition op_fits :: "faults \<Rightarrow> eng_op \<Rightarrow> engine \<times> fs \<Rightarrow> bool" where
  "op_fits f op s = (case s of (e, fs) \<Rightarrow> (case op of
       OpWrite tid d \<Rightarrow>
         (case tget tid (eng_incoming e) of None \<Rightarrow> True
          | Some t \<Rightarrow> unat (received t) + length d < 2 ^ 64)
     | OpFinish tid \<Rightarrow>
         (case tget tid (eng_incoming e) of None \<Rightarrow> True
          | Some t \<Rightarrow> fs (free_destination f fs (save_dir e) (final_name t)) = None)
     | _ \<Rightarrow> True))"

section \<open>Facts about file names\<close>

lemma set_split_by: "seg \<in> set (split_by p s) \<Longrightarrow> c \<in> set seg \<Longrightarrow> c \<in> set s \<and> \<not> p c"
proof (induction s arbitrary: seg)
  case (Cons a s)
  obtain x xs where x: "split_by p s = [] \<or> split_by p s = x # xs" by (metis list.exhaust)
  with Cons.IH [of x] Cons.IH [of seg] Cons.prems show ?case by (auto split: if_splits)
qed simp

lemma fold_pick:
  "fold (\<lambda>seg acc. if P seg then Some seg else acc) segs acc = Some x \<Longrightarrow>
     acc = Some x \<or> x \<in> set segs \<and> P x"
  by (induction segs arbitrary: acc) (auto split: if_splits)

lemma clean_char_safe: "\<not> is_separator c \<Longrightarrow> safe_char (clean_char c)"
  by (auto simp: safe_char_def clean_char_def is_separator_def)

lemma clean_char_id: "safe_char c \<Longrightarrow> clean_char c = c"
  by (auto simp: safe_char_def clean_char_def)

lemma MAX_FILE_NAME_LEN_pos [simp]: "MAX_FILE_NAME_LEN \<noteq> 0"
  by (simp add: MAX_FILE_NAME_LEN_def)

lemma safe_FALLBACK_NAME [simp]: "safe_name FALLBACK_NAME"
  by (simp add: safe_name_def FALLBACK_NAME_def usable_segment_def safe_char_def is_separator_def
      MAX_FILE_NAME_LEN_def)

text \<open>The component that is kept, cleaned and trimmed, still consists of safe characters only.\<close>

lemma sanitize_base_safe:
  assumes "base = (case fold (\<lambda>seg acc. if usable_segment seg then Some seg else acc)
             (split_by is_separator raw) None of None \<Rightarrow> FALLBACK_NAME | Some s \<Rightarrow> s)"
  shows "list_all safe_char (map clean_char base)"
proof -
  have "\<forall>c\<in>set base. \<not> is_separator c"
  proof (cases "fold (\<lambda>seg acc. if usable_segment seg then Some seg else acc)
                  (split_by is_separator raw) None")
    case None
    then show ?thesis using assms by (simp add: FALLBACK_NAME_def is_separator_def)
  next
    case (Some x)
    then have "base \<in> set (split_by is_separator raw)" using assms fold_pick [OF Some] by auto
    then show ?thesis by (auto dest: set_split_by)
  qed
  then show ?thesis by (auto simp: list_all_iff clean_char_safe)
qed

lemma dot_names_end_in_dot: "n = ''.'' \<or> n = ''..'' \<Longrightarrow> n \<noteq> [] \<and> last n = CHR ''.'' \<and> length n \<le> 2"
  by auto

lemma take_trimmed_usable:
  assumes t: "t = trim_end_with (\<lambda>c. c = CHR ''.'' \<or> c = CHR '' '') s" and ne: "take n t \<noteq> []" and n: "n > 2"
  shows "usable_segment (take n t)"
proof -
  have l: "last t \<noteq> CHR ''.''" if "t \<noteq> []"
    using last_trim_end_with [of "\<lambda>c. c = CHR ''.'' \<or> c = CHR '' ''" s] that t by auto
  have "take n t \<noteq> ''.'' \<and> take n t \<noteq> ''..''"
  proof (cases "length t \<le> n")
    case True
    then show ?thesis using l ne dot_names_end_in_dot [of t] by auto
  next
    case False
    then have "length (take n t) > 2" using n by simp
    then show ?thesis using dot_names_end_in_dot [of "take n t"] by linarith
  qed
  then show ?thesis using ne by (simp add: usable_segment_def)
qed

lemma sanitize_safe_name: "safe_name (sanitize_file_name raw)"
proof -
  define base where "base = (case fold (\<lambda>seg acc. if usable_segment seg then Some seg else acc)
             (split_by is_separator raw) None of None \<Rightarrow> FALLBACK_NAME | Some s \<Rightarrow> s)"
  define t where "t = trim_end_with (\<lambda>c. c = CHR ''.'' \<or> c = CHR '' '') (map clean_char base)"
  have s: "sanitize_file_name raw =
      (if take MAX_FILE_NAME_LEN t = [] then FALLBACK_NAME else take MAX_FILE_NAME_LEN t)"
    by (simp add: sanitize_file_name_def Let_def base_def t_def)
  have "list_all safe_char t"
    using sanitize_base_safe [OF base_def] set_trim_end_with by (fastforce simp: list_all_iff t_def)
  then have "list_all safe_char (take MAX_FILE_NAME_LEN t)"
    by (auto simp: list_all_iff dest: in_set_takeD)
  then have "safe_name (take MAX_FILE_NAME_LEN t)" if "take MAX_FILE_NAME_LEN t \<noteq> []"
    using take_trimmed_usable [OF t_def that]
    by (simp add: safe_name_def MAX_FILE_NAME_LEN_def)
  then show ?thesis unfolding s by (simp del: take_eq_Nil)
qed

lemma split_by_none: "\<forall>c\<in>set s. \<not> p c \<Longrightarrow> split_by p s = [s]"
  by (induction s) auto

lemma trim_end_with_id: "s \<noteq> [] \<Longrightarrow> \<not> p (last s) \<Longrightarrow> trim_end_with p s = s"
  by (simp add: trim_end_with_def) (metis dropWhile_eq_self_iff hd_rev rev_rev_ident)

lemma sanitize_safe_id:
  assumes "safe_name n" "last n \<noteq> CHR ''.''" "last n \<noteq> CHR '' ''"
  shows "sanitize_file_name n = n"
proof -
  have c: "safe_char c" if "c \<in> set n" for c
    using assms(1) that by (simp add: safe_name_def list_all_iff)
  have "n \<noteq> []" using assms(1) by (simp add: safe_name_def usable_segment_def)
  moreover have "map clean_char n = n" by (intro map_idI clean_char_id c)
  moreover have "split_by is_separator n = [n]"
    using c by (intro split_by_none) (simp add: safe_char_def)
  ultimately show ?thesis using assms
    by (simp add: sanitize_file_name_def safe_name_def trim_end_with_id)
qed

section \<open>Facts about the staging engine\<close>

lemma engine_invD:
  assumes "engine_inv e fs" "tget tid (eng_incoming e) = Some t"
  shows "transfer_ok e fs tid t"
  using assms by (simp add: engine_inv_def)

lemma transfer_okE:
  assumes "transfer_ok e fs tid t"
  obtains c where "fs (part_path t) = Some c" "length c = unat (received t)"
  using assms by (auto simp: transfer_ok_def split: option.splits)

lemma part_exists:
  "engine_inv e fs \<Longrightarrow> tget i (eng_incoming e) = Some s \<Longrightarrow> fs (part_path s) \<noteq> None"
  by (metis engine_invD transfer_okE option.distinct(1))

lemma part_path_neq:
  assumes "engine_inv e fs" "tget i (eng_incoming e) = Some s" "tget j (eng_incoming e) = Some t" "i \<noteq> j"
  shows "part_path s \<noteq> part_path t"
  using assms unfolding engine_inv_def by blast

lemma transfer_ok_update_other:
  "transfer_ok e fs tid t \<Longrightarrow> p \<noteq> part_path t \<Longrightarrow> transfer_ok e (fs(p := x)) tid t"
  unfolding transfer_ok_def by (elim conjE) simp

lemma transfer_ok_save_dir: "transfer_ok (e\<lparr>eng_incoming := x\<rparr>) = transfer_ok e"
  by (intro ext) (simp add: transfer_ok_def)

lemma engine_new_inv [simp]: "engine_inv (engine_new d) fs"
  by (simp add: engine_inv_def engine_new_def)

lemma start_receive_inv:
  assumes inv: "engine_inv e fs" and st: "start_receive f m e fs = (r, e', fs')"
  shows "engine_inv e' fs'"
proof (cases r)
  case (Inr u)
  define part where "part = join (save_dir e) (sanitize_file_name (file_name m) @ PART_SUFFIX)"
  define t where "t = \<lparr>meta = m, final_name = sanitize_file_name (file_name m), part_path = part, received = 0\<rparr>"
  from st Inr have new: "\<not> thas (transfer_id m) (eng_incoming e)" "fs part = None"
    and e': "e' = e\<lparr>eng_incoming := tput (transfer_id m) t (eng_incoming e)\<rparr>" "fs' = fs(part \<mapsto> [])"
    by (auto simp: start_receive_def Let_def part_def t_def split: if_splits option.splits)
  have other: "part_path s \<noteq> part" if "tget i (eng_incoming e) = Some s" for i s
    using part_exists [OF inv that] new by auto
  have "transfer_ok e fs' (transfer_id m) t"
    by (simp add: transfer_ok_def t_def e' part_def sanitize_safe_name)
  moreover have "transfer_ok e fs' i s" if "tget i (eng_incoming e) = Some s" for i s
    using transfer_ok_update_other [OF engine_invD [OF inv that]] other [OF that] e' by metis
  ultimately show ?thesis using inv other
    by (auto simp: engine_inv_def e'(1) transfer_ok_save_dir t_def)
qed (use assms in \<open>auto simp: start_receive_def Let_def split: if_splits option.splits\<close>)

lemma write_chunk_Ok:
  assumes "write_chunk f tid d e fs = (Ok n, e', fs')"
  obtains t old where "tget tid (eng_incoming e) = Some t" "fs (part_path t) = Some old"
    "n = received t + of_nat (length d)" "n \<le> file_size (meta t)" "length d \<le> CHUNK_SIZE"
    "e' = e\<lparr>eng_incoming := tput tid (t\<lparr>received := n\<rparr>) (eng_incoming e)\<rparr>"
    "fs' = fs(part_path t \<mapsto> old @ d)"
  using assms by (auto simp: write_chunk_def Let_def not_less split: if_splits option.splits prod.splits)

lemma write_chunk_Err:
  assumes "write_chunk f tid d e fs = (Err x, e', fs')" "f_write f = None" "f_flush f = None"
  shows "e' = e" "fs' = fs"
  using assms by (auto simp: write_chunk_def Let_def split: if_splits option.splits prod.splits)

lemma unat_add_len:
  assumes "unat (w :: u64) + n < 2 ^ 64"
  shows "unat (w + of_nat n) = unat w + n"
  using assms by (simp add: unat_word_ariths unat_of_nat)

lemma write_chunk_inv:
  assumes inv: "engine_inv e fs" and wr: "write_chunk f tid d e fs = (r, e', fs')"
    and nf: "f_write f = None" "f_flush f = None" and fits: "op_fits f (OpWrite tid d) (e, fs)"
  shows "engine_inv e' fs'"
proof (cases r)
  case (Inl x)
  then show ?thesis using inv write_chunk_Err [OF wr [unfolded Inl] nf] by simp
next
  case (Inr n)
  obtain t old where t: "tget tid (eng_incoming e) = Some t" "fs (part_path t) = Some old"
    "n = received t + of_nat (length d)" "n \<le> file_size (meta t)"
    "e' = e\<lparr>eng_incoming := tput tid (t\<lparr>received := n\<rparr>) (eng_incoming e)\<rparr>"
    "fs' = fs(part_path t \<mapsto> old @ d)" using write_chunk_Ok [OF wr [unfolded Inr]] by metis
  have ok: "transfer_ok e fs tid t" by (rule engine_invD [OF inv t(1)])
  have "unat (received t) + length d < 2 ^ 64" using fits t(1) by (simp add: op_fits_def)
  then have "transfer_ok e fs' tid (t\<lparr>received := n\<rparr>)"
    using ok t by (simp add: transfer_ok_def unat_add_len)
  moreover have "transfer_ok e fs' i s" if "tget i (eng_incoming e) = Some s" "i \<noteq> tid" for i s
    using transfer_ok_update_other [OF engine_invD [OF inv that(1)]] part_path_neq [OF inv that(1) t(1) that(2)] t(6)
    by metis
  ultimately show ?thesis using inv t(1)
    by (auto simp: engine_inv_def t(5) transfer_ok_save_dir split: if_splits)
qed

lemma finish_receive_Ok:
  assumes "finish_receive f tid e fs = (Ok dest, e', fs')"
  obtains t content where "tget tid (eng_incoming e) = Some t" "fs (part_path t) = Some content"
    "file_size (meta t) = UNKNOWN_SIZE \<or> received t = file_size (meta t)"
    "dest = free_destination f fs (save_dir e) (final_name t)"
    "e' = e\<lparr>eng_incoming := tdel tid (eng_incoming e)\<rparr>"
    "fs' = (fs(part_path t := None))(dest \<mapsto> content)"
  using assms by (auto simp: finish_receive_def Let_def split: if_splits option.splits)

lemma finish_receive_Err:
  "finish_receive f tid e fs = (Err x, e', fs') \<Longrightarrow> e' = e \<and> fs' = fs"
  by (auto simp: finish_receive_def Let_def split: if_splits option.splits)

lemma removed_inv:
  assumes inv: "engine_inv e fs"
    and keep: "\<And>i s. i \<noteq> tid \<Longrightarrow> tget i (eng_incoming e) = Some s \<Longrightarrow> fs' (part_path s) = fs (part_path s)"
  shows "engine_inv (e\<lparr>eng_incoming := tdel tid (eng_incoming e)\<rparr>) fs'"
proof -
  have "transfer_ok e fs' i s" if "i \<noteq> tid" "tget i (eng_incoming e) = Some s" for i s
    using engine_invD [OF inv that(2)] keep [OF that] unfolding transfer_ok_def by (elim conjE) simp
  then show ?thesis using inv
    by (auto simp: engine_inv_def transfer_ok_save_dir split: if_splits)
qed

lemma finish_keeps_parts:
  assumes inv: "engine_inv e fs" and t: "tget tid (eng_incoming e) = Some t"
    and free: "fs dest = None" and i: "i \<noteq> tid" "tget i (eng_incoming e) = Some s"
  shows "((fs(part_path t := None))(dest \<mapsto> content)) (part_path s) = fs (part_path s)"
  using part_path_neq [OF inv i(2) t i(1)] part_exists [OF inv i(2)] free by (auto simp: fun_upd_def)

lemma finish_receive_inv:
  assumes inv: "engine_inv e fs" and fin: "finish_receive f tid e fs = (r, e', fs')"
    and fits: "op_fits f (OpFinish tid) (e, fs)"
  shows "engine_inv e' fs'"
proof (cases r)
  case (Inl x)
  then show ?thesis using inv finish_receive_Err fin by metis
next
  case (Inr dest)
  obtain t content where t: "tget tid (eng_incoming e) = Some t"
    and d: "dest = free_destination f fs (save_dir e) (final_name t)"
    and e': "e' = e\<lparr>eng_incoming := tdel tid (eng_incoming e)\<rparr>"
    and fs': "fs' = (fs(part_path t := None))(dest \<mapsto> content)"
    using finish_receive_Ok [OF fin [unfolded Inr]] by metis
  have "fs dest = None" using fits t d by (simp add: op_fits_def)
  from finish_keeps_parts [OF inv t this] show ?thesis
    unfolding e' fs' by (rule removed_inv [OF inv])
qed

lemma abort_inv:
  assumes inv: "engine_inv e fs" and ab: "abort f tid e fs = (r, e', fs')"
  shows "engine_inv e' fs'"
proof (cases "tget tid (eng_incoming e)")
  case (Some t)
  have "fs' (part_path s) = fs (part_path s)" if "i \<noteq> tid" "tget i (eng_incoming e) = Some s" for i s
    using part_path_neq [OF inv that(2) Some that(1)] ab Some
    by (auto simp: abort_def Let_def split: option.splits)
  moreover have "e' = e\<lparr>eng_incoming := tdel tid (eng_incoming e)\<rparr>"
    using ab Some by (auto simp: abort_def Let_def split: option.splits)
  ultimately show ?thesis using removed_inv [OF inv] by simp
qed (use assms in \<open>auto simp: abort_def\<close>)

lemma run_op_inv:
  assumes inv: "engine_inv e fs" and nf: "f_write f = None" "f_flush f = None"
    and fits: "op_fits f op (e, fs)" and run: "run_op f op (e, fs) = (e', fs')"
  shows "engine_inv e' fs'"
proof (cases op)
  case (OpStart m)
  then show ?thesis using run start_receive_inv [OF inv] by (metis run_op.simps(1) prod.collapse)
next
  case (OpWrite tid d)
  then show ?thesis using run write_chunk_inv [OF inv _ nf] fits by (metis run_op.simps(2) prod.collapse)
next
  case (OpFinish tid)
  then show ?thesis using run finish_receive_inv [OF inv] fits by (metis run_op.simps(3) prod.collapse)
next
  case (OpAbort tid)
  then show ?thesis using run abort_inv [OF inv] by (metis run_op.simps(4) prod.collapse)
qed

text \<open>Operations on other transfers leave a transfer and its staging file alone.\<close>

lemma run_op_isolation:
  assumes inv: "engine_inv e fs" and nf: "f_write f = None" "f_flush f = None"
    and fits: "op_fits f op (e, fs)" and run: "run_op f op (e, fs) = (e', fs')"
    and t: "tget tid (eng_incoming e) = Some t" and other: "op_id op \<noteq> tid"
  shows "tget tid (eng_incoming e') = Some t" "fs' (part_path t) = fs (part_path t)"
proof -
  have "tget tid (eng_incoming e') = Some t \<and> fs' (part_path t) = fs (part_path t)"
  proof (cases op)
    case (OpStart m)
    then show ?thesis using run t other part_exists [OF inv t]
      by (auto simp: start_receive_def Let_def split: if_splits option.splits)
  next
    case (OpWrite i d)
    then obtain r where r: "write_chunk f i d e fs = (r, e', fs')" using run by (metis run_op.simps(2) prod.collapse)
    show ?thesis
    proof (cases r)
      case (Inl x)
      then show ?thesis using write_chunk_Err [OF r [unfolded Inl] nf] t by simp
    next
      case (Inr n)
      from r [unfolded Inr] show ?thesis
        by (rule write_chunk_Ok) (use t other OpWrite part_path_neq [OF inv t] in auto)
    qed
  next
    case (OpFinish i)
    then obtain r where r: "finish_receive f i e fs = (r, e', fs')" using run by (metis run_op.simps(3) prod.collapse)
    show ?thesis
    proof (cases r)
      case (Inl x)
      then show ?thesis using finish_receive_Err r t by metis
    next
      case (Inr dest)
      from r [unfolded Inr] show ?thesis
        by (rule finish_receive_Ok)
           (use t other OpFinish fits finish_keeps_parts [OF inv _ _ _ t] in \<open>auto simp: op_fits_def\<close>)
    qed
  next
    case (OpAbort i)
    then show ?thesis using run t other part_path_neq [OF inv t]
      by (auto simp: abort_def Let_def split: option.splits)
  qed
  then show "tget tid (eng_incoming e') = Some t" "fs' (part_path t) = fs (part_path t)" by simp_all
qed

interpretation eng: guarded_system "run_op f"
  "\<lambda>op s. f_write f = None \<and> f_flush f = None \<and> op_fits f op s" "\<lambda>s. engine_inv (fst s) (snd s)" for f
  by unfold_locales (metis run_op_inv prod.collapse)

text \<open>One write to a transfer appends exactly the bytes that were accepted.\<close>

lemma run_write_content:
  assumes inv: "engine_inv e fs" and nf: "f_write f = None" "f_flush f = None"
    and run: "run_op f (OpWrite tid d) (e, fs) = (e', fs')"
    and t: "tget tid (eng_incoming e) = Some t" "fs (part_path t) = Some c"
  shows "\<exists>n. tget tid (eng_incoming e') = Some (t\<lparr>received := n\<rparr>) \<and>
    fs' (part_path t) = Some (c @ (if is_ok (fst (write_chunk f tid d e fs)) then d else []))"
proof -
  obtain r where r: "write_chunk f tid d e fs = (r, e', fs')"
    using run by (metis run_op.simps(2) prod.collapse)
  show ?thesis
  proof (cases r)
    case (Inl x)
    then show ?thesis using write_chunk_Err [OF r [unfolded Inl] nf] t r
      by (intro exI [of _ "received t"]) simp
  next
    case (Inr n)
    from r [unfolded Inr] show ?thesis by (rule write_chunk_Ok) (use t r Inr in auto)
  qed
qed

lemma run_ops_content:
  assumes "engine_inv e fs" and nf: "f_write f = None" "f_flush f = None"
    and "guarded (run_op f) (op_fits f) ops (e, fs)"
    and "tget tid (eng_incoming e) = Some t" "fs (part_path t) = Some c"
    and "\<forall>op\<in>set ops. op_id op = tid \<longrightarrow> (\<exists>d. op = OpWrite tid d)"
    and "fold (run_op f) ops (e, fs) = (e', fs')"
  shows "\<exists>n. tget tid (eng_incoming e') = Some (t\<lparr>received := n\<rparr>) \<and> engine_inv e' fs' \<and>
    fs' (part_path t) = Some (c @ accepted f tid ops (e, fs))"
  using assms(1,4-)
proof (induction ops arbitrary: e fs t c)
  case Nil
  then show ?case by (auto intro!: exI [of _ "received t"])
next
  case (Cons op ops)
  obtain e1 fs1 where s1: "run_op f op (e, fs) = (e1, fs1)" by fastforce
  have fits: "op_fits f op (e, fs)" "guarded (run_op f) (op_fits f) ops (e1, fs1)"
    using Cons.prems s1 by simp_all
  have inv1: "engine_inv e1 fs1" by (rule run_op_inv [OF Cons.prems(1) nf fits(1) s1])
  have fold1: "fold (run_op f) ops (e1, fs1) = (e', fs')" using Cons.prems s1 by simp
  show ?case
  proof (cases "op_id op = tid")
    case True
    then obtain d where op: "op = OpWrite tid d" using Cons.prems by auto
    from run_write_content [OF Cons.prems(1) nf s1 [unfolded op] Cons.prems(3,4)] obtain n where n:
      "tget tid (eng_incoming e1) = Some (t\<lparr>received := n\<rparr>)"
      "fs1 (part_path t) = Some (c @ (if is_ok (fst (write_chunk f tid d e fs)) then d else []))" by blast
    from Cons.IH [OF inv1 fits(2) n(1) _ _ fold1] n(2) Cons.prems(5) s1 op show ?thesis by auto
  next
    case False
    note iso = run_op_isolation [OF Cons.prems(1) nf fits(1) s1 Cons.prems(3) False]
    have "accepted f tid (op # ops) (e, fs) = accepted f tid ops (e1, fs1)"
      using False s1 by (cases op) auto
    with Cons.IH [OF inv1 fits(2) iso(1) _ _ fold1] iso(2) Cons.prems(4,5) show ?thesis by auto
  qed
qed

section \<open>Facts about destinations\<close>

lemma probe_numbered_Some:
  "probe_numbered taken d n i = Some p \<Longrightarrow>
     \<not> taken p \<and> (\<exists>j. i \<le> j \<and> j < MAX_NAME_COLLISIONS \<and> p = join d (numbered n j))"
proof (induction taken d n i rule: probe_numbered.induct)
  case (1 taken d n i)
  then show ?case
    by (cases "i < MAX_NAME_COLLISIONS"; cases "taken (join d (numbered n i))")
       (auto simp: probe_numbered.simps [of taken d n i] intro: Suc_leD)
qed

lemma probe_numbered_None:
  "probe_numbered taken d n i = None \<longleftrightarrow>
     (\<forall>j. i \<le> j \<longrightarrow> j < MAX_NAME_COLLISIONS \<longrightarrow> taken (join d (numbered n j)))"
proof (induction taken d n i rule: probe_numbered.induct)
  case (1 taken d n i)
  have "i \<le> j \<longleftrightarrow> i = j \<or> Suc i \<le> j" for j by auto
  with 1 show ?case
    by (cases "i < MAX_NAME_COLLISIONS"; cases "taken (join d (numbered n i))")
       (auto simp: probe_numbered.simps [of taken d n i] simp del: not_less_eq_eq Suc_le_eq)
qed

lemma free_destination_free:
  assumes "\<not> exists_path f fs (join d n) \<or>
    (\<exists>i\<ge>1. i < MAX_NAME_COLLISIONS \<and> \<not> exists_path f fs (join d (numbered n i)))"
  shows "fs (free_destination f fs d n) = None"
proof -
  have "\<not> exists_path f fs (free_destination f fs d n)"
    using assms probe_numbered_Some [of "exists_path f fs" d n 1]
      probe_numbered_None [of "exists_path f fs" d n 1]
    by (auto simp: free_destination_def split: option.splits)
  then show ?thesis by (simp add: exists_path_def)
qed

text \<open>With every numbered name taken, the code falls back to the plain name, which is taken too.\<close>

lemma free_destination_exhausted:
  assumes "exists_path f fs (join d n)"
    "\<forall>i\<ge>1. i < MAX_NAME_COLLISIONS \<longrightarrow> exists_path f fs (join d (numbered n i))"
  shows "free_destination f fs d n = join d n"
  using assms probe_numbered_None [of "exists_path f fs" d n 1]
  by (simp add: free_destination_def)

lemma join_safe: "safe_name n \<Longrightarrow> join d (n @ t) \<in> {d @ n @ t, d @ ''/'' @ n @ t}"
  by (cases n) (auto simp: join_def safe_name_def usable_segment_def safe_char_def is_separator_def)

section \<open>Properties\<close>

text \<open>C12. Whatever name a peer sends, the name kept on disk is one path component of at most 240
  characters, neither empty nor a dot name, without separators, control characters or the
  characters other systems forbid; so the destination and the staging file are direct children of
  the directory they are joined onto.\<close>

theorem sanitized_name_stays_in_directory:
  "safe_name (sanitize_file_name raw) \<and>
   join d (sanitize_file_name raw) \<in> {d @ sanitize_file_name raw, d @ ''/'' @ sanitize_file_name raw} \<and>
   join d (sanitize_file_name raw @ PART_SUFFIX) \<in>
     {d @ sanitize_file_name raw @ PART_SUFFIX, d @ ''/'' @ sanitize_file_name raw @ PART_SUFFIX}"
  using sanitize_safe_name [of raw] join_safe [of "sanitize_file_name raw" d "[]"]
    join_safe [of "sanitize_file_name raw" d PART_SUFFIX] by simp

text \<open>C9. A download is exactly the bytes accepted for it: when a transfer is started, any sequence of
  operations of other transfers is interleaved with its own writes, and it is finished, then the
  file under the returned name holds the accepted chunks in order and nothing else, its length is
  the declared size unless that was unknown, and the transfer is no longer active.\<close>

theorem staged_download_exact:
  assumes "engine_inv e fs" and "f_write f = None" "f_flush f = None"
    and "start_receive f m e fs = (Ok (), e1, fs1)"
    and "guarded (run_op f) (op_fits f) ops (e1, fs1)"
    and "\<forall>op\<in>set ops. op_id op = transfer_id m \<longrightarrow> (\<exists>d. op = OpWrite (transfer_id m) d)"
    and "fold (run_op f) ops (e1, fs1) = (e2, fs2)"
    and "finish_receive f (transfer_id m) e2 fs2 = (Ok dest, e3, fs3)"
  shows "fs3 dest = Some (accepted f (transfer_id m) ops (e1, fs1)) \<and>
    (file_size m = UNKNOWN_SIZE \<or>
     length (accepted f (transfer_id m) ops (e1, fs1)) = unat (file_size m)) \<and>
    \<not> is_active e3 (transfer_id m)"
proof -
  define part where "part = join (save_dir e) (sanitize_file_name (file_name m) @ PART_SUFFIX)"
  define t where "t = \<lparr>meta = m, final_name = sanitize_file_name (file_name m), part_path = part, received = 0\<rparr>"
  have t: "tget (transfer_id m) (eng_incoming e1) = Some t" "fs1 (part_path t) = Some []"
    using assms(4) by (auto simp: start_receive_def Let_def part_def t_def split: if_splits option.splits)
  obtain n where n: "tget (transfer_id m) (eng_incoming e2) = Some (t\<lparr>received := n\<rparr>)" "engine_inv e2 fs2"
    "fs2 (part_path t) = Some (accepted f (transfer_id m) ops (e1, fs1))"
    using run_ops_content [OF start_receive_inv [OF assms(1,4)] assms(2,3,5) t assms(6,7)] by auto
  have "length (accepted f (transfer_id m) ops (e1, fs1)) = unat n"
    by (rule transfer_okE [OF engine_invD [OF n(2,1)]]) (use n(3) in simp)
  then show ?thesis
    using assms(8) n by (auto simp: finish_receive_def Let_def t_def is_active_def split: if_splits option.splits)
qed

definition demo_meta :: transfer_meta where
  "demo_meta = \<lparr>transfer_id = ''t1'', tm_device_id = ''d'', file_name = ''../a.txt'', file_size = 3\<rparr>"

definition demo_other :: transfer_meta where
  "demo_other = \<lparr>transfer_id = ''t2'', tm_device_id = ''d'', file_name = ''b'', file_size = UNKNOWN_SIZE\<rparr>"

lemmas engine_eval =
  start_receive_def write_chunk_def finish_receive_def abort_def free_destination_def exists_path_def
  no_faults_def engine_new_def sanitize_file_name_def is_separator_def
  usable_segment_def clean_char_def trim_end_with_def MAX_FILE_NAME_LEN_def PART_SUFFIX_def
  FALLBACK_NAME_def CHUNK_SIZE_def UNKNOWN_SIZE_def join_def is_active_def op_fits_def tput_def tdel_def
  thas_def Let_def

definition demo_s1 :: "engine \<times> fs" where
  "demo_s1 = (\<lparr>save_dir = ''/s'', eng_incoming = [(''t1'',
       \<lparr>meta = demo_meta, final_name = ''a.txt'', part_path = ''/s/a.txt.handfast-part'', received = 0\<rparr>)]\<rparr>,
     [''/s/a.txt.handfast-part'' \<mapsto> []])"

definition demo_ops :: "eng_op list" where
  "demo_ops = [OpStart demo_other, OpWrite ''t1'' [1, 2], OpWrite ''t2'' [9], OpWrite ''t1'' [7, 7],
     OpWrite ''t1'' [3]]"

lemma demo_start: "start_receive no_faults demo_meta (engine_new ''/s'') Map.empty = (Ok (), demo_s1)"
  by (simp add: engine_eval demo_meta_def demo_s1_def)

lemma demo_guarded: "guarded (run_op no_faults) (op_fits no_faults) demo_ops demo_s1"
  by (simp add: engine_eval demo_meta_def demo_other_def demo_s1_def demo_ops_def)

lemma demo_accepted: "accepted no_faults ''t1'' demo_ops demo_s1 = [1, 2, 3]"
  by (simp add: engine_eval demo_meta_def demo_other_def demo_s1_def demo_ops_def)

lemma demo_finish:
  "fst (finish_receive no_faults ''t1'' (fst (fold (run_op no_faults) demo_ops demo_s1))
     (snd (fold (run_op no_faults) demo_ops demo_s1))) = Ok ''/s/a.txt''"
  by (simp add: engine_eval demo_meta_def demo_other_def demo_s1_def demo_ops_def)

theorem staged_download_exact_witness:
  "\<exists>e3 fs3. finish_receive no_faults ''t1'' (fst (fold (run_op no_faults) demo_ops demo_s1))
       (snd (fold (run_op no_faults) demo_ops demo_s1)) = (Ok ''/s/a.txt'', e3, fs3) \<and>
     fs3 ''/s/a.txt'' = Some [1, 2, 3]"
proof -
  obtain e3 fs3 where fin: "finish_receive no_faults ''t1'' (fst (fold (run_op no_faults) demo_ops demo_s1))
       (snd (fold (run_op no_faults) demo_ops demo_s1)) = (Ok ''/s/a.txt'', e3, fs3)"
    using demo_finish by (metis prod.collapse)
  have t1: "transfer_id demo_meta = ''t1''" by (simp add: demo_meta_def)
  have own: "\<forall>op\<in>set demo_ops. op_id op = transfer_id demo_meta \<longrightarrow> (\<exists>d. op = OpWrite (transfer_id demo_meta) d)"
    by (simp add: demo_ops_def demo_meta_def demo_other_def)
  have "fs3 ''/s/a.txt'' = Some (accepted no_faults (transfer_id demo_meta) demo_ops (fst demo_s1, snd demo_s1))"
    using staged_download_exact [of "engine_new ''/s''" Map.empty no_faults demo_meta
        "fst demo_s1" "snd demo_s1" demo_ops "fst (fold (run_op no_faults) demo_ops demo_s1)"
        "snd (fold (run_op no_faults) demo_ops demo_s1)" "''/s/a.txt''" e3 fs3]
      demo_start demo_guarded own fin by (simp add: t1) (simp add: no_faults_def)
  then show ?thesis using fin by (simp add: t1 demo_accepted)
qed



text \<open>Finishing a download never overwrites a file while one of the plain and the numbered names is
  unused: the destination did not exist before, the staged bytes are moved there, and every other
  file keeps its contents.\<close>

lemma finish_never_overwrites:
  assumes "finish_receive f tid e fs = (Ok dest, e', fs')"
    and "tget tid (eng_incoming e) = Some t"
    and "\<not> exists_path f fs (join (save_dir e) (final_name t)) \<or>
      (\<exists>i\<ge>1. i < MAX_NAME_COLLISIONS \<and> \<not> exists_path f fs (join (save_dir e) (numbered (final_name t) i)))"
  shows "fs dest = None \<and> fs' dest = fs (part_path t) \<and> fs (part_path t) \<noteq> None \<and>
    (\<forall>p. p \<noteq> dest \<longrightarrow> p \<noteq> part_path t \<longrightarrow> fs' p = fs p)"
proof -
  have "fs (free_destination f fs (save_dir e) (final_name t)) = None"
    by (rule free_destination_free [OF assms(3)])
  with assms(1,2) show ?thesis
    by (auto simp: finish_receive_def Let_def split: if_splits option.splits)
qed

definition demo_busy :: fs where
  "demo_busy = [''/s/a.txt.handfast-part'' \<mapsto> [5], ''/s/a.txt'' \<mapsto> [1]]"

definition demo_active :: incoming_transfer where
  "demo_active = \<lparr>meta = demo_meta\<lparr>file_size := 1\<rparr>, final_name = ''a.txt'',
     part_path = ''/s/a.txt.handfast-part'', received = 1\<rparr>"

end
