(* ===== verification/Hf_Store.thy ===== *)
theory Hf_Store
  imports Hf_Transfer
begin

text \<open>
  Persistent state, \<^verbatim>\<open>core/src/store.rs\<close>: the device registry and the key/value table, and crash-safe
  file replacement.  The two SQL tables are association lists on their primary keys; a fault
  argument is the error SQLite reports instead of running the statement.  \<^verbatim>\<open>atomic_write\<close> is given
  as the sequence of file system states it goes through, so that a crash can be placed anywhere.
\<close>

section \<open>Definitions\<close>

record device_row =
  row_device_id :: string
  row_name :: string
  row_device_type :: string
  cert_fingerprint :: string
  paired :: bool
  last_seen :: "int option"

record store =
  devices_tbl :: "device_row table"
  kv_tbl :: "string table"

definition store_empty :: store where
  "store_empty = \<lparr>devices_tbl = [], kv_tbl = []\<rparr>"

definition list_devices :: "string option \<Rightarrow> store \<Rightarrow> core_error + device_row list" where
  "list_devices fault s = (case fault of
       Some err \<Rightarrow> Err (CSqlite err)
     | None \<Rightarrow> Ok (map snd (sort_key fst (devices_tbl s))))"

definition upsert_device :: "string option \<Rightarrow> device_row \<Rightarrow> store \<Rightarrow> (core_error + unit) \<times> store" where
  "upsert_device fault d s = (case fault of
       Some err \<Rightarrow> (Err (CSqlite err), s)
     | None \<Rightarrow> (Ok (), s\<lparr>devices_tbl := tput (row_device_id d) d (devices_tbl s)\<rparr>))"

definition delete_device :: "string option \<Rightarrow> string \<Rightarrow> store \<Rightarrow> (core_error + unit) \<times> store" where
  "delete_device fault i s = (case fault of
       Some err \<Rightarrow> (Err (CSqlite err), s)
     | None \<Rightarrow> (Ok (), s\<lparr>devices_tbl := tdel i (devices_tbl s)\<rparr>))"

definition kv_get :: "string option \<Rightarrow> string \<Rightarrow> store \<Rightarrow> core_error + string option" where
  "kv_get fault k s = (case fault of
       Some err \<Rightarrow> Err (CSqlite err)
     | None \<Rightarrow> Ok (tget k (kv_tbl s)))"

definition kv_set :: "string option \<Rightarrow> string \<Rightarrow> string \<Rightarrow> store \<Rightarrow> (core_error + unit) \<times> store" where
  "kv_set fault k v s = (case fault of
       Some err \<Rightarrow> (Err (CSqlite err), s)
     | None \<Rightarrow> (Ok (), s\<lparr>kv_tbl := tput k v (kv_tbl s)\<rparr>))"

text \<open>\<^verbatim>\<open>Path::parent\<close> and \<^verbatim>\<open>Path::file_name\<close> of a path without trailing separator.\<close>

definition path_name :: "path \<Rightarrow> string" where
  "path_name p = rev (takeWhile (\<lambda>c. c \<noteq> CHR ''/'') (rev p))"

definition path_parent :: "path \<Rightarrow> path" where
  "path_parent p = (let d = take (length p - length (path_name p) - 1) p in
     if d = [] \<and> p \<noteq> [] \<and> hd p = CHR ''/'' then ''/'' else d)"

definition tmp_sibling :: "string \<Rightarrow> path \<Rightarrow> path" where
  "tmp_sibling uuid p =
     (let parent = (if path_parent p = [] then ''.'' else path_parent p);
          fname = (if path_name p = [] then ''blob'' else path_name p)
      in join parent (''.'' @ fname @ ''.tmp-'' @ uuid))"

text \<open>
  The write goes through these states in order; a fault at a step ends the attempt, and the
  temporary file is then removed.
\<close>

definition atomic_write :: "faults \<Rightarrow> string \<Rightarrow> path \<Rightarrow> bytes \<Rightarrow> fs \<Rightarrow> (core_error + unit) \<times> fs list" where
  "atomic_write f uuid p data fs =
     (let tmp = tmp_sibling uuid p in
      (case f_open f of
         Some err \<Rightarrow> (Err (CIo (IoOther err)), [fs, fs(tmp := None)])
       | None \<Rightarrow>
           let fs1 = fs(tmp \<mapsto> []) in
           (case f_write f of
              Some (n, err) \<Rightarrow>
                (Err (CIo (IoOther err)), [fs, fs1, fs1(tmp \<mapsto> take n data), fs1(tmp := None)])
            | None \<Rightarrow>
                let fs2 = fs1(tmp \<mapsto> data) in
                (case f_flush f of
                   Some err \<Rightarrow> (Err (CIo (IoOther err)), [fs, fs1, fs2, fs2(tmp := None)])
                 | None \<Rightarrow> (case f_rename f of
                     Some err \<Rightarrow> (Err (CIo (IoOther err)), [fs, fs1, fs2, fs2(tmp := None)])
                   | None \<Rightarrow> (Ok (), [fs, fs1, fs2, (fs2(tmp := None))(p \<mapsto> data)]))))))"

definition store_wf :: "store \<Rightarrow> bool" where
  "store_wf s = (distinct (keys (devices_tbl s)) \<and> distinct (keys (kv_tbl s)) \<and>
     list_all (\<lambda>(i, r). row_device_id r = i) (devices_tbl s))"

definition row_of :: "store \<Rightarrow> string \<Rightarrow> device_row option" where
  "row_of s i = tget i (devices_tbl s)"

type_synonym row_values = "string \<times> string \<times> string \<times> bool \<times> int option"

definition row_vals :: "device_row \<Rightarrow> row_values" where
  "row_vals r = (row_name r, row_device_type r, cert_fingerprint r, paired r, last_seen r)"

definition mk_row :: "string \<Rightarrow> row_values \<Rightarrow> device_row" where
  "mk_row i v = (case v of (n, t, f, p, l) \<Rightarrow>
     \<lparr>row_device_id = i, row_name = n, row_device_type = t, cert_fingerprint = f, paired = p, last_seen = l\<rparr>)"

section \<open>The contract of a keyed table\<close>

locale keyed_table =
  fixes lookup :: "'s \<Rightarrow> string \<Rightarrow> 'v option"
    and put :: "string \<Rightarrow> 'v \<Rightarrow> 's \<Rightarrow> 's"
  assumes lookup_put: "lookup (put k v s) i = (if i = k then Some v else lookup s i)"
begin

text \<open>After a sequence of writes a key holds the last value written to it.\<close>

lemma lookup_puts:
  "lookup (fold (\<lambda>(k, v). put k v) kvs s) i =
     (case map_of (rev kvs) i of Some v \<Rightarrow> Some v | None \<Rightarrow> lookup s i)"
  by (induction kvs arbitrary: s) (auto simp: lookup_put map_add_def split: option.splits)

lemma put_other: "i \<noteq> k \<Longrightarrow> lookup (put k v s) i = lookup s i"
  by (simp add: lookup_put)

end

interpretation kv: keyed_table "\<lambda>s i. tget i (kv_tbl s)" "\<lambda>k v s. snd (kv_set None k v s)"
  by unfold_locales (simp add: kv_set_def)

interpretation reg: keyed_table "\<lambda>s i. map_option row_vals (row_of s i)"
  "\<lambda>i v s. snd (upsert_device None (mk_row i v) s)"
  by unfold_locales (simp add: upsert_device_def row_of_def mk_row_def row_vals_def split: prod.splits)

section \<open>Facts\<close>

lemma store_wf_empty [simp]: "store_wf store_empty"
  by (simp add: store_wf_def store_empty_def)

lemma row_of_id: "store_wf s \<Longrightarrow> row_of s i = Some r \<Longrightarrow> row_device_id r = i"
  by (auto simp: store_wf_def row_of_def list_all_iff tget_def dest: map_of_SomeD)

lemma row_of_upsert [simp]:
  "row_of (snd (upsert_device None d s)) i = (if i = row_device_id d then Some d else row_of s i)"
  by (simp add: row_of_def upsert_device_def)

lemma row_of_delete [simp]:
  "row_of (snd (delete_device None d s)) i = (if i = d then None else row_of s i)"
  by (simp add: row_of_def delete_device_def)

lemma row_of_kv_set [simp]: "row_of (snd (kv_set f k v s)) = row_of s"
  by (intro ext) (simp add: row_of_def kv_set_def split: option.splits)

lemma list_all_rows: "distinct (keys t) \<Longrightarrow> list_all (\<lambda>(i, r). P i r) t \<longleftrightarrow> (\<forall>i r. tget i t = Some r \<longrightarrow> P i r)"
  by (auto simp: list_all_iff tget_def)

lemma store_wf_iff: "store_wf s \<longleftrightarrow> distinct (keys (devices_tbl s)) \<and> distinct (keys (kv_tbl s)) \<and>
    (\<forall>i r. row_of s i = Some r \<longrightarrow> row_device_id r = i)"
  by (auto simp: store_wf_def row_of_def list_all_rows)

lemma store_wf_ops [simp]:
  "store_wf s \<Longrightarrow> store_wf (snd (upsert_device f d s))"
  "store_wf s \<Longrightarrow> store_wf (snd (delete_device f i s))"
  "store_wf s \<Longrightarrow> store_wf (snd (kv_set f k v s))"
  by (auto simp: store_wf_iff upsert_device_def delete_device_def kv_set_def row_of_def
      split: option.splits if_splits)

lemma set_list_devices:
  assumes "store_wf s"
  shows "set (map snd (sort_key fst (devices_tbl s))) = {r. row_of s (row_device_id r) = Some r}"
proof -
  have mem: "(i, r) \<in> set (devices_tbl s) \<longleftrightarrow> row_of s i = Some r" for i r
    using assms by (simp add: store_wf_def row_of_def tget_set)
  have "r \<in> snd ` set (devices_tbl s) \<longleftrightarrow> row_of s (row_device_id r) = Some r" for r
  proof
    assume "r \<in> snd ` set (devices_tbl s)"
    then obtain i where "row_of s i = Some r" using mem by auto
    with row_of_id [OF assms this] show "row_of s (row_device_id r) = Some r" by simp
  next
    assume "row_of s (row_device_id r) = Some r"
    then show "r \<in> snd ` set (devices_tbl s)" using mem by (metis imageI snd_conv)
  qed
  then show ?thesis by (simp add: set_eq_iff)
qed

lemma map_row_device_id:
  assumes "store_wf s"
  shows "map row_device_id (map snd (sort_key fst (devices_tbl s))) = map fst (sort_key fst (devices_tbl s))"
  using assms by (auto simp: store_wf_def list_all_iff)

lemma path_split_length: "length p \<le> length (path_parent p) + 1 + length (path_name p)"
  using length_takeWhile_le [of "\<lambda>c. c \<noteq> CHR ''/''" "rev p"]
  by (auto simp: path_parent_def path_name_def Let_def)

lemma tmp_sibling_longer: "length p < length (tmp_sibling uuid p)"
  using path_split_length [of p] by (auto simp: tmp_sibling_def join_def Let_def)

lemma tmp_sibling_neq [simp]: "tmp_sibling uuid p \<noteq> p"
  using tmp_sibling_longer [of p uuid] by auto

section \<open>Properties\<close>

text \<open>Listing the registry returns the rows in strictly increasing order of device id, one per
  device; and a row is listed after an insert-or-update exactly if it is the row written or a row
  listed before under another id.\<close>

lemma list_devices_after_upsert:
  assumes "store_wf s"
  shows "\<exists>old new. list_devices None s = Ok old \<and>
    list_devices None (snd (upsert_device None d s)) = Ok new \<and>
    sorted (map row_device_id new) \<and> distinct (map row_device_id new) \<and>
    set new = insert d {r \<in> set old. row_device_id r \<noteq> row_device_id d}"
proof -
  let ?s' = "snd (upsert_device None d s)"
  have wf: "store_wf ?s'" using assms by simp
  have "sorted (map row_device_id (map snd (sort_key fst (devices_tbl ?s'))))"
    unfolding map_row_device_id [OF wf] by simp
  moreover have "distinct (map row_device_id (map snd (sort_key fst (devices_tbl ?s'))))"
    unfolding map_row_device_id [OF wf] using wf by (simp add: store_wf_def distinct_map)
  moreover have "set (map snd (sort_key fst (devices_tbl ?s'))) =
      insert d {r \<in> set (map snd (sort_key fst (devices_tbl s))). row_device_id r \<noteq> row_device_id d}"
    unfolding set_list_devices [OF wf] set_list_devices [OF assms] by auto
  ultimately show ?thesis unfolding list_devices_def by simp
qed



end
