(* ===== verification/Hf_Backends.thy ===== *)
theory Hf_Backends
  imports Hf_Store
begin

text \<open>
  Sources and destinations that are not plain files, \<^verbatim>\<open>daemon/src/backends.rs\<close>: a path, a \<^verbatim>\<open>file://\<close> URI or
  a URI that the desktop's helper programs can read and write.  What the helper programs do is a
  parameter: for each program whether it is installed, and how a run of it ends.
\<close>

section \<open>Definitions\<close>

definition DEFAULT_SAVE_DIR :: string where "DEFAULT_SAVE_DIR = ''~/Downloads''"
definition SAVE_DIR_KEY :: string where "SAVE_DIR_KEY = ''transfer.save_dir''"

record materialized =
  mat_local :: path
  mat_cleanup :: "path option"

datatype save_target = Local path | Uri string

definition expand_tilde :: "string option \<Rightarrow> string \<Rightarrow> path" where
  "expand_tilde home raw = (let r = trim_str raw in
     case (strip_prefix ''~/'' r, home) of
       (Some rest, Some h) \<Rightarrow> join h rest
     | _ \<Rightarrow> r)"

definition resolve_save_dir :: "string option \<Rightarrow> string \<Rightarrow> save_target" where
  "resolve_save_dir home raw = (let trimmed = trim_str raw in
     case strip_prefix ''file://'' trimmed of
       Some rest \<Rightarrow> Local (expand_tilde home rest)
     | None \<Rightarrow> (case find_sub ''://'' trimmed of
           Some scheme_end \<Rightarrow>
             if take scheme_end trimmed \<noteq> ''file'' then Uri trimmed else Local (expand_tilde home trimmed)
         | None \<Rightarrow> Local (expand_tilde home trimmed)))"

text \<open>
  How a run of a helper program ends: it cannot be started, has no output pipe, its output or its
  exit status cannot be read, or it exits with a status and what it wrote.
\<close>

datatype tool_run =
    SpawnFailed string
  | NoStdout
  | CopyFailed string bytes
  | WaitFailed string bytes
  | Exited bool string bytes

record tools =
  installed :: "string \<Rightarrow> bool"
  cat_run :: "string \<Rightarrow> string \<Rightarrow> tool_run"
  copy_run :: "string \<Rightarrow> path \<Rightarrow> string \<Rightarrow> string + (bool \<times> string)"

definition hex_nat :: "nat \<Rightarrow> string" where
  "hex_nat n = (let ds = concat (map hex_byte [of_nat (n div 2 ^ 24), of_nat (n div 2 ^ 16),
       of_nat (n div 2 ^ 8), of_nat n]); t = dropWhile (\<lambda>c. c = CHR ''0'') ds
     in if t = [] then ''0'' else t)"

definition random_suffix :: "nat \<Rightarrow> nat \<Rightarrow> string" where
  "random_suffix counter nanos = show_nat counter @ ''-'' @ hex_nat nanos"

definition source_tmp :: "path \<Rightarrow> nat \<Rightarrow> string \<Rightarrow> path" where
  "source_tmp temp_dir pid sfx = join temp_dir (''handfast-src-'' @ show_nat pid @ ''-'' @ sfx)"

definition no_backend_error :: "string \<Rightarrow> string list \<Rightarrow> string option \<Rightarrow> core_error" where
  "no_backend_error uri attempted last_err = COther (''cannot read non-local file URI '' @ [CHR 0x27] @ uri @
     [CHR 0x27] @ '': '' @ (case last_err of
         Some err \<Rightarrow> err
       | None \<Rightarrow> ''no usable backend found (tried '' @
           (if attempted = [] then ''none of gio/gvfs-cat/kioclient5 installed''
            else join_with '', '' attempted) @ '')''))"

text \<open>The loop over the candidate programs, with the list of those tried and the last failure.\<close>

fun try_tools :: "tools \<Rightarrow> faults \<Rightarrow> string \<Rightarrow> path \<Rightarrow> string list \<Rightarrow> string list \<Rightarrow> string option \<Rightarrow> fs \<Rightarrow>
    (core_error + materialized) \<times> fs" where
  "try_tools ts f uri tmp [] attempted last_err fs = (Err (no_backend_error uri attempted last_err), fs)"
| "try_tools ts f uri tmp (tool # rest) attempted last_err fs =
     (if \<not> installed ts tool then try_tools ts f uri tmp rest attempted last_err fs
      else (case cat_run ts tool uri of
          SpawnFailed err \<Rightarrow> (Err (COther (tool @ '' spawn failed: '' @ err)), fs)
        | NoStdout \<Rightarrow> (Err (COther (tool @ '' produced no stdout pipe'')), fs)
        | run \<Rightarrow>
            if f_open f \<noteq> None then (Err (CIo (IoOther (the (f_open f)))), fs)
            else if fs tmp \<noteq> None then (Err (CIo AlreadyExists), fs)
            else (case run of
                CopyFailed err out \<Rightarrow> (Err (CIo (IoOther err)), fs(tmp \<mapsto> out))
              | WaitFailed err out \<Rightarrow> (Err (CIo (IoOther err)), fs(tmp \<mapsto> out))
              | Exited True status out \<Rightarrow>
                  (Ok \<lparr>mat_local = tmp, mat_cleanup = Some tmp\<rparr>, fs(tmp \<mapsto> out))
              | Exited False status out \<Rightarrow>
                  try_tools ts f uri tmp rest (attempted @ [tool])
                    (Some (tool @ '' cat failed with '' @ status))
                    (if f_remove f = None then fs(tmp := None) else fs(tmp \<mapsto> out))
              | _ \<Rightarrow> (Err (COther (tool @ '' produced no stdout pipe'')), fs))))"

definition materialize_uri :: "tools \<Rightarrow> faults \<Rightarrow> path \<Rightarrow> string \<Rightarrow> fs \<Rightarrow> (core_error + materialized) \<times> fs" where
  "materialize_uri ts f tmp uri fs = try_tools ts f uri tmp [''gio'', ''gvfs-cat'', ''kioclient5''] [] None fs"

definition local_source :: "path \<Rightarrow> fs \<Rightarrow> core_error + materialized" where
  "local_source p fs = (if fs p = None then Err (COther (''file not found: '' @ p))
     else Ok \<lparr>mat_local = p, mat_cleanup = None\<rparr>)"

definition materialize_source :: "tools \<Rightarrow> faults \<Rightarrow> string option \<Rightarrow> path \<Rightarrow> string \<Rightarrow> fs \<Rightarrow>
    (core_error + materialized) \<times> fs" where
  "materialize_source ts f home tmp input fs = (let trimmed = trim_str input in
     case strip_prefix ''file://'' trimmed of
       Some rest \<Rightarrow> (local_source (expand_tilde home rest) fs, fs)
     | None \<Rightarrow> (case find_sub ''://'' trimmed of
           None \<Rightarrow> (local_source (expand_tilde home trimmed) fs, fs)
         | Some _ \<Rightarrow> materialize_uri ts f tmp trimmed fs))"

definition remove_quietly :: "faults \<Rightarrow> path \<Rightarrow> fs \<Rightarrow> fs" where
  "remove_quietly f p fs = (if f_remove f = None then fs(p := None) else fs)"

definition move_into_uri :: "tools \<Rightarrow> faults \<Rightarrow> path \<Rightarrow> string \<Rightarrow> fs \<Rightarrow> (core_error + unit) \<times> fs" where
  "move_into_uri ts f src uri fs =
     (if path_name src = [] then (Err (COther ''local staging file has no name''), fs)
      else let dest = trim_end_with (\<lambda>c. c = CHR ''/'') uri @ ''/'' @ path_name src;
               gio = (if installed ts ''gio'' then Some (copy_run ts ''gio'' src dest) else None);
               fail = (\<lambda>e. (Err (COther (''could not copy received file into '' @ [CHR 0x27] @ uri @ [CHR 0x27] @ '': '' @ e)), fs));
               kio = (\<lambda>last_err. if installed ts ''kioclient5'' then (case copy_run ts ''kioclient5'' src dest of
                      Inl err \<Rightarrow> (Err (CIo (IoOther err)), fs)
                    | Inr (True, _) \<Rightarrow> (Ok (), remove_quietly f src fs)
                    | Inr (False, status) \<Rightarrow> fail (''kioclient5 copy failed with '' @ status))
                  else fail (unwrap_or last_err ''gio/kioclient5 unavailable''))
           in (case gio of
                 Some (Inl err) \<Rightarrow> (Err (CIo (IoOther err)), fs)
               | Some (Inr (True, _)) \<Rightarrow> (Ok (), remove_quietly f src fs)
               | Some (Inr (False, status)) \<Rightarrow> kio (Some (''gio copy failed with '' @ status))
               | None \<Rightarrow> kio None))"

section \<open>Facts\<close>

lemma find_scheme_file:
  assumes "find_sub ''://'' s = Some n" "take n s = ''file''"
  shows "prefix ''file://'' s"
proof -
  obtain t where t: "drop n s = ''://'' @ t"
    using find_sub_Some [OF assms(1)] unfolding prefix_def by blast
  have "s = take n s @ drop n s" by simp
  also have "\<dots> = ''file://'' @ t" unfolding assms(2) t by simp
  finally show ?thesis unfolding prefix_def by blast
qed

lemma try_tools_Ok:
  "try_tools ts f uri tmp cands att le fs = (Ok m, fs') \<Longrightarrow>
     m = \<lparr>mat_local = tmp, mat_cleanup = Some tmp\<rparr> \<and>
     (\<exists>tool status out. installed ts tool \<and> cat_run ts tool uri = Exited True status out \<and> fs' tmp = Some out)"
proof (induction cands arbitrary: att le fs)
  case (Cons tool rest)
  show ?case
  proof (cases "installed ts tool")
    case True
    then show ?thesis using Cons
      by (cases "cat_run ts tool uri") (auto split: if_splits bool.splits)
  qed (use Cons in simp)
qed simp

lemma try_tools_frame:
  "try_tools ts f uri tmp cands att le fs = (r, fs') \<Longrightarrow> p \<noteq> tmp \<Longrightarrow> fs' p = fs p"
proof (induction cands arbitrary: att le fs)
  case (Cons tool rest)
  show ?case
  proof (cases "installed ts tool")
    case True
    then show ?thesis using Cons.prems Cons.IH
      by (cases "cat_run ts tool uri") (auto split: if_splits bool.splits)
  qed (use Cons in simp)
qed simp

lemmas materialize_uri_Ok =
  try_tools_Ok [of _ _ _ _ "[''gio'', ''gvfs-cat'', ''kioclient5'']" "[]" None, folded materialize_uri_def]

lemmas materialize_uri_frame =
  try_tools_frame [of _ _ _ _ "[''gio'', ''gvfs-cat'', ''kioclient5'']" "[]" None, folded materialize_uri_def]

lemma materialize_source_cases:
  "(\<exists>p. materialize_source ts f home tmp input fs = (local_source p fs, fs)) \<or>
   materialize_source ts f home tmp input fs = materialize_uri ts f tmp (trim_str input) fs"
  by (auto simp: materialize_source_def Let_def split: option.split)

section \<open>Properties\<close>

text \<open>A configured destination is treated as a URI exactly if, trimmed, it contains \<^verbatim>\<open>://\<close> and does not
  start with \<^verbatim>\<open>file://\<close>; every other value names a local directory.\<close>

lemma resolve_save_dir_uri:
  "resolve_save_dir home raw = Uri u \<longleftrightarrow>
     u = trim_str raw \<and> sublist ''://'' u \<and> \<not> prefix ''file://'' u"
  by (auto simp: resolve_save_dir_def Let_def strip_prefix_def split: option.splits if_splits
      dest: find_scheme_file find_sub_sublist find_sub_None [THEN iffD1])

text \<open>A source that was made ready can be streamed and leaves nothing else behind: the file to open
  exists; it is a file that was there before and nothing changed, or it is the temporary file, to be
  cleaned up, holding the complete output of an installed helper program that exited successfully;
  and no other file is touched, whatever the outcome.\<close>

lemma materialize_source_ready:
  "(\<forall>m fs'. materialize_source ts f home tmp input fs = (Ok m, fs') \<longrightarrow>
     fs' (mat_local m) \<noteq> None \<and>
     (mat_cleanup m = None \<and> fs' = fs \<or>
      mat_cleanup m = Some tmp \<and> mat_local m = tmp \<and>
      (\<exists>tool status out. installed ts tool \<and> cat_run ts tool (trim_str input) = Exited True status out \<and>
         fs' tmp = Some out))) \<and>
   (\<forall>p. p \<noteq> tmp \<longrightarrow> snd (materialize_source ts f home tmp input fs) p = fs p)"
proof -
  consider (plain) p where "materialize_source ts f home tmp input fs = (local_source p fs, fs)"
    | (uri) "materialize_source ts f home tmp input fs = materialize_uri ts f tmp (trim_str input) fs"
    using materialize_source_cases [of ts f home tmp input fs] by blast
  then show ?thesis
  proof cases
    case plain
    then show ?thesis by (auto simp: local_source_def split: if_splits)
  next
    case uri
    have "snd (materialize_uri ts f tmp (trim_str input) fs) p = fs p" if "p \<noteq> tmp" for p
      using materialize_uri_frame [OF prod.collapse [symmetric] that] by simp
    with uri show ?thesis by (auto dest!: materialize_uri_Ok)
  qed
qed

end
