(* ===== verification/Hf_Bus.thy ===== *)
theory Hf_Bus
  imports Hf_Prelude
begin

text \<open>
  The event bus of \<^verbatim>\<open>core/src/bus.rs\<close>.  The bus is the sequence of the events published so far, which
  is what every subscriber present from the start would receive.
\<close>

datatype event =
    DeviceFound string string
  | DeviceLost string
  | DeviceStateChanged string string
  | PairingRequest string string
  | TransferProgress string u64 u64
  | TransferAdded string string string string u64
  | TransferFinished string
  | TransferFailed string string
  | ShareReceived string string
  | NotificationReceived string string string string
  | ClipboardUpdated string
  | LogRecord string string
  | DaemonShutdown

type_synonym bus = "event list"

definition publish :: "event \<Rightarrow> bus \<Rightarrow> bus" where
  "publish ev b = b @ [ev]"

end
