(* ===== verification/Hf_Stream.thy ===== *)
theory Hf_Stream
  imports Hf_Backends Hf_Bus
begin

text \<open>
  The two tasks that move file contents over a payload connection (\<^verbatim>\<open>stream_outgoing\<close> and
  \<^verbatim>\<open>receive_stream\<close> of \<^verbatim>\<open>daemon/src/device.rs\<close>), with the reads of \<^verbatim>\<open>daemon/src/tls.rs\<close> they call.

  A connection is the bytes that will arrive on it and what follows them: a close, a silence longer
  than the read timeout, or an error.  How many of the available bytes one read returns, and whether
  the transfer has been cancelled when a given number of bytes is done, are parameters.
\<close>

section \<open>Reading\<close>

datatype ending = Close | Stall | Broken io_error

record source =
  arriving :: bytes
  ending :: ending

definition PAYLOAD_TIMED_OUT :: core_error where
  "PAYLOAD_TIMED_OUT = COther ''payload read timed out''"

text \<open>\<^verbatim>\<open>Transport::read_bytes\<close> under the read timeout: exactly \<open>n\<close> bytes or an error.\<close>

definition read_bytes :: "nat \<Rightarrow> source \<Rightarrow> core_error + (bytes \<times> source)" where
  "read_bytes n s = (if n \<le> length (arriving s)
     then Ok (take n (arriving s), s\<lparr>arriving := drop n (arriving s)\<rparr>)
     else (case ending s of
         Close \<Rightarrow> Err (CIo UnexpectedEof)
       | Stall \<Rightarrow> Err PAYLOAD_TIMED_OUT
       | Broken e \<Rightarrow> Err (CIo e)))"

text \<open>
  \<^verbatim>\<open>Transport::read_some\<close> under the read timeout: between one and \<open>n\<close> of the available bytes, none at
  the end of the stream; a missing close notification counts as the end.
\<close>

definition read_some :: "nat \<Rightarrow> nat \<Rightarrow> source \<Rightarrow> core_error + (bytes \<times> source)" where
  "read_some grain n s = (if arriving s \<noteq> []
     then let k = max 1 (min grain (min n (length (arriving s)))) in
       Ok (take k (arriving s), s\<lparr>arriving := drop k (arriving s)\<rparr>)
     else (case ending s of
         Close \<Rightarrow> Ok ([], s)
       | Stall \<Rightarrow> Err PAYLOAD_TIMED_OUT
       | Broken e \<Rightarrow> if e = UnexpectedEof then Ok ([], s) else Err (CIo e)))"

section \<open>Receiving\<close>

text \<open>What the environment decides during one transfer.\<close>

record stream_env =
  se_faults :: faults
  se_grain :: "u64 \<Rightarrow> nat"
  se_cancelled :: "u64 \<Rightarrow> bool"

datatype 'a step = Break | Fail core_error | Next_Chunk 'a

definition read_step :: "stream_env \<Rightarrow> u64 \<Rightarrow> u64 \<Rightarrow> source \<Rightarrow> (bytes \<times> source) step" where
  "read_step env sz sofar s =
     (if sz = UNKNOWN_SIZE then
        (case read_some (se_grain env sofar) CHUNK_SIZE s of
           Inl e \<Rightarrow> Fail e
         | Inr (chunk, s') \<Rightarrow> if chunk = [] then Break else Next_Chunk (chunk, s'))
      else let want = min CHUNK_SIZE (unat (sz - sofar)) in
        if want = 0 then Break
        else (case read_bytes want s of
            Inl e \<Rightarrow> Fail e
          | Inr (chunk, s') \<Rightarrow> Next_Chunk (chunk, s')))"

lemma read_step_shrinks:
  "read_step env sz sofar s = Next_Chunk (chunk, s') \<Longrightarrow>
     chunk \<noteq> [] \<and> length chunk \<le> CHUNK_SIZE \<and> arriving s = chunk @ arriving s' \<and> ending s' = ending s"
  by (auto simp: read_step_def read_some_def read_bytes_def CHUNK_SIZE_def Let_def
      split: if_splits sum.splits ending.splits)

function receive_loop :: "stream_env \<Rightarrow> string \<Rightarrow> u64 \<Rightarrow> u64 \<Rightarrow> source \<Rightarrow> engine \<Rightarrow> fs \<Rightarrow> bus \<Rightarrow>
    (core_error + unit) \<times> engine \<times> fs \<times> bus" where
  "receive_loop env tid sz sofar s e fs b =
     (if se_cancelled env sofar then
        let (_, e', fs') = abort (se_faults env) tid e fs in (Err (COther ''transfer cancelled''), e', fs', b)
      else (case read_step env sz sofar s of
          Break \<Rightarrow> (Ok (), e, fs, b)
        | Fail err \<Rightarrow> (Err err, e, fs, b)
        | Next_Chunk (chunk, s') \<Rightarrow>
            (case write_chunk (se_faults env) tid chunk e fs of
               (Inl err, e', fs') \<Rightarrow> (Err err, e', fs', b)
             | (Inr _, e', fs') \<Rightarrow>
                 let sofar' = sofar + of_nat (length chunk);
                     b' = publish (TransferProgress tid sofar' sz) b
                 in if sz \<noteq> UNKNOWN_SIZE \<and> sofar' \<ge> sz then (Ok (), e', fs', b')
                    else receive_loop env tid sz sofar' s' e' fs' b')))"
  by pat_completeness auto
termination
  by (relation "measure (\<lambda>(_, _, _, _, s, _). length (arriving s))") (auto dest!: read_step_shrinks)

declare receive_loop.simps [simp del]

definition receive_stream :: "stream_env \<Rightarrow> tools \<Rightarrow> save_target \<Rightarrow> string \<Rightarrow> string \<Rightarrow> string \<Rightarrow> u64 \<Rightarrow>
    source option \<Rightarrow> engine \<Rightarrow> fs \<Rightarrow> bus \<Rightarrow> (core_error + path) \<times> engine \<times> fs \<times> bus" where
  "receive_stream env ts target tid dev fname sz payload e fs b =
     (case start_receive (se_faults env) \<lparr>transfer_id = tid, tm_device_id = dev, file_name = fname, file_size = sz\<rparr> e fs of
        (Inl err, e1, fs1) \<Rightarrow> (Err err, e1, fs1, b)
      | (Inr _, e1, fs1) \<Rightarrow>
          (case (case payload of None \<Rightarrow> (Ok (), e1, fs1, b)
                 | Some s \<Rightarrow> receive_loop env tid sz 0 s e1 fs1 b) of
             (Inl err, e2, fs2, b2) \<Rightarrow> (Err err, e2, fs2, b2)
           | (Inr _, e2, fs2, b2) \<Rightarrow>
               (case finish_receive (se_faults env) tid e2 fs2 of
                  (Inl err, e3, fs3) \<Rightarrow> (Err err, e3, fs3, b2)
                | (Inr final, e3, fs3) \<Rightarrow>
                    (case target of
                       Local _ \<Rightarrow> (Ok final, e3, fs3, publish (ShareReceived final dev) b2)
                     | Uri uri \<Rightarrow>
                         (case move_into_uri ts (se_faults env) final uri fs3 of
                            (Inl err, fs4) \<Rightarrow> (Err err, e3, remove_quietly (se_faults env) final fs4, b2)
                          | (Inr _, fs4) \<Rightarrow>
                              (Ok final, e3, fs4,
                               publish (ShareReceived (trim_end_with (\<lambda>c. c = CHR ''/'') uri @ ''/'' @ fname) dev) b2))))))"

section \<open>Sending\<close>

text \<open>
  One pass over the file: its contents still to be read, what the peer received so far, and the
  write error that strikes at a given position, if any.
\<close>

function send_loop :: "stream_env \<Rightarrow> (u64 \<Rightarrow> core_error option) \<Rightarrow> string \<Rightarrow> u64 \<Rightarrow> u64 \<Rightarrow> bytes \<Rightarrow> bytes \<Rightarrow> bus \<Rightarrow>
    (core_error + unit) \<times> bytes \<times> bus" where
  "send_loop env werr tid sz sofar file sent b =
     (if se_cancelled env sofar then (Err (COther ''transfer cancelled''), sent, b)
      else if file = [] then (Ok (), sent, b)
      else let k = max 1 (min (se_grain env sofar) (min PAYLOAD_CHUNK_SIZE (length file))) in
        (case werr sofar of
           Some err \<Rightarrow> (Err err, sent, b)
         | None \<Rightarrow>
             let sofar' = sofar + of_nat k;
                 b' = publish (TransferProgress tid sofar' sz) b
             in if sofar' \<ge> sz then (Ok (), sent @ take k file, b')
                else send_loop env werr tid sz sofar' (drop k file) (sent @ take k file) b'))"
  by pat_completeness auto
termination
  by (relation "measure (\<lambda>(_, _, _, _, _, file, _, _). length file)") (auto simp: Let_def)

declare send_loop.simps [simp del]

definition stream_outgoing :: "stream_env \<Rightarrow> (u64 \<Rightarrow> core_error option) \<Rightarrow> core_error option \<Rightarrow> string \<Rightarrow> path \<Rightarrow>
    path option \<Rightarrow> u64 \<Rightarrow> fs \<Rightarrow> bus \<Rightarrow> (core_error + unit) \<times> bytes \<times> fs \<times> bus" where
  "stream_outgoing env werr accept_err tid loc cleanup sz fs b =
     (let (r, sent, b') =
        (case accept_err of
           Some err \<Rightarrow> (Err err, [], b)
         | None \<Rightarrow> (case f_open (se_faults env) of
               Some err \<Rightarrow> (Err (CIo (IoOther err)), [], b)
             | None \<Rightarrow> (case fs loc of
                   None \<Rightarrow> (Err (CIo NotFound), [], b)
                 | Some file \<Rightarrow> send_loop env werr tid sz 0 file [] b)))
      in (r, sent, (case cleanup of None \<Rightarrow> fs | Some tmp \<Rightarrow> remove_quietly (se_faults env) tmp fs), b'))"

text \<open>
  A step of a transfer concerns nothing but its own table entry and its own staging file, and does
  not leave the file behind once the entry is gone.
\<close>

definition only_touches :: "string \<Rightarrow> path \<Rightarrow> engine \<Rightarrow> fs \<Rightarrow> engine \<Rightarrow> fs \<Rightarrow> bool" where
  "only_touches tid part e fs e' fs' =
     (save_dir e' = save_dir e \<and> tdel tid (eng_incoming e') = tdel tid (eng_incoming e) \<and>
      (\<forall>p. p \<noteq> part \<longrightarrow> fs' p = fs p) \<and>
      (case tget tid (eng_incoming e') of None \<Rightarrow> fs' part = None | Some t \<Rightarrow> part_path t = part))"

section \<open>Facts about receiving\<close>

lemma only_touches_refl:
  "tget tid (eng_incoming e) = Some t \<Longrightarrow> part_path t = part \<Longrightarrow> only_touches tid part e fs e fs"
  by (simp add: only_touches_def)

lemma only_touches_trans:
  "only_touches tid part e fs e1 fs1 \<Longrightarrow> only_touches tid part e1 fs1 e2 fs2 \<Longrightarrow> only_touches tid part e fs e2 fs2"
  by (simp add: only_touches_def)

lemma write_chunk_touches:
  assumes "tget tid (eng_incoming e) = Some t" "part_path t = part"
    "write_chunk f tid d e fs = (r, e', fs')"
  shows "only_touches tid part e fs e' fs'"
    and "\<exists>t'. tget tid (eng_incoming e') = Some t' \<and> part_path t' = part"
  using assms
  by (auto simp: write_chunk_def only_touches_def Let_def split: if_splits option.splits prod.splits)

lemma abort_touches:
  assumes "tget tid (eng_incoming e) = Some t" "part_path t = part" "f_remove f = None"
    "abort f tid e fs = (r, e', fs')"
  shows "only_touches tid part e fs e' fs'"
  using assms by (auto simp: abort_def only_touches_def Let_def)

lemma receive_loop_touches:
  assumes "receive_loop env tid sz sofar s e fs b = (r, e', fs', b')" "f_remove (se_faults env) = None"
    and "tget tid (eng_incoming e) = Some t" "part_path t = part"
  shows "only_touches tid part e fs e' fs'"
  using assms
proof (induction env tid sz sofar s e fs b arbitrary: t rule: receive_loop.induct)
  case (1 env tid sz sofar s e fs b)
  note unfold = receive_loop.simps [of env tid sz sofar s e fs b]
  show ?case
  proof (cases "se_cancelled env sofar")
    case True
    then show ?thesis using "1.prems" abort_touches [OF "1.prems"(3,4,2)]
      by (auto simp: unfold split: prod.splits)
  next
    case False
    show ?thesis
    proof (cases "read_step env sz sofar s")
      case (Next_Chunk cs)
      obtain chunk s' where cs: "cs = (chunk, s')" by fastforce
      obtain w e1 fs1 where w: "write_chunk (se_faults env) tid chunk e fs = (w, e1, fs1)" by (metis prod_cases3)
      note wt = write_chunk_touches [OF "1.prems"(3,4) w]
      show ?thesis
      proof (cases w)
        case (Inl err)
        then show ?thesis using "1.prems"(1) False Next_Chunk cs w wt(1) by (simp add: unfold)
      next
        case (Inr n)
        obtain t' where t': "tget tid (eng_incoming e1) = Some t'" "part_path t' = part" using wt(2) by blast
        note ih = "1.IH" [OF False Next_Chunk cs [symmetric], OF w [symmetric] Inr refl refl refl]
        show ?thesis
          using "1.prems"(1,2) False Next_Chunk cs w Inr wt(1) only_touches_trans [OF wt(1)] ih t'
          by (auto simp: unfold Let_def split: if_splits)
      qed
    qed (use "1.prems" False only_touches_refl in \<open>auto simp: unfold\<close>)
  qed
qed

text \<open>The bytes a receive should still take, and when the connection will deliver them.\<close>

definition due :: "u64 \<Rightarrow> u64 \<Rightarrow> source \<Rightarrow> bytes" where
  "due sz sofar s = (if sz = UNKNOWN_SIZE then arriving s else take (unat sz - unat sofar) (arriving s))"

definition deliverable :: "u64 \<Rightarrow> u64 \<Rightarrow> source \<Rightarrow> bool" where
  "deliverable sz sofar s = (if sz = UNKNOWN_SIZE
     then ending s \<in> {Close, Broken UnexpectedEof} \<and> unat sofar + length (arriving s) < 2 ^ 64
     else sofar \<le> sz \<and> unat sz \<le> unat sofar + length (arriving s))"

lemma unat_UNKNOWN_SIZE: "unat UNKNOWN_SIZE = 2 ^ 64 - 1"
  by (simp add: UNKNOWN_SIZE_def unsigned_minus_1_eq_mask mask_eq_exp_minus_1)

lemma write_chunk_accepts:
  assumes "f_open f = None" "f_write f = None" "f_flush f = None" "length d \<le> CHUNK_SIZE"
    "tget tid (eng_incoming e) = Some t" "fs (part_path t) = Some c"
    "unat (received t) + length d \<le> unat (file_size (meta t))"
  shows "write_chunk f tid d e fs =
    (Ok (received t + of_nat (length d)),
     e\<lparr>eng_incoming := tput tid (t\<lparr>received := received t + of_nat (length d)\<rparr>) (eng_incoming e)\<rparr>,
     fs(part_path t \<mapsto> c @ d))"
proof -
  have "unat (received t) + length d < 2 ^ 64"
    using assms(7) unsigned_less [where ?'a = nat, of "file_size (meta t)"] by simp
  then have "received t + of_nat (length d) \<le> file_size (meta t)"
    using assms(7) by (simp add: word_le_nat_alt unat_add_len)
  then show ?thesis using assms by (simp add: write_chunk_def Let_def not_less)
qed

lemma read_step_delivers:
  assumes "deliverable sz sofar s"
  shows "read_step env sz sofar s = Break \<and> due sz sofar s = [] \<and> (sz = UNKNOWN_SIZE \<or> sofar = sz) \<or>
    (\<exists>chunk s'. read_step env sz sofar s = Next_Chunk (chunk, s') \<and>
       due sz sofar s = chunk @ due sz (sofar + of_nat (length chunk)) s' \<and>
       deliverable sz (sofar + of_nat (length chunk)) s' \<and> unat sofar + length chunk \<le> unat sz)"
proof (cases "sz = UNKNOWN_SIZE")
  case True
  show ?thesis
  proof (cases "arriving s = []")
    case False
    define k where "k = max (Suc 0) (min (se_grain env sofar) (min CHUNK_SIZE (length (arriving s))))"
    have k: "k \<le> length (arriving s)" "k > 0" using False by (auto simp: k_def CHUNK_SIZE_def Suc_le_eq)
    have sum: "unat sofar + length (arriving s) < 2 ^ 64" using assms True by (simp add: deliverable_def)
    have "read_step env sz sofar s = Next_Chunk (take k (arriving s), s\<lparr>arriving := drop k (arriving s)\<rparr>)"
      using True False k by (simp add: read_step_def read_some_def Let_def flip: k_def)
    then show ?thesis using True assms k sum
      by (auto simp: due_def deliverable_def unat_UNKNOWN_SIZE unat_add_len)
  qed (use True assms in \<open>auto simp: read_step_def read_some_def deliverable_def due_def split: ending.splits\<close>)
next
  case False
  then have h: "sofar \<le> sz" "unat sz \<le> unat sofar + length (arriving s)" using assms by (simp_all add: deliverable_def)
  define want where "want = min CHUNK_SIZE (unat (sz - sofar))"
  have sub: "unat (sz - sofar) = unat sz - unat sofar" using h(1) by (simp add: unat_sub)
  show ?thesis
  proof (cases "want = 0")
    case True
    then have "unat sz = unat sofar" using sub h(1) by (simp add: want_def CHUNK_SIZE_def word_le_nat_alt)
    then show ?thesis using True False
      by (simp add: read_step_def due_def flip: want_def word_eq_iff_unsigned [where ?'a = nat])
  next
    case w: False
    have want: "want \<le> unat sz - unat sofar" "want \<le> length (arriving s)"
      using sub h(2) by (auto simp: want_def)
    have le: "unat sofar + want \<le> unat sz" using want(1) h(1) by (simp add: word_le_nat_alt)
    have lt: "unat sofar + want < 2 ^ 64" using le unsigned_less [where ?'a = nat, of sz] by simp
    have "read_step env sz sofar s = Next_Chunk (take want (arriving s), s\<lparr>arriving := drop want (arriving s)\<rparr>)"
      using False w want by (simp add: read_step_def read_bytes_def Let_def flip: want_def)
    moreover have rest: "unat sz - unat sofar = want + (unat sz - (unat sofar + want))" using le by simp
    have "take (unat sz - unat sofar) (arriving s) =
        take want (arriving s) @ take (unat sz - (unat sofar + want)) (drop want (arriving s))"
      by (subst rest) (rule take_add)
    ultimately show ?thesis using False want le lt h
      by (auto simp: due_def deliverable_def unat_add_len word_le_nat_alt)
  qed
qed

lemma receive_loop_complete:
  assumes "\<forall>k. \<not> se_cancelled env k"
    "f_open (se_faults env) = None" "f_write (se_faults env) = None" "f_flush (se_faults env) = None"
    "tget tid (eng_incoming e) = Some t" "received t = sofar" "file_size (meta t) = sz"
    "fs (part_path t) = Some c" "deliverable sz sofar s"
  shows "\<exists>e' fs' b' n. receive_loop env tid sz sofar s e fs b = (Ok (), e', fs', b') \<and>
    tget tid (eng_incoming e') = Some (t\<lparr>received := n\<rparr>) \<and> (sz = UNKNOWN_SIZE \<or> n = sz) \<and>
    save_dir e' = save_dir e \<and> fs' (part_path t) = Some (c @ due sz sofar s)"
  using assms
proof (induction env tid sz sofar s e fs b arbitrary: t c rule: receive_loop.induct)
  case (1 env tid sz sofar s e fs b)
  note unfold = receive_loop.simps [of env tid sz sofar s e fs b]
  have nc: "\<not> se_cancelled env sofar" using "1.prems"(1) by simp
  consider (brk) "read_step env sz sofar s = Break" "due sz sofar s = []" "sz = UNKNOWN_SIZE \<or> sofar = sz"
    | (more) chunk s' where "read_step env sz sofar s = Next_Chunk (chunk, s')"
        "due sz sofar s = chunk @ due sz (sofar + of_nat (length chunk)) s'"
        "deliverable sz (sofar + of_nat (length chunk)) s'" "unat sofar + length chunk \<le> unat sz"
    using read_step_delivers [OF "1.prems"(9), of env] by blast
  then show ?case
  proof cases
    case brk
    then show ?thesis using "1.prems" nc by (auto simp: unfold intro!: exI [of _ sofar])
  next
    case more
    note rs = more(1) and due = more(2) and del = more(3) and le = more(4)
    let ?t = "t\<lparr>received := sofar + of_nat (length chunk)\<rparr>"
    let ?e = "e\<lparr>eng_incoming := tput tid ?t (eng_incoming e)\<rparr>"
    let ?fs = "fs(part_path t \<mapsto> c @ chunk)"
    have w: "write_chunk (se_faults env) tid chunk e fs = (Ok (sofar + of_nat (length chunk)), ?e, ?fs)"
      using write_chunk_accepts [of "se_faults env" chunk tid e t fs c] "1.prems"(2-5,8) read_step_shrinks [OF rs] "1.prems"(6,7) le
      by simp
    show ?thesis
    proof (cases "sz \<noteq> UNKNOWN_SIZE \<and> sofar + of_nat (length chunk) \<ge> sz")
      case True
      with del have "sofar + of_nat (length chunk) = sz" by (auto simp: deliverable_def intro: order.antisym)
      then show ?thesis using True rs w nc due by (simp add: unfold Let_def due_def)
    next
      case False
      let ?b = "publish (TransferProgress tid (sofar + of_nat (length chunk)) sz) b"
      have step: "receive_loop env tid sz sofar s e fs b =
          receive_loop env tid sz (sofar + of_nat (length chunk)) s' ?e ?fs ?b"
        using False rs w nc by (auto simp: unfold Let_def)
      have "\<exists>e' fs' b' n. receive_loop env tid sz (sofar + of_nat (length chunk)) s' ?e ?fs ?b = (Ok (), e', fs', b') \<and>
          tget tid (eng_incoming e') = Some (?t\<lparr>received := n\<rparr>) \<and> (sz = UNKNOWN_SIZE \<or> n = sz) \<and>
          save_dir e' = save_dir ?e \<and>
          fs' (part_path ?t) = Some ((c @ chunk) @ due sz (sofar + of_nat (length chunk)) s')"
        by (rule "1.IH" [OF nc rs refl w [symmetric] refl refl refl refl False])
           (use "1.prems" del in simp_all)
      then show ?thesis unfolding step due by simp
    qed
  qed
qed

lemma start_receive_Ok:
  assumes "start_receive f m e fs = (Ok u, e1, fs1)"
  defines "part \<equiv> join (save_dir e) (sanitize_file_name (file_name m) @ PART_SUFFIX)"
  shows "tget (transfer_id m) (eng_incoming e1) =
      Some \<lparr>meta = m, final_name = sanitize_file_name (file_name m), part_path = part, received = 0\<rparr>"
    and "fs1 = fs(part \<mapsto> [])" and "fs part = None" and "\<not> thas (transfer_id m) (eng_incoming e)"
    and "only_touches (transfer_id m) part e fs e1 fs1"
  using assms
  by (auto simp: start_receive_def Let_def only_touches_def split: if_splits option.splits)

lemma start_receive_Err: "start_receive f m e fs = (Err x, e1, fs1) \<Longrightarrow> e1 = e \<and> fs1 = fs"
  by (auto simp: start_receive_def Let_def split: if_splits option.splits)

text \<open>Whatever stops a receive into a local directory, only its own entry and staging file are concerned.\<close>

lemma receive_stream_Err:
  assumes "receive_stream env ts (Local d) tid dev fname sz payload e fs b = (Err x, e', fs', b')"
    "f_remove (se_faults env) = None" "\<not> thas tid (eng_incoming e)"
  shows "e' = e \<and> fs' = fs \<or>
    (\<exists>part. fs part = None \<and> only_touches tid part e fs e' fs')"
proof -
  let ?m = "\<lparr>transfer_id = tid, tm_device_id = dev, file_name = fname, file_size = sz\<rparr>"
  obtain r1 e1 fs1 where st: "start_receive (se_faults env) ?m e fs = (r1, e1, fs1)" by (metis prod_cases3)
  show ?thesis
  proof (cases r1)
    case (Inl err)
    then show ?thesis using assms(1) st start_receive_Err by (fastforce simp: receive_stream_def)
  next
    case (Inr u)
    define part where "part = join (save_dir e) (sanitize_file_name fname @ PART_SUFFIX)"
    note s1 = start_receive_Ok [OF st [unfolded Inr], simplified, folded part_def]
    obtain r2 e2 fs2 b2 where lp: "(case payload of None \<Rightarrow> (Ok (), e1, fs1, b)
        | Some s \<Rightarrow> receive_loop env tid sz 0 s e1 fs1 b) = (r2, e2, fs2, b2)" by (metis prod_cases4)
    have t2: "only_touches tid part e1 fs1 e2 fs2"
    proof (cases payload)
      case None
      then show ?thesis using lp only_touches_refl [OF s1(1)] by simp
    next
      case (Some s)
      then show ?thesis using lp receive_loop_touches [of env tid sz 0 s e1 fs1 b, OF _ assms(2) s1(1)] by simp
    qed
    have "e' = e2 \<and> fs' = fs2"
      using assms(1) st Inr lp finish_receive_Err [of "se_faults env" tid e2 fs2 x]
      by (auto simp: receive_stream_def split: sum.splits prod.splits dest: finish_receive_Err)
    then show ?thesis using only_touches_trans [OF s1(5) t2] s1(3) by blast
  qed
qed

lemma abort_after_touch:
  assumes "only_touches tid part e fs e1 fs1" "fs part = None" "\<not> thas tid (eng_incoming e)" "f_remove f = None"
    "abort f tid e1 fs1 = (r, e2, fs2)"
  shows "e2 = e \<and> fs2 = fs"
proof (cases "tget tid (eng_incoming e1)")
  case None
  then have "tdel tid (eng_incoming e1) = eng_incoming e1" by (simp add: length_tdel_absent thas_def)
  moreover have "tdel tid (eng_incoming e) = eng_incoming e" using assms(3) by (simp add: length_tdel_absent)
  ultimately have "e1 = e" using assms(1) by (auto simp: only_touches_def intro: engine.equality)
  moreover have "fs1 p = fs p" for p
    using assms(1,2) None by (cases "p = part") (simp_all add: only_touches_def)
  then have "fs1 = fs" by (rule ext)
  with \<open>e1 = e\<close> show ?thesis using assms(5) None by (auto simp: abort_def)
next
  case (Some t)
  have "tdel tid (eng_incoming e) = eng_incoming e" using assms(3) by (simp add: length_tdel_absent)
  then have "e1\<lparr>eng_incoming := tdel tid (eng_incoming e1)\<rparr> = e"
    using assms(1) by (auto simp: only_touches_def intro: engine.equality)
  moreover have "(fs1(part := None)) p = fs p" for p
    using assms(1,2) by (cases "p = part") (simp_all add: only_touches_def)
  then have "fs1(part := None) = fs" by (rule ext)
  moreover have "part_path t = part" using assms(1) Some by (simp add: only_touches_def)
  ultimately show ?thesis
    using assms(4,5) Some \<open>fs1(part := None) = fs\<close> by (auto simp: abort_def Let_def)
qed

section \<open>Properties\<close>

text \<open>C11. A receive whose bytes all arrive completes: for a transfer of known size whose connection
  delivers at least that many bytes, or of unknown size whose connection is closed after its bytes,
  the task succeeds whatever the sizes of the individual reads, the file it reports holds exactly the
  announced number of bytes (or all of them) in order, the transfer is no longer active, and the last
  event announces the file.\<close>

theorem receive_stream_complete:
  assumes "\<forall>k. \<not> se_cancelled env k" "se_faults env = no_faults"
    and "\<not> thas tid (eng_incoming e)"
    and "fs (join (save_dir e) (sanitize_file_name fname @ PART_SUFFIX)) = None"
    and "deliverable sz 0 s"
  shows "\<exists>final e' fs' b'. receive_stream env ts (Local d) tid dev fname sz (Some s) e fs b = (Ok final, e', fs', b') \<and>
    fs' final = Some (due sz 0 s) \<and> \<not> is_active e' tid \<and> last b' = ShareReceived final dev"
proof -
  let ?m = "\<lparr>transfer_id = tid, tm_device_id = dev, file_name = fname, file_size = sz\<rparr>"
  let ?fn = "sanitize_file_name fname"
  let ?part = "join (save_dir e) (?fn @ PART_SUFFIX)"
  let ?t = "\<lparr>meta = ?m, final_name = ?fn, part_path = ?part, received = 0\<rparr>"
  let ?e1 = "e\<lparr>eng_incoming := tput tid ?t (eng_incoming e)\<rparr>"
  have st: "start_receive no_faults ?m e fs = (Ok (), ?e1, fs(?part \<mapsto> []))"
    using assms(3,4) by (simp add: start_receive_def no_faults_def Let_def)
  obtain e2 fs2 b2 n where lp: "receive_loop env tid sz 0 s ?e1 (fs(?part \<mapsto> [])) b = (Ok (), e2, fs2, b2)"
    "tget tid (eng_incoming e2) = Some (?t\<lparr>received := n\<rparr>)" "sz = UNKNOWN_SIZE \<or> n = sz"
    "fs2 ?part = Some (due sz 0 s)"
    using receive_loop_complete [OF assms(1) _ _ _ _ _ _ _ assms(5), of tid ?e1 ?t "fs(?part \<mapsto> [])" "[]" b] assms(2)
    by (auto simp: no_faults_def)
  let ?dest = "free_destination no_faults fs2 (save_dir e2) ?fn"
  have "finish_receive no_faults tid e2 fs2 =
      (Ok ?dest, e2\<lparr>eng_incoming := tdel tid (eng_incoming e2)\<rparr>, (fs2(?part := None))(?dest \<mapsto> due sz 0 s))"
    using lp by (auto simp: finish_receive_def no_faults_def Let_def)
  then show ?thesis using st lp(1) assms(2)
    by (simp add: receive_stream_def is_active_def publish_def)
qed

definition demo_env :: stream_env where
  "demo_env = \<lparr>se_faults = no_faults, se_grain = (\<lambda>_. 2), se_cancelled = (\<lambda>_. False)\<rparr>"

definition no_tools :: tools where
  "no_tools = \<lparr>installed = (\<lambda>_. False), cat_run = (\<lambda>_ _. NoStdout), copy_run = (\<lambda>_ _ _. Inl '''')\<rparr>"

theorem receive_stream_complete_witness:
  "\<exists>final e' fs' b'. receive_stream demo_env no_tools (Local ''/s'') ''t1'' ''d'' ''a'' 3
      (Some \<lparr>arriving = [7, 8, 9, 1], ending = Stall\<rparr>) (engine_new ''/s'') Map.empty [] = (Ok final, e', fs', b') \<and>
    fs' final = Some [7, 8, 9]"
  using receive_stream_complete [of demo_env "''t1''" "engine_new ''/s''" Map.empty "''a''" 3
      "\<lparr>arriving = [7, 8, 9, 1], ending = Stall\<rparr>" no_tools "''/s''" "''d''" "[]"]
  by (fastforce simp: demo_env_def engine_new_def deliverable_def due_def UNKNOWN_SIZE_def)

text \<open>C14. A receive that fails leaves no trace: whenever the task ends in an error, for whatever reason
  and after however many bytes, the abort the manager performs on that outcome restores the engine and
  the file system to what they were before the transfer started.\<close>

theorem failed_receive_leaves_no_trace:
  assumes "receive_stream env ts (Local d) tid dev fname sz payload e fs b = (Err x, e1, fs1, b1)"
    and "f_remove (se_faults env) = None" "\<not> thas tid (eng_incoming e)"
    and "f_remove f = None" "abort f tid e1 fs1 = (r, e2, fs2)"
  shows "e2 = e \<and> fs2 = fs"
  using receive_stream_Err [OF assms(1-3)]
proof
  assume "e1 = e \<and> fs1 = fs"
  then show ?thesis using assms(3,5) by (auto simp: abort_def thas_def)
next
  assume "\<exists>part. fs part = None \<and> only_touches tid part e fs e1 fs1"
  then show ?thesis using abort_after_touch assms(3-5) by blast
qed

theorem failed_receive_leaves_no_trace_witness:
  "\<exists>x e1 fs1 b1. receive_stream demo_env no_tools (Local ''/s'') ''t1'' ''d'' ''a'' 9
      (Some \<lparr>arriving = [7, 8], ending = Stall\<rparr>) (engine_new ''/s'') Map.empty [] = (Err x, e1, fs1, b1) \<and>
    snd (abort no_faults ''t1'' e1 fs1) = (engine_new ''/s'', Map.empty)"
proof -
  let ?r = "receive_stream demo_env no_tools (Local ''/s'') ''t1'' ''d'' ''a'' 9
      (Some \<lparr>arriving = [7, 8], ending = Stall\<rparr>) (engine_new ''/s'') Map.empty []"
  have "fst ?r = Err PAYLOAD_TIMED_OUT"
    by (simp add: receive_stream_def engine_eval receive_loop.simps demo_env_def read_step_def read_bytes_def)
  then obtain e1 fs1 b1 where r: "?r = (Err PAYLOAD_TIMED_OUT, e1, fs1, b1)" by (metis prod.collapse)
  obtain a e2 fs2 where ab: "abort no_faults ''t1'' e1 fs1 = (a, e2, fs2)" by (metis prod_cases3)
  have "e2 = engine_new ''/s'' \<and> fs2 = Map.empty"
    by (rule failed_receive_leaves_no_trace [OF r _ _ _ ab])
       (simp_all add: demo_env_def no_faults_def engine_new_def)
  then show ?thesis using r ab by auto
qed

lemma send_loop_exact:
  assumes "\<forall>k. \<not> se_cancelled env k" "\<forall>k. werr k = None" "unat sofar + length content = unat sz"
  shows "\<exists>b'. send_loop env werr tid sz sofar content sent b = (Ok (), sent @ content, b @ b') \<and>
    (\<forall>ev\<in>set b'. \<exists>n. ev = TransferProgress tid n sz \<and> n \<le> sz) \<and>
    (content \<noteq> [] \<longrightarrow> b' \<noteq> [] \<and> last b' = TransferProgress tid sz sz)"
  using assms
proof (induction env werr tid sz sofar content sent b rule: send_loop.induct)
  case (1 env werr tid sz sofar content sent b)
  note unfold = send_loop.simps [of env werr tid sz sofar content sent b]
  show ?case
  proof (cases "content = []")
    case False
    define k where "k = max (Suc 0) (min (se_grain env sofar) (min PAYLOAD_CHUNK_SIZE (length content)))"
    have ok: "\<not> se_cancelled env sofar" "werr sofar = None" using "1.prems" by simp_all
    have k: "0 < k" "k \<le> length content" using False by (auto simp: k_def Suc_le_eq)
    let ?d = "sofar + of_nat k" and ?b = "b @ [TransferProgress tid (sofar + of_nat k) sz]"
    have d: "unat ?d = unat sofar + k"
      using k "1.prems"(3) unsigned_less [where ?'a = nat, of sz] by (intro unat_add_len) simp
    then have dle: "?d \<le> sz" using k "1.prems"(3) by (simp add: word_le_nat_alt)
    show ?thesis
    proof (cases "?d \<ge> sz")
      case True
      then have "?d = sz" using dle by simp
      then have "k = length content" using d "1.prems"(3) by simp
      then have "send_loop env werr tid sz sofar content sent b =
          (Ok (), sent @ content, b @ [TransferProgress tid sz sz])"
        using True False ok \<open>?d = sz\<close> by (simp add: unfold Let_def publish_def flip: k_def)
      then show ?thesis by auto
    next
      case lt: False
      have step: "send_loop env werr tid sz sofar content sent b =
          send_loop env werr tid sz ?d (drop k content) (sent @ take k content) ?b"
        using lt False ok by (simp add: unfold Let_def publish_def flip: k_def)
      have "\<exists>b'. send_loop env werr tid sz ?d (drop k content) (sent @ take k content) ?b =
            (Ok (), (sent @ take k content) @ drop k content, ?b @ b') \<and>
          (\<forall>ev\<in>set b'. \<exists>n. ev = TransferProgress tid n sz \<and> n \<le> sz) \<and>
          (drop k content \<noteq> [] \<longrightarrow> b' \<noteq> [] \<and> last b' = TransferProgress tid sz sz)"
        by (rule "1.IH" [of k ?d ?b])
           (use ok lt False d k "1.prems" in \<open>simp_all add: publish_def flip: k_def\<close>)
      moreover have "drop k content \<noteq> []" using lt d dle "1.prems"(3) k by (auto simp: word_le_nat_alt)
      ultimately show ?thesis unfolding step using dle by auto
    qed
  next
    case True
    have "\<not> se_cancelled env sofar" using "1.prems" by simp
    with True have "send_loop env werr tid sz sofar content sent b = (Ok (), sent @ content, b @ [])"
      unfolding unfold by simp
    with True show ?thesis by auto
  qed
qed

text \<open>Sending a file that still has its announced size transmits exactly its contents, whatever the
  sizes of the individual reads, and reports progress that never exceeds the size and ends at it; the
  temporary copy, if any, is removed.\<close>

lemma stream_outgoing_exact:
  assumes "\<forall>k. \<not> se_cancelled env k" "\<forall>k. werr k = None" "se_faults env = no_faults"
    and "fs loc = Some content" "length content = unat sz" "content \<noteq> []"
  shows "\<exists>b'. stream_outgoing env werr None tid loc cleanup sz fs b =
      (Ok (), content, (case cleanup of None \<Rightarrow> fs | Some tmp \<Rightarrow> fs(tmp := None)), b @ b') \<and>
    (\<forall>ev\<in>set b'. \<exists>n. ev = TransferProgress tid n sz \<and> n \<le> sz) \<and> last b' = TransferProgress tid sz sz"
  using send_loop_exact [OF assms(1,2), of 0 content sz tid "[]" b] assms(3-6)
  by (auto simp: stream_outgoing_def no_faults_def remove_quietly_def split: option.split)

text \<open>
  A file that shrank between the announcement and the reading is reported as sent, and one that grew
  is sent beyond its announced size.
\<close>

lemma shrunk_file_reported_sent:
  "stream_outgoing demo_env (\<lambda>_. None) None ''t1'' ''/f'' None 3 [''/f'' \<mapsto> [1]] [] =
     (Ok (), [1], [''/f'' \<mapsto> [1]], [TransferProgress ''t1'' 1 3])"
  by (simp add: stream_outgoing_def demo_env_def no_faults_def send_loop.simps Let_def PAYLOAD_CHUNK_SIZE_def publish_def)

lemma grown_file_oversent:
  "stream_outgoing demo_env (\<lambda>_. None) None ''t1'' ''/f'' None 1 [''/f'' \<mapsto> [1, 2, 3]] [] =
     (Ok (), [1, 2], [''/f'' \<mapsto> [1, 2, 3]], [TransferProgress ''t1'' 2 1])"
  by (simp add: stream_outgoing_def demo_env_def no_faults_def send_loop.simps Let_def PAYLOAD_CHUNK_SIZE_def publish_def)

text \<open>A staging file left over by an earlier process blocks every later download of that name.\<close>

lemma stale_staging_file_blocks:
  "f_mkdir f = None \<Longrightarrow> f_open f = None \<Longrightarrow> \<not> thas (transfer_id m) (eng_incoming e) \<Longrightarrow>
   fs (join (save_dir e) (sanitize_file_name (file_name m) @ PART_SUFFIX)) \<noteq> None \<Longrightarrow>
   start_receive f m e fs = (Err (CIo AlreadyExists), e, fs)"
  by (simp add: start_receive_def Let_def)

end
