(* ===== verification/Hf_Plugins.thy ===== *)
theory Hf_Plugins
  imports Hf_Packet
begin

text \<open>
  The plugins crate: capability metadata (\<^verbatim>\<open>plugins/src/meta.rs\<close>), the registry (\<^verbatim>\<open>lib.rs\<close>), and every
  packet handler with its state (\<^verbatim>\<open>battery.rs\<close>, \<^verbatim>\<open>find_my_phone.rs\<close>, \<^verbatim>\<open>mpris.rs\<close>, \<^verbatim>\<open>notifications.rs\<close>,
  \<^verbatim>\<open>pause_music.rs\<close>, \<^verbatim>\<open>ping.rs\<close>, \<^verbatim>\<open>run_commands.rs\<close>, \<^verbatim>\<open>share.rs\<close>, \<^verbatim>\<open>system_volume.rs\<close>, \<^verbatim>\<open>telephony.rs\<close>,
  \<^verbatim>\<open>stubs.rs\<close>).

  A handler takes the world outside (the clock and the power supplies found under sysfs), the packet,
  the plugin's state and the packet id counter, and returns the replies, the new state and the
  advanced counter.
\<close>

section \<open>Metadata\<close>

record plugin_meta =
  pm_name :: string
  pm_title :: string
  pm_incoming :: "string list"
  pm_outgoing :: "string list"
  default_enabled :: bool
  requires_wayland :: bool
  requires_dbus :: bool

definition BATTERY :: plugin_meta where
  "BATTERY = \<lparr>pm_name = ''battery'', pm_title = ''Battery report'',
     pm_incoming = [''kdeconnect.battery''], pm_outgoing = [''kdeconnect.battery.request''],
     default_enabled = True, requires_wayland = False, requires_dbus = False\<rparr>"

definition CLIPBOARD :: plugin_meta where
  "CLIPBOARD = \<lparr>pm_name = ''clipboard'', pm_title = ''Clipboard sync'',
     pm_incoming = [''kdeconnect.clipboard''],
     pm_outgoing = [''kdeconnect.clipboard'', ''kdeconnect.clipboard.connect''],
     default_enabled = True, requires_wayland = True, requires_dbus = False\<rparr>"

definition CONNECTIVITY_REPORT :: plugin_meta where
  "CONNECTIVITY_REPORT = \<lparr>pm_name = ''connectivity_report'', pm_title = ''Connectivity report'',
     pm_incoming = [''kdeconnect.connectivity_report''],
     pm_outgoing = [''kdeconnect.connectivity_report.request''],
     default_enabled = True, requires_wayland = False, requires_dbus = False\<rparr>"

definition CONTACTS :: plugin_meta where
  "CONTACTS = \<lparr>pm_name = ''contacts'', pm_title = ''Contacts'',
     pm_incoming = [''kdeconnect.contacts.response_uids_timestamps'',
       ''kdeconnect.contacts.response_vcards''],
     pm_outgoing = [''kdeconnect.contacts.request_all_uids'',
       ''kdeconnect.contacts.request_uids_by_timestamp'', ''kdeconnect.contacts.request_vcards_by_uid''],
     default_enabled = True, requires_wayland = False, requires_dbus = False\<rparr>"

definition FINDMYPHONE :: plugin_meta where
  "FINDMYPHONE = \<lparr>pm_name = ''findmyphone'', pm_title = ''Find my phone'',
     pm_incoming = [''kdeconnect.findmyphone.request''],
     pm_outgoing = [''kdeconnect.findmyphone.request''],
     default_enabled = True, requires_wayland = False, requires_dbus = False\<rparr>"

definition MOUSEPAD :: plugin_meta where
  "MOUSEPAD = \<lparr>pm_name = ''mousepad'', pm_title = ''Remote input'',
     pm_incoming = [''kdeconnect.mousepad.request'', ''kdeconnect.mousepad.keyboardstate''],
     pm_outgoing = [''kdeconnect.mousepad.echo'', ''kdeconnect.mousepad.keyboardstate''],
     default_enabled = True, requires_wayland = True, requires_dbus = False\<rparr>"

definition MPRIS :: plugin_meta where
  "MPRIS = \<lparr>pm_name = ''mpris'', pm_title = ''Media player control'',
     pm_incoming = [''kdeconnect.mpris'', ''kdeconnect.mpris.request''],
     pm_outgoing = [''kdeconnect.mpris'', ''kdeconnect.mpris.request''],
     default_enabled = True, requires_wayland = False, requires_dbus = True\<rparr>"

text \<open>The notifications plugin uses the constant of its own file, not the one of \<^verbatim>\<open>meta.rs\<close>.\<close>

definition NOTIFICATIONS_meta :: plugin_meta where
  "NOTIFICATIONS_meta = \<lparr>pm_name = ''notifications'', pm_title = ''Notifications'',
     pm_incoming = [''kdeconnect.notification'', ''kdeconnect.notification.reply'',
       ''kdeconnect.notification.request''],
     pm_outgoing = [''kdeconnect.notification'', ''kdeconnect.notification.reply'',
       ''kdeconnect.notification.request''],
     default_enabled = True, requires_wayland = False, requires_dbus = True\<rparr>"

definition NOTIFICATIONS :: plugin_meta where
  "NOTIFICATIONS = \<lparr>pm_name = ''notifications'', pm_title = ''Notification sync'',
     pm_incoming = [TYPE_NOTIFICATION, TYPE_NOTIFICATION_REQUEST], pm_outgoing = [TYPE_NOTIFICATION],
     default_enabled = True, requires_wayland = False, requires_dbus = True\<rparr>"

definition PAUSE_MUSIC :: plugin_meta where
  "PAUSE_MUSIC = \<lparr>pm_name = ''pause_music'', pm_title = ''Pause music on call'',
     pm_incoming = [''kdeconnect.telephony''], pm_outgoing = [''kdeconnect.mpris.request''],
     default_enabled = False, requires_wayland = False, requires_dbus = True\<rparr>"

definition PING :: plugin_meta where
  "PING = \<lparr>pm_name = ''ping'', pm_title = ''Ping'',
     pm_incoming = [''kdeconnect.ping''], pm_outgoing = [''kdeconnect.ping''],
     default_enabled = True, requires_wayland = False, requires_dbus = False\<rparr>"

definition RUN_COMMANDS :: plugin_meta where
  "RUN_COMMANDS = \<lparr>pm_name = ''run_commands'', pm_title = ''Run commands'',
     pm_incoming = [''kdeconnect.runcommand'', ''kdeconnect.runcommand.request''],
     pm_outgoing = [''kdeconnect.runcommand'', ''kdeconnect.runcommand.request''],
     default_enabled = True, requires_wayland = False, requires_dbus = False\<rparr>"

definition REMOTE_FILESYSTEM :: plugin_meta where
  "REMOTE_FILESYSTEM = \<lparr>pm_name = ''remote_filesystem'', pm_title = ''Remote filesystem'',
     pm_incoming = [''kdeconnect.sftp''], pm_outgoing = [''kdeconnect.sftp''],
     default_enabled = False, requires_wayland = False, requires_dbus = False\<rparr>"

definition SHARE :: plugin_meta where
  "SHARE = \<lparr>pm_name = ''share'', pm_title = ''Share'',
     pm_incoming = [''kdeconnect.share.request''], pm_outgoing = [''kdeconnect.share.request''],
     default_enabled = True, requires_wayland = False, requires_dbus = False\<rparr>"

definition SMS :: plugin_meta where
  "SMS = \<lparr>pm_name = ''sms'', pm_title = ''SMS messages'',
     pm_incoming = [''kdeconnect.sms.messages'', ''kdeconnect.sms.request''],
     pm_outgoing = [''kdeconnect.sms.messages'', ''kdeconnect.sms.request''],
     default_enabled = True, requires_wayland = False, requires_dbus = False\<rparr>"

definition SYSTEM_VOLUME :: plugin_meta where
  "SYSTEM_VOLUME = \<lparr>pm_name = ''system_volume'', pm_title = ''System volume'',
     pm_incoming = [''kdeconnect.systemvolume'', ''kdeconnect.systemvolume.request''],
     pm_outgoing = [''kdeconnect.systemvolume'', ''kdeconnect.systemvolume.request''],
     default_enabled = True, requires_wayland = False, requires_dbus = False\<rparr>"

definition TELEPHONY :: plugin_meta where
  "TELEPHONY = \<lparr>pm_name = ''telephony'', pm_title = ''Telephony'',
     pm_incoming = [''kdeconnect.telephony''], pm_outgoing = [],
     default_enabled = True, requires_wayland = False, requires_dbus = True\<rparr>"

definition VIRTUAL_INPUT :: plugin_meta where
  "VIRTUAL_INPUT = \<lparr>pm_name = ''virtual_input'', pm_title = ''Virtual input'',
     pm_incoming = [''kdeconnect.virtualinput''], pm_outgoing = [''kdeconnect.virtualinput''],
     default_enabled = True, requires_wayland = True, requires_dbus = False\<rparr>"

lemmas meta_defs = BATTERY_def CLIPBOARD_def CONNECTIVITY_REPORT_def CONTACTS_def FINDMYPHONE_def
  MOUSEPAD_def MPRIS_def NOTIFICATIONS_meta_def NOTIFICATIONS_def PAUSE_MUSIC_def PING_def
  RUN_COMMANDS_def REMOTE_FILESYSTEM_def SHARE_def SMS_def SYSTEM_VOLUME_def TELEPHONY_def
  VIRTUAL_INPUT_def

section \<open>The world of a handler\<close>

text \<open>One power supply directory: its name and the files read from it, where they are readable.\<close>

record power_supply =
  supply_name :: string
  supply_type :: "string option"
  supply_capacity :: "string option"
  supply_status :: "string option"

record plugin_env =
  now :: nat
  power_supplies :: "power_supply list option"

type_synonym 's handled = "packet list \<times> 's \<times> i64"

text \<open>A single reply, built by \<^verbatim>\<open>Packet::new\<close>.\<close>

definition reply :: "i64 \<Rightarrow> string \<Rightarrow> json \<Rightarrow> 's \<Rightarrow> 's handled" where
  "reply c t b s = (let (p, c') = packet_new c t b in ([p], s, c'))"

abbreviation silent :: "'s \<Rightarrow> i64 \<Rightarrow> 's handled" where
  "silent s c \<equiv> ([], s, c)"

section \<open>Ping\<close>

definition ping_handle :: "plugin_env \<Rightarrow> packet \<Rightarrow> nat option \<Rightarrow> i64 \<Rightarrow> nat option handled" where
  "ping_handle env pkt st c = (if ptype pkt \<noteq> TYPE_PING then silent st c
     else reply c TYPE_PING (JObj []) (Some (now env)))"

section \<open>Battery\<close>

definition FALLBACK_LEVEL :: nat where "FALLBACK_LEVEL = 50"

record battery_state =
  level :: nat
  charging :: bool
  reported_at :: nat

record battery_plugin =
  last_report :: "battery_state option"
  battery_cache :: "battery_state table option"
  battery_device :: "string option"

definition battery_new :: battery_plugin where
  "battery_new = \<lparr>last_report = None, battery_cache = None, battery_device = None\<rparr>"

definition build_report :: "i64 \<Rightarrow> nat \<Rightarrow> bool \<Rightarrow> packet \<times> i64" where
  "build_report c lvl chg = packet_new c TYPE_BATTERY
     (JObj [(''currentCharge'', JInt (int (min lvl 100))), (''isCharging'', JBool chg),
            (''thresholdEvent'', JInt 0)])"

definition fallback_state :: "plugin_env \<Rightarrow> battery_state" where
  "fallback_state env = \<lparr>level = FALLBACK_LEVEL, charging = False, reported_at = now env\<rparr>"

definition status_is_charging :: "string \<Rightarrow> bool" where
  "status_is_charging s = (map to_lower (trim_str s) \<in>
     {''charging'', ''full'', ''fast charging'', ''trickle charging''})"

definition parse_u8 :: "string \<Rightarrow> nat option" where
  "parse_u8 s = parse_uint 256 s"

definition read_supply :: "plugin_env \<Rightarrow> power_supply \<Rightarrow> battery_state option" where
  "read_supply env s = (case supply_type s of
       None \<Rightarrow> None
     | Some kind \<Rightarrow>
         if trim_str kind \<noteq> ''Battery'' then None
         else (case supply_capacity s of
             None \<Rightarrow> None
           | Some capacity \<Rightarrow> (case parse_u8 (trim_str capacity) of
                 None \<Rightarrow> None
               | Some lvl \<Rightarrow> if lvl > 100 then None
                   else Some \<lparr>level = lvl, charging = status_is_charging (unwrap_or (supply_status s) ''''),
                              reported_at = now env\<rparr>)))"

fun first_supply :: "plugin_env \<Rightarrow> power_supply list \<Rightarrow> battery_state option" where
  "first_supply env [] = None"
| "first_supply env (s # ss) = (case read_supply env s of Some st \<Rightarrow> Some st | None \<Rightarrow> first_supply env ss)"

text \<open>
  The stable sort on the pair of not starting with BAT and the name: supplies named BAT* first, each
  group by name.
\<close>

definition order_supplies :: "power_supply list \<Rightarrow> power_supply list" where
  "order_supplies ss =
     sort_key supply_name (filter (\<lambda>s. prefix ''BAT'' (supply_name s)) ss) @
     sort_key supply_name (filter (\<lambda>s. \<not> prefix ''BAT'' (supply_name s)) ss)"

definition read_local_battery :: "plugin_env \<Rightarrow> battery_state option" where
  "read_local_battery env = (case power_supplies env of None \<Rightarrow> None
     | Some ss \<Rightarrow> first_supply env (order_supplies ss))"

definition record_remote :: "plugin_env \<Rightarrow> packet \<Rightarrow> battery_plugin \<Rightarrow> battery_plugin" where
  "record_remote env pkt st = (case get_u64 (body pkt) ''currentCharge'' of
       None \<Rightarrow> st
     | Some raw \<Rightarrow>
         let b = \<lparr>level = min raw 100, charging = unwrap_or (get_bool (body pkt) ''isCharging'') False,
                  reported_at = now env\<rparr>;
             st' = (case (battery_cache st, battery_device st) of
                (Some cache, Some dev) \<Rightarrow> st\<lparr>battery_cache := Some (tput dev b cache)\<rparr>
              | _ \<Rightarrow> st)
         in st'\<lparr>last_report := Some b\<rparr>)"

definition battery_handle :: "plugin_env \<Rightarrow> packet \<Rightarrow> battery_plugin \<Rightarrow> i64 \<Rightarrow> battery_plugin handled" where
  "battery_handle env pkt st c =
     (if ptype pkt = TYPE_BATTERY_REQUEST then
        let b = (case read_local_battery env of Some b \<Rightarrow> b | None \<Rightarrow> fallback_state env);
            (p, c') = build_report c (level b) (charging b)
        in ([p], st, c')
      else if ptype pkt = TYPE_BATTERY then silent (record_remote env pkt st) c
      else silent st c)"

section \<open>Run commands\<close>

definition non_empty :: "string option \<Rightarrow> string option" where
  "non_empty x = (case x of Some s \<Rightarrow> if s = [] then None else Some s | None \<Rightarrow> None)"

definition set_commands :: "(string \<times> string) list \<Rightarrow> string table" where
  "set_commands cmds = fold (\<lambda>(n, c). tput n c) cmds []"

definition run_request :: "packet \<Rightarrow> string table \<Rightarrow> i64 \<Rightarrow> string table handled" where
  "run_request pkt st c = (case non_empty (get_str (body pkt) ''name'') of
       None \<Rightarrow> silent st c
     | Some n \<Rightarrow> (case tget n st of
           None \<Rightarrow> silent st c
         | Some command \<Rightarrow>
             reply c TYPE_RUNCOMMAND_REQUEST (JObj [(''name'', JStr n), (''command'', JStr command)]) st))"

definition parse_entry :: "json \<Rightarrow> (string \<times> string) option" where
  "parse_entry j = (case as_object j of
       None \<Rightarrow> None
     | Some obj \<Rightarrow> (case (non_empty (Option.bind (tget ''name'' obj) as_str),
                         non_empty (Option.bind (tget ''command'' obj) as_str)) of
           (Some n, Some c) \<Rightarrow> Some (n, c)
         | _ \<Rightarrow> None))"

definition run_sync :: "packet \<Rightarrow> string table \<Rightarrow> i64 \<Rightarrow> string table handled" where
  "run_sync pkt st c = (case get_with as_array (body pkt) ''commandList'' of
       None \<Rightarrow> silent st c
     | Some entries \<Rightarrow>
         let synced = set_commands (List.map_filter parse_entry entries) in
         if entries \<noteq> [] \<and> synced = [] then silent st c else silent synced c)"

definition run_commands_handle :: "plugin_env \<Rightarrow> packet \<Rightarrow> string table \<Rightarrow> i64 \<Rightarrow> string table handled" where
  "run_commands_handle env pkt st c =
     (if ptype pkt = TYPE_RUNCOMMAND_REQUEST then run_request pkt st c
      else if ptype pkt = TYPE_RUNCOMMAND then run_sync pkt st c
      else silent st c)"

section \<open>Share\<close>

datatype share_item = ShareUrl string | ShareText string | FileMeta string nat

definition str_field :: "json table \<Rightarrow> string \<Rightarrow> string option" where
  "str_field obj k = non_empty (Option.bind (tget k obj) as_str)"

definition classify_share :: "json \<Rightarrow> share_item option" where
  "classify_share b = (case as_object b of
       None \<Rightarrow> None
     | Some obj \<Rightarrow> (case str_field obj ''url'' of
           Some url \<Rightarrow> Some (ShareUrl url)
         | None \<Rightarrow> (case str_field obj ''text'' of
               Some t \<Rightarrow> Some (ShareText t)
             | None \<Rightarrow> (case str_field obj ''filename'' of
                   None \<Rightarrow> None
                 | Some n \<Rightarrow> (case Option.bind (tget ''fileSize'' obj) as_u64 of
                       None \<Rightarrow> None
                     | Some sz \<Rightarrow> Some (FileMeta n sz))))))"

definition share_handle :: "plugin_env \<Rightarrow> packet \<Rightarrow> share_item list \<Rightarrow> i64 \<Rightarrow> share_item list handled" where
  "share_handle env pkt st c = (if ptype pkt \<noteq> TYPE_SHARE then silent st c
     else (case classify_share (body pkt) of
         Some item \<Rightarrow> silent (st @ [item]) c
       | None \<Rightarrow> silent st c))"

definition take_pending :: "share_item list \<Rightarrow> share_item list \<times> share_item list" where
  "take_pending st = (st, [])"

definition send_url :: "i64 \<Rightarrow> string \<Rightarrow> packet \<times> i64" where
  "send_url c url = packet_new c TYPE_SHARE (JObj [(''url'', JStr url)])"

definition send_text :: "i64 \<Rightarrow> string \<Rightarrow> packet \<times> i64" where
  "send_text c t = packet_new c TYPE_SHARE (JObj [(''text'', JStr t)])"

section \<open>Notifications\<close>

definition str_or_empty :: "json \<Rightarrow> string \<Rightarrow> string" where
  "str_or_empty b k = unwrap_or (get_str b k) ''''"

definition notifications_handle :: "plugin_env \<Rightarrow> packet \<Rightarrow> string table \<Rightarrow> i64 \<Rightarrow> string table handled" where
  "notifications_handle env pkt st c =
     (let b = body pkt in
      if ptype pkt = TYPE_NOTIFICATION then
        let app_name = str_or_empty b ''appName''; title = str_or_empty b ''title'';
            txt = str_or_empty b ''text''; i = str_or_empty b ''id''
        in if title = [] \<and> txt = [] then silent st c
           else reply c TYPE_NOTIFICATION
                  (JObj [(''id'', JStr i), (''appName'', JStr app_name), (''title'', JStr title), (''text'', JStr txt)])
                  (if i \<noteq> [] then tput i i st else st)
      else if ptype pkt = TYPE_NOTIFICATION_REQUEST then
        let action = str_or_empty b ''action''; key = str_or_empty b ''key''
        in if action = ''dismiss'' \<and> key \<noteq> [] then silent (tdel key st) c else silent st c
      else silent st c)"

section \<open>Find my phone\<close>

definition apply_action :: "json \<Rightarrow> bool \<Rightarrow> i64 \<Rightarrow> packet option \<times> bool \<times> i64" where
  "apply_action b ringing c = (case get_str b ''action'' of
       None \<Rightarrow> (None, ringing, c)
     | Some a \<Rightarrow>
         if a = ''start'' then let (p, c') = packet_new c TYPE_FINDMYPHONE b in (Some p, True, c')
         else if a = ''stop'' then let (p, c') = packet_new c TYPE_FINDMYPHONE b in (Some p, False, c')
         else (None, ringing, c))"

definition find_my_phone_handle :: "plugin_env \<Rightarrow> packet \<Rightarrow> bool \<Rightarrow> i64 \<Rightarrow> bool handled" where
  "find_my_phone_handle env pkt st c = (if ptype pkt \<noteq> TYPE_FINDMYPHONE then silent st c
     else (case apply_action (body pkt) st c of
         (Some echo, st', c') \<Rightarrow> ([echo], st', c')
       | (None, st', c') \<Rightarrow> ([], st', c')))"

section \<open>System volume\<close>

record volume_state =
  sink_description :: "string option"
  volume :: nat
  muted :: bool

text \<open>Rounding half away from zero, as \<^verbatim>\<open>f64::round\<close> does, on a value clamped to at least zero.\<close>

definition round_percent :: "rat \<Rightarrow> nat" where
  "round_percent r = nat (floor (max 0 (min r 100) + 1 / 2))"

definition extract_state :: "json \<Rightarrow> volume_state option" where
  "extract_state b = (case as_object b of
       None \<Rightarrow> None
     | Some obj \<Rightarrow> (case Option.bind (tget ''volume'' obj) as_f64 of
           None \<Rightarrow> None
         | Some raw \<Rightarrow>
             let flag = (case tget ''muted'' obj of Some j \<Rightarrow> Some j | None \<Rightarrow> tget ''mute'' obj) in
             Some \<lparr>sink_description = Option.bind (tget ''sink_description'' obj) as_str,
                   volume = round_percent raw, muted = unwrap_or (Option.bind flag as_bool) False\<rparr>))"

definition observe_volume :: "json \<Rightarrow> volume_state option \<Rightarrow> volume_state option" where
  "observe_volume b st = (case extract_state b of None \<Rightarrow> st | Some v \<Rightarrow> Some v)"

definition system_volume_handle ::
  "plugin_env \<Rightarrow> packet \<Rightarrow> volume_state option \<Rightarrow> i64 \<Rightarrow> volume_state option handled" where
  "system_volume_handle env pkt st c = (if ptype pkt \<noteq> TYPE_SYSTEMVOLUME then silent st c
     else silent (observe_volume (body pkt) st) c)"

definition volume_report :: "i64 \<Rightarrow> nat \<Rightarrow> bool \<Rightarrow> packet \<times> i64" where
  "volume_report c percent mute = packet_new c TYPE_SYSTEMVOLUME
     (JObj [(''direction'', JStr ''in''), (''volume'', JInt (int (min percent 100))), (''mute'', JBool mute)])"

section \<open>Pause music\<close>

record pause_music =
  known :: "string list"
  paused_players :: "string list"

definition known_players :: "pause_music \<Rightarrow> string list" where
  "known_players st = sort (known st)"

definition transport_request :: "i64 \<Rightarrow> string \<Rightarrow> string \<Rightarrow> packet \<times> i64" where
  "transport_request c player action = packet_new c TYPE_MPRIS_REQUEST
     (JObj [(''player'', JStr player), (''action'', JStr action)])"

fun transport_requests :: "i64 \<Rightarrow> string \<Rightarrow> string list \<Rightarrow> packet list \<times> i64" where
  "transport_requests c action [] = ([], c)"
| "transport_requests c action (n # ns) =
     (let (p, c') = transport_request c n action; (ps, c'') = transport_requests c' action ns
      in (p # ps, c''))"

definition pause_all :: "pause_music \<Rightarrow> i64 \<Rightarrow> pause_music handled" where
  "pause_all st c = (let targets = known_players st; (ps, c') = transport_requests c ''Pause'' targets
     in (ps, st\<lparr>paused_players := fold List.insert targets (paused_players st)\<rparr>, c'))"

definition resume_all :: "pause_music \<Rightarrow> i64 \<Rightarrow> pause_music handled" where
  "resume_all st c = (let targets = sort (paused_players st); (ps, c') = transport_requests c ''Play'' targets
     in (ps, st\<lparr>paused_players := []\<rparr>, c'))"

definition remember_player :: "string \<Rightarrow> pause_music \<Rightarrow> pause_music" where
  "remember_player n st = (if n = [] then st else st\<lparr>known := List.insert n (known st)\<rparr>)"

definition learn_players :: "json \<Rightarrow> pause_music \<Rightarrow> pause_music" where
  "learn_players b st =
     (let st1 = (case get_with as_array b ''playerList'' of
            None \<Rightarrow> st
          | Some es \<Rightarrow> fold (\<lambda>e s. case get_str e ''name'' of Some n \<Rightarrow> remember_player n s | None \<Rightarrow> s) es st)
      in (case get_str b ''player'' of Some n \<Rightarrow> remember_player n st1 | None \<Rightarrow> st1))"

definition pause_music_handle :: "plugin_env \<Rightarrow> packet \<Rightarrow> pause_music \<Rightarrow> i64 \<Rightarrow> pause_music handled" where
  "pause_music_handle env pkt st c = (if ptype pkt \<noteq> TYPE_MPRIS then silent st c
     else silent (learn_players (body pkt) st) c)"

section \<open>Media players\<close>

definition AUTO_PLAYER :: string where "AUTO_PLAYER = ''auto''"

datatype mpris_action = Play | Pause | PlayPause | Stop | Next | Previous

definition action_str :: "mpris_action \<Rightarrow> string" where
  "action_str a = (case a of Play \<Rightarrow> ''Play'' | Pause \<Rightarrow> ''Pause'' | PlayPause \<Rightarrow> ''PlayPause''
     | Stop \<Rightarrow> ''Stop'' | Next \<Rightarrow> ''Next'' | Previous \<Rightarrow> ''Previous'')"

definition parse_action :: "string \<Rightarrow> mpris_action option" where
  "parse_action s = (if s = ''Play'' then Some Play else if s = ''Pause'' then Some Pause
     else if s = ''PlayPause'' then Some PlayPause else if s = ''Stop'' then Some Stop
     else if s = ''Next'' then Some Next else if s = ''Previous'' then Some Previous else None)"

definition mpris_request :: "json \<Rightarrow> string option \<Rightarrow> i64 \<Rightarrow> string option handled" where
  "mpris_request b st c = (case (get_str b ''player'', get_str b ''action'') of
       (Some player, Some raw) \<Rightarrow> (case parse_action raw of
           None \<Rightarrow> silent st c
         | Some action \<Rightarrow> (case (if player = AUTO_PLAYER then st else Some player) of
               None \<Rightarrow> silent st c
             | Some resolved \<Rightarrow>
                 reply c TYPE_MPRIS_REQUEST
                   (JObj [(''player'', JStr resolved), (''action'', JStr (action_str action)), (''ack'', JBool True)])
                   (Some resolved)))
     | _ \<Rightarrow> silent st c)"

definition mpris_handle :: "plugin_env \<Rightarrow> packet \<Rightarrow> string option \<Rightarrow> i64 \<Rightarrow> string option handled" where
  "mpris_handle env pkt st c = (if ptype pkt \<noteq> TYPE_MPRIS_REQUEST then silent st c
     else mpris_request (body pkt) st c)"

section \<open>Telephony\<close>

definition EVENT_RINGING :: string where "EVENT_RINGING = ''ringing''"

record telephony =
  last_call_state :: "string option"
  last_phone_number :: "string option"
  pause_music_on_ring :: bool

definition telephony_new :: telephony where
  "telephony_new = \<lparr>last_call_state = None, last_phone_number = None, pause_music_on_ring = False\<rparr>"

definition last_event :: "telephony \<Rightarrow> (string \<times> string) option" where
  "last_event st = (case (last_call_state st, last_phone_number st) of
     (Some s, Some n) \<Rightarrow> Some (s, n) | _ \<Rightarrow> None)"

definition record_telephony :: "packet \<Rightarrow> telephony \<Rightarrow> i64 \<Rightarrow> telephony handled" where
  "record_telephony pkt st c = (case get_str (body pkt) ''event'' of
       None \<Rightarrow> silent st c
     | Some ev \<Rightarrow>
         let number = str_or_empty (body pkt) ''phoneNumber'';
             st' = st\<lparr>last_call_state := Some ev, last_phone_number := Some number\<rparr>
         in if ev = EVENT_RINGING \<and> pause_music_on_ring st'
            then reply c TYPE_MPRIS_REQUEST (JObj [(''player'', JStr ''''), (''action'', JStr ''PlayPause'')]) st'
            else silent st' c)"

definition telephony_handle :: "plugin_env \<Rightarrow> packet \<Rightarrow> telephony \<Rightarrow> i64 \<Rightarrow> telephony handled" where
  "telephony_handle env pkt st c = (if ptype pkt \<noteq> TYPE_TELEPHONY then silent st c
     else record_telephony pkt st c)"

section \<open>Plugin instances and the registry\<close>

datatype plugin =
    BatteryPlugin battery_plugin
  | StubPlugin plugin_meta
  | FindMyPhonePlugin bool
  | MprisPlugin "string option"
  | NotificationsPlugin "string table"
  | PauseMusicPlugin pause_music
  | PingPlugin "nat option"
  | RunCommandsPlugin "string table"
  | SharePlugin "share_item list"
  | SystemVolumePlugin "volume_state option"
  | TelephonyPlugin telephony

fun plugin_meta_of :: "plugin \<Rightarrow> plugin_meta" where
  "plugin_meta_of (BatteryPlugin _) = BATTERY"
| "plugin_meta_of (StubPlugin m) = m"
| "plugin_meta_of (FindMyPhonePlugin _) = FINDMYPHONE"
| "plugin_meta_of (MprisPlugin _) = MPRIS"
| "plugin_meta_of (NotificationsPlugin _) = NOTIFICATIONS"
| "plugin_meta_of (PauseMusicPlugin _) = PAUSE_MUSIC"
| "plugin_meta_of (PingPlugin _) = PING"
| "plugin_meta_of (RunCommandsPlugin _) = RUN_COMMANDS"
| "plugin_meta_of (SharePlugin _) = SHARE"
| "plugin_meta_of (SystemVolumePlugin _) = SYSTEM_VOLUME"
| "plugin_meta_of (TelephonyPlugin _) = TELEPHONY"

definition wrap :: "('s \<Rightarrow> plugin) \<Rightarrow> 's handled \<Rightarrow> plugin handled" where
  "wrap f h = (case h of (ps, s, c) \<Rightarrow> (ps, f s, c))"

fun plugin_handle :: "plugin_env \<Rightarrow> packet \<Rightarrow> plugin \<Rightarrow> i64 \<Rightarrow> plugin handled" where
  "plugin_handle env p (BatteryPlugin s) c = wrap BatteryPlugin (battery_handle env p s c)"
| "plugin_handle env p (StubPlugin m) c = silent (StubPlugin m) c"
| "plugin_handle env p (FindMyPhonePlugin s) c = wrap FindMyPhonePlugin (find_my_phone_handle env p s c)"
| "plugin_handle env p (MprisPlugin s) c = wrap MprisPlugin (mpris_handle env p s c)"
| "plugin_handle env p (NotificationsPlugin s) c = wrap NotificationsPlugin (notifications_handle env p s c)"
| "plugin_handle env p (PauseMusicPlugin s) c = wrap PauseMusicPlugin (pause_music_handle env p s c)"
| "plugin_handle env p (PingPlugin s) c = wrap PingPlugin (ping_handle env p s c)"
| "plugin_handle env p (RunCommandsPlugin s) c = wrap RunCommandsPlugin (run_commands_handle env p s c)"
| "plugin_handle env p (SharePlugin s) c = wrap SharePlugin (share_handle env p s c)"
| "plugin_handle env p (SystemVolumePlugin s) c = wrap SystemVolumePlugin (system_volume_handle env p s c)"
| "plugin_handle env p (TelephonyPlugin s) c = wrap TelephonyPlugin (telephony_handle env p s c)"

text \<open>\<^verbatim>\<open>registry()\<close> with every factory's \<^verbatim>\<open>create\<close> called, as the manager does for a new device.\<close>

definition registry :: "plugin list" where
  "registry =
     [BatteryPlugin battery_new, StubPlugin CLIPBOARD, StubPlugin CONNECTIVITY_REPORT,
      StubPlugin CONTACTS, FindMyPhonePlugin False, StubPlugin MOUSEPAD, MprisPlugin None,
      NotificationsPlugin [], PauseMusicPlugin \<lparr>known = [], paused_players = []\<rparr>, PingPlugin None,
      RunCommandsPlugin [], StubPlugin REMOTE_FILESYSTEM, SharePlugin [], StubPlugin SMS,
      SystemVolumePlugin None, TelephonyPlugin telephony_new, StubPlugin VIRTUAL_INPUT]"

text \<open>The packet types a handler acts on, from its match arms, and those it may answer with.\<close>

fun accepts_of :: "plugin \<Rightarrow> string list" where
  "accepts_of (BatteryPlugin _) = [TYPE_BATTERY_REQUEST, TYPE_BATTERY]"
| "accepts_of (StubPlugin _) = []"
| "accepts_of (FindMyPhonePlugin _) = [TYPE_FINDMYPHONE]"
| "accepts_of (MprisPlugin _) = [TYPE_MPRIS_REQUEST]"
| "accepts_of (NotificationsPlugin _) = [TYPE_NOTIFICATION, TYPE_NOTIFICATION_REQUEST]"
| "accepts_of (PauseMusicPlugin _) = [TYPE_MPRIS]"
| "accepts_of (PingPlugin _) = [TYPE_PING]"
| "accepts_of (RunCommandsPlugin _) = [TYPE_RUNCOMMAND_REQUEST, TYPE_RUNCOMMAND]"
| "accepts_of (SharePlugin _) = [TYPE_SHARE]"
| "accepts_of (SystemVolumePlugin _) = [TYPE_SYSTEMVOLUME]"
| "accepts_of (TelephonyPlugin _) = [TYPE_TELEPHONY]"

fun emits_of :: "plugin \<Rightarrow> string list" where
  "emits_of (BatteryPlugin _) = [TYPE_BATTERY]"
| "emits_of (FindMyPhonePlugin _) = [TYPE_FINDMYPHONE]"
| "emits_of (MprisPlugin _) = [TYPE_MPRIS_REQUEST]"
| "emits_of (NotificationsPlugin _) = [TYPE_NOTIFICATION]"
| "emits_of (PingPlugin _) = [TYPE_PING]"
| "emits_of (RunCommandsPlugin _) = [TYPE_RUNCOMMAND_REQUEST]"
| "emits_of (TelephonyPlugin _) = [TYPE_MPRIS_REQUEST]"
| "emits_of _ = []"

text \<open>A plugin's replies to a sequence of packets.\<close>

fun handle_all :: "(plugin_env \<Rightarrow> packet \<Rightarrow> 's \<Rightarrow> i64 \<Rightarrow> 's handled) \<Rightarrow> plugin_env \<Rightarrow> packet list \<Rightarrow> 's \<Rightarrow> i64 \<Rightarrow>
    's handled" where
  "handle_all h env [] s c = ([], s, c)"
| "handle_all h env (p # ps) s c =
     (let (rs, s', c') = h env p s c; (rs', s'', c'') = handle_all h env ps s' c' in (rs @ rs', s'', c''))"

section \<open>The contract of a packet handler\<close>

locale packet_handler =
  fixes handle :: "plugin_env \<Rightarrow> packet \<Rightarrow> 's \<Rightarrow> i64 \<Rightarrow> 's handled"
    and accepts :: "string list"
    and emits :: "string list"
  assumes foreign: "ptype p \<notin> set accepts \<Longrightarrow> handle env p s c = ([], s, c)"
    and one_reply: "handle env p s c = (rs, s', c') \<Longrightarrow> length rs \<le> 1 \<and> c' = c + of_nat (length rs)"
    and reply_type: "handle env p s c = (rs, s', c') \<Longrightarrow> r \<in> set rs \<Longrightarrow>
      ptype r \<in> set emits \<and> payload_transfer_info r = None"
begin

lemma silent_handler: "emits = [] \<Longrightarrow> handle env p s c = (rs, s', c') \<Longrightarrow> rs = []"
  using reply_type [of env p s c rs s' c' "hd rs"] by (cases rs) auto

text \<open>Packets of other types may be left out of a sequence without a trace.\<close>

lemma handle_all_filter:
  "handle_all handle env ps s c = handle_all handle env (filter (\<lambda>p. ptype p \<in> set accepts) ps) s c"
  by (induction ps arbitrary: s c) (auto simp: foreign split: prod.splits)

lemma handle_all_count:
  "handle_all handle env ps s c = (rs, s', c') \<Longrightarrow>
     length rs \<le> length ps \<and> c' = c + of_nat (length rs) \<and> (\<forall>r\<in>set rs. ptype r \<in> set emits)"
proof (induction ps arbitrary: s c rs)
  case (Cons p ps)
  obtain r1 s1 c1 where h: "handle env p s c = (r1, s1, c1)" by (metis prod_cases3)
  obtain r2 where t: "handle_all handle env ps s1 c1 = (r2, s', c')" "rs = r1 @ r2"
    using Cons.prems h by (auto split: prod.splits)
  from Cons.IH [OF t(1)] one_reply [OF h] reply_type [OF h] t(2) show ?case by auto
qed simp

end

lemma reply_simps [simp]:
  "reply c t b s = ([\<lparr>packet_id = c + 1, ptype = t, body = b, payload_size = None, payload_transfer_info = None\<rparr>], s, c + 1)"
  by (simp add: reply_def packet_new_def next_packet_id_def)

lemma packet_new_simps [simp]:
  "packet_new c t b = (\<lparr>packet_id = c + 1, ptype = t, body = b, payload_size = None, payload_transfer_info = None\<rparr>, c + 1)"
  by (simp add: packet_new_def next_packet_id_def)

interpretation ping: packet_handler ping_handle "[TYPE_PING]" "[TYPE_PING]"
  by unfold_locales (auto simp: ping_handle_def split: if_splits)

interpretation battery: packet_handler battery_handle "[TYPE_BATTERY_REQUEST, TYPE_BATTERY]" "[TYPE_BATTERY]"
  by unfold_locales (auto simp: battery_handle_def build_report_def Let_def split: if_splits)

interpretation run_commands: packet_handler run_commands_handle
  "[TYPE_RUNCOMMAND_REQUEST, TYPE_RUNCOMMAND]" "[TYPE_RUNCOMMAND_REQUEST]"
  by unfold_locales
     (auto simp: run_commands_handle_def run_request_def run_sync_def Let_def split: if_splits option.splits)

interpretation share: packet_handler share_handle "[TYPE_SHARE]" "[]"
  by unfold_locales (auto simp: share_handle_def split: if_splits option.splits)

interpretation notifications: packet_handler notifications_handle
  "[TYPE_NOTIFICATION, TYPE_NOTIFICATION_REQUEST]" "[TYPE_NOTIFICATION]"
  by unfold_locales (auto simp: notifications_handle_def Let_def split: if_splits)

interpretation find_my_phone: packet_handler find_my_phone_handle "[TYPE_FINDMYPHONE]" "[TYPE_FINDMYPHONE]"
  by unfold_locales (auto simp: find_my_phone_handle_def apply_action_def split: if_splits option.splits)

interpretation system_volume: packet_handler system_volume_handle "[TYPE_SYSTEMVOLUME]" "[]"
  by unfold_locales (auto simp: system_volume_handle_def split: if_splits)

interpretation pause_music: packet_handler pause_music_handle "[TYPE_MPRIS]" "[]"
  by unfold_locales (auto simp: pause_music_handle_def split: if_splits)

interpretation mpris: packet_handler mpris_handle "[TYPE_MPRIS_REQUEST]" "[TYPE_MPRIS_REQUEST]"
  by unfold_locales (auto simp: mpris_handle_def mpris_request_def split: if_splits option.splits)

interpretation telephony: packet_handler telephony_handle "[TYPE_TELEPHONY]" "[TYPE_MPRIS_REQUEST]"
  by unfold_locales (auto simp: telephony_handle_def record_telephony_def Let_def split: if_splits option.splits)

lemmas foreign_packets = ping.foreign battery.foreign run_commands.foreign share.foreign
  notifications.foreign find_my_phone.foreign system_volume.foreign pause_music.foreign
  mpris.foreign telephony.foreign

lemmas single_replies = ping.one_reply battery.one_reply run_commands.one_reply share.one_reply
  notifications.one_reply find_my_phone.one_reply system_volume.one_reply pause_music.one_reply
  mpris.one_reply telephony.one_reply

lemmas reply_types = ping.reply_type battery.reply_type run_commands.reply_type share.reply_type
  notifications.reply_type find_my_phone.reply_type system_volume.reply_type pause_music.reply_type
  mpris.reply_type telephony.reply_type

lemma plugin_handle_foreign: "ptype p \<notin> set (accepts_of pl) \<Longrightarrow> plugin_handle env p pl c = ([], pl, c)"
  by (cases pl) (simp_all add: wrap_def foreign_packets)

lemma plugin_handle_reply:
  assumes "plugin_handle env p pl c = (rs, pl', c')"
  shows "length rs \<le> 1 \<and> c' = c + of_nat (length rs) \<and>
    (\<forall>r\<in>set rs. ptype r \<in> set (emits_of pl) \<and> payload_transfer_info r = None)"
  using assms
  by (cases pl) (auto simp: wrap_def split: prod.splits
      dest: single_replies reply_types share.silent_handler [OF refl] system_volume.silent_handler [OF refl]
        pause_music.silent_handler [OF refl])

lemma plugin_handle_meta:
  "plugin_handle env p pl c = (rs, pl', c') \<Longrightarrow> plugin_meta_of pl' = plugin_meta_of pl \<and> accepts_of pl' = accepts_of pl"
  by (cases pl) (auto simp: wrap_def split: prod.splits)

lemma tget_set_commands: "tget n (set_commands cmds) = map_of (rev cmds) n"
proof -
  have "tget n (fold (\<lambda>(n, c). tput n c) cmds t) = (case map_of (rev cmds) n of Some c \<Rightarrow> Some c | None \<Rightarrow> tget n t)" for t
    by (induction cmds arbitrary: t) (auto simp: map_add_def split: option.splits)
  from this [of "[]"] show ?thesis by (simp add: set_commands_def split: option.splits)
qed

lemma set_commands_Nil: "set_commands cmds = [] \<longleftrightarrow> cmds = []"
proof
  assume "set_commands cmds = []"
  then have "map_of (rev cmds) n = None" for n using tget_set_commands [of n cmds] by simp
  then show "cmds = []" by (metis list.set_intros(1) map_of_eq_None_iff list.exhaust rev.simps(1) rev_rev_ident list.simps(9) image_set list.set_map)
qed (simp add: set_commands_def)

lemma transport_requests_body:
  "transport_requests c a ns = (ps, c') \<Longrightarrow>
     map body ps = map (\<lambda>n. JObj [(''player'', JStr n), (''action'', JStr a)]) ns \<and>
     (\<forall>p\<in>set ps. ptype p = TYPE_MPRIS_REQUEST)"
  by (induction ns arbitrary: c ps c') (auto simp: transport_request_def split: prod.splits)

lemma round_percent_le: "round_percent r \<le> 100"
proof -
  have "max 0 (min r 100) + 1 / 2 < 101" by (simp add: min_def max_def)
  then have "floor (max 0 (min r 100) + 1 / 2) < 101" by (simp only: floor_less_iff of_int_numeral)
  then show ?thesis unfolding round_percent_def nat_le_iff by linarith
qed

lemma fold_List_insert:
  "set (fold List.insert xs ys) = set xs \<union> set ys" "distinct ys \<Longrightarrow> distinct (fold List.insert xs ys)"
  by (induction xs arbitrary: ys) auto

lemma sort_distinct: "distinct xs \<Longrightarrow> sort xs = sorted_list_of_set (set xs)"
  by (simp add: sorted_list_of_set_sort_remdups distinct_remdups_id)

lemma read_supply_le: "read_supply env s = Some b \<Longrightarrow> level b \<le> 100"
  by (auto simp: read_supply_def split: option.splits if_splits)

lemma first_supply_le: "first_supply env ss = Some b \<Longrightarrow> level b \<le> 100"
  by (induction ss) (auto split: option.splits dest: read_supply_le)

section \<open>Properties\<close>



text \<open>Executing by name: after a peer's command list was accepted, a request naming \<open>n\<close> is answered
  with the command of the last usable entry for \<open>n\<close>, and a request for a name no usable entry has is not
  answered.\<close>

lemma run_commands_resolve_last:
  assumes "ptype sync = TYPE_RUNCOMMAND" "get_with as_array (body sync) ''commandList'' = Some entries"
    and "List.map_filter parse_entry entries \<noteq> []"
    and "ptype req = TYPE_RUNCOMMAND_REQUEST" "get_str (body req) ''name'' = Some n" "n \<noteq> []"
  shows "map body (fst (run_commands_handle env req (fst (snd (run_commands_handle env sync st c))) c')) =
    (case map_of (rev (List.map_filter parse_entry entries)) n of
       None \<Rightarrow> []
     | Some cmd \<Rightarrow> [JObj [(''name'', JStr n), (''command'', JStr cmd)]])"
  using assms
  by (simp add: run_commands_handle_def run_sync_def run_request_def non_empty_def Let_def
      tget_set_commands set_commands_Nil type_defs split: option.splits)

definition demo_sync :: packet where
  "demo_sync = demo_packet\<lparr>ptype := TYPE_RUNCOMMAND, body := JObj [(''commandList'', JArr
     [JObj [(''name'', JStr ''a''), (''command'', JStr ''one'')], JNull,
      JObj [(''name'', JStr ''a''), (''command'', JStr ''two'')]])]\<rparr>"

definition demo_request :: packet where
  "demo_request = demo_packet\<lparr>ptype := TYPE_RUNCOMMAND_REQUEST, body := JObj [(''name'', JStr ''a'')]\<rparr>"

text \<open>Pausing and resuming are inverse: resuming after a pause asks exactly the players that were
  known or already paused to play again, each once and in order, and a second resume asks none.\<close>

lemma resume_restores_paused:
  assumes "distinct (known st)" "distinct (paused_players st)"
    and "pause_all st c = (ps, st1, c1)" and "resume_all st1 c1 = (rs, st2, c2)"
  shows "map body ps = map (\<lambda>n. JObj [(''player'', JStr n), (''action'', JStr ''Pause'')]) (known_players st) \<and>
    map body rs = map (\<lambda>n. JObj [(''player'', JStr n), (''action'', JStr ''Play'')])
      (sorted_list_of_set (set (known st) \<union> set (paused_players st))) \<and>
    fst (resume_all st2 c2) = [] \<and> known st2 = known st"
proof -
  let ?paused = "fold List.insert (known_players st) (paused_players st)"
  have st1: "st1 = st\<lparr>paused_players := ?paused\<rparr>"
    and ps: "transport_requests c ''Pause'' (known_players st) = (ps, c1)"
    using assms(3) by (auto simp: pause_all_def Let_def split: prod.splits)
  have "sort ?paused = sorted_list_of_set (set (known st) \<union> set (paused_players st))"
    using assms(2) by (subst sort_distinct) (simp_all add: fold_List_insert known_players_def)
  then have rs: "transport_requests c1 ''Play'' (sorted_list_of_set (set (known st) \<union> set (paused_players st))) = (rs, c2)"
    and st2: "st2 = st1\<lparr>paused_players := []\<rparr>"
    using assms(4) by (auto simp: resume_all_def Let_def st1 split: prod.splits)
  show ?thesis
    using transport_requests_body [OF ps] transport_requests_body [OF rs] st1 st2
    by (simp add: resume_all_def)
qed

text \<open>Percentages shown to a user are in range: whatever a peer or the kernel reports, the stored
  battery level, the level read from local supplies and the level sent in a report are at most 100,
  and so is a stored volume.\<close>

lemma percentages_in_range:
  "(\<forall>b. last_report (record_remote env pkt st) = Some b \<longrightarrow> last_report st = Some b \<or> level b \<le> 100) \<and>
   (\<forall>b. read_local_battery env = Some b \<longrightarrow> level b \<le> 100) \<and>
   (\<exists>k. jget (body (fst (build_report c lvl chg))) ''currentCharge'' = Some (JInt k) \<and> 0 \<le> k \<and> k \<le> 100) \<and>
   (\<forall>v. extract_state j = Some v \<longrightarrow> volume v \<le> 100)"
proof (intro conjI)
  show "\<forall>b. last_report (record_remote env pkt st) = Some b \<longrightarrow> last_report st = Some b \<or> level b \<le> 100"
    by (auto simp: record_remote_def Let_def split: option.splits)
  show "\<forall>b. read_local_battery env = Some b \<longrightarrow> level b \<le> 100"
    by (auto simp: read_local_battery_def split: option.splits dest: first_supply_le)
  show "\<exists>k. jget (body (fst (build_report c lvl chg))) ''currentCharge'' = Some (JInt k) \<and> 0 \<le> k \<and> k \<le> 100"
    by (simp add: build_report_def)
  show "\<forall>v. extract_state j = Some v \<longrightarrow> volume v \<le> 100"
    by (auto simp: extract_state_def Let_def round_percent_le split: option.splits)
qed

text \<open>
  Metadata and handlers disagree: the types dispatched to the battery plugin do not include the
  request it answers, and those dispatched to the pause-music plugin do not include the only type it
  acts on.
\<close>

lemma battery_request_not_dispatched:
  "TYPE_BATTERY_REQUEST \<in> set (accepts_of (BatteryPlugin b)) \<and>
   TYPE_BATTERY_REQUEST \<notin> set (pm_incoming (plugin_meta_of (BatteryPlugin b)))"
  by (simp add: meta_defs type_defs)

lemma pause_music_never_dispatched:
  "set (accepts_of (PauseMusicPlugin s)) \<inter> set (pm_incoming (plugin_meta_of (PauseMusicPlugin s))) = {}"
  by (simp add: meta_defs type_defs)

text \<open>A reply of these plugins, received by another instance of the same plugin, is answered again.\<close>

lemma ping_reply_is_answered:
  "ptype p = TYPE_PING \<Longrightarrow>
     \<exists>r s' c'. ping_handle env p s c = ([r], s', c') \<and> ptype r = TYPE_PING"
  by (simp add: ping_handle_def)

lemma parse_action_str [simp]: "parse_action (action_str a) = Some a"
  by (cases a) (simp_all add: parse_action_def action_str_def)

lemma mpris_ack_is_answered:
  assumes "mpris_handle env p s c = ([r], s', c')" "s \<noteq> Some AUTO_PLAYER"
  shows "\<exists>r' t' d'. mpris_handle env' r t d = ([r'], t', d') \<and> ptype r' = TYPE_MPRIS_REQUEST"
  using assms
  by (auto simp: mpris_handle_def mpris_request_def split: if_splits option.splits dest: sym)

end
