(* ===== verification/Hf_Supervise.thy ===== *)
theory Hf_Supervise
  imports Hf_Bus
begin

text \<open>
  The supervision tree of \<^verbatim>\<open>core/src/supervise.rs\<close>.  Times are milliseconds.

  A supervised name has an entry; its watcher is described by the program point it is at (before an
  attempt, with the child parked in the shared slot, awaiting the child, asleep) and by the join
  handle its frame holds.  \<^verbatim>\<open>live\<close> lists the child tasks the runtime is still running: a task leaves it
  when it exits or is aborted through a join handle, while dropping a handle detaches the task.
\<close>

section \<open>Backoff\<close>

definition BASE_BACKOFF :: nat where "BASE_BACKOFF = 100"
definition MAX_BACKOFF :: nat where "MAX_BACKOFF = 30000"
definition HEALTHY_WINDOW :: nat where "HEALTHY_WINDOW = 30000"

text \<open>The shift is at most 20, so \<^verbatim>\<open>1u32 << shift\<close> does not overflow and neither does the product.\<close>

definition backoff_delay :: "u32 \<Rightarrow> nat" where
  "backoff_delay failures =
     (let shift = min (unat failures - 1) 20 in min (BASE_BACKOFF * 2 ^ shift) MAX_BACKOFF)"

definition saturating_inc :: "u32 \<Rightarrow> u32" where
  "saturating_inc w = (if w = -1 then w else w + 1)"

text \<open>The \<^verbatim>\<open>Debug\<close> rendering of a duration of whole milliseconds.\<close>

definition pad3 :: "nat \<Rightarrow> string" where
  "pad3 n = [digit (n div 100 mod 10), digit (n div 10 mod 10), digit (n mod 10)]"

definition show_duration :: "nat \<Rightarrow> string" where
  "show_duration ms = (if ms < 1000 then show_nat ms @ ''ms''
     else show_nat (ms div 1000) @
       (if ms mod 1000 = 0 then '''' else ''.'' @ trim_end_with (\<lambda>c. c = CHR ''0'') (pad3 (ms mod 1000))) @ ''s'')"

section \<open>State\<close>

datatype watcher_phase = Idle | Parked | Awaiting nat | Sleeping nat | Ended

record entry =
  generation :: u64
  failures :: u32
  phase :: watcher_phase
  latest_child :: "nat option"

record supervisor =
  sup_bus :: bus
  shutdown :: bool
  generations :: u64
  restarts :: "u64 table"
  children :: "entry table"
  live :: "nat list"
  next_task :: nat

definition sup_new :: "bus \<Rightarrow> supervisor" where
  "sup_new b = \<lparr>sup_bus = b, shutdown = False, generations = 0, restarts = [], children = [],
     live = [], next_task = 0\<rparr>"

definition report_crash :: "string \<Rightarrow> string \<Rightarrow> supervisor \<Rightarrow> supervisor" where
  "report_crash n detail s = s\<lparr>sup_bus := publish (LogRecord ''error''
     (''supervisor: task '' @ quote n @ '' '' @ detail)) (sup_bus s)\<rparr>"

definition restart_count :: "supervisor \<Rightarrow> string \<Rightarrow> u64" where
  "restart_count s n = (case tget n (restarts s) of None \<Rightarrow> 0 | Some c \<Rightarrow> c)"

definition bump_restarts :: "string \<Rightarrow> supervisor \<Rightarrow> u64 \<times> supervisor" where
  "bump_restarts n s = (let c = restart_count s n + 1 in (c, s\<lparr>restarts := tput n c (restarts s)\<rparr>))"

definition abort_task :: "nat option \<Rightarrow> supervisor \<Rightarrow> supervisor" where
  "abort_task h s = (case h of None \<Rightarrow> s | Some c \<Rightarrow> s\<lparr>live := removeAll c (live s)\<rparr>)"

section \<open>Operations\<close>

text \<open>
  \<^verbatim>\<open>spawn\<close>.  Replacing an entry aborts the child in its slot and its watcher; aborting the watcher
  drops the watcher's frame, and with it any join handle the frame holds.
\<close>

definition spawn :: "string \<Rightarrow> supervisor \<Rightarrow> supervisor" where
  "spawn n s = (if shutdown s then s
     else let g = generations s + 1;
              previous = tget n (children s);
              s' = s\<lparr>generations := g,
                     children := tput n \<lparr>generation = g, failures = 0, phase = Idle, latest_child = None\<rparr>
                       (children s)\<rparr>
          in (case previous of None \<Rightarrow> s' | Some old \<Rightarrow> abort_task (latest_child old) s'))"

definition end_watch :: "string \<Rightarrow> supervisor \<Rightarrow> supervisor" where
  "end_watch n s = s\<lparr>children := tmod n (\<lambda>e. e\<lparr>phase := Ended\<rparr>) (children s)\<rparr>"

text \<open>The head of the watcher's loop: start the child and park its handle in the slot.\<close>

definition park_child :: "string \<Rightarrow> supervisor \<Rightarrow> supervisor" where
  "park_child n s = (case tget n (children s) of
       Some e \<Rightarrow> if phase e \<noteq> Idle then s
         else if shutdown s then end_watch n s
         else s\<lparr>live := next_task s # live s, next_task := Suc (next_task s),
                children := tput n (e\<lparr>phase := Parked, latest_child := Some (next_task s)\<rparr>) (children s)\<rparr>
     | None \<Rightarrow> s)"

text \<open>The watcher takes the handle back out of the slot and awaits the child.\<close>

definition take_child :: "string \<Rightarrow> supervisor \<Rightarrow> supervisor" where
  "take_child n s = (case tget n (children s) of
       Some e \<Rightarrow> (case (phase e, latest_child e) of
           (Parked, Some c) \<Rightarrow> s\<lparr>children := tput n (e\<lparr>phase := Awaiting c, latest_child := None\<rparr>) (children s)\<rparr>
         | _ \<Rightarrow> s)
     | None \<Rightarrow> s)"

datatype exit_status = Clean | Failed string | Panicked string | Cancelled

definition classify :: "string \<Rightarrow> exit_status \<Rightarrow> supervisor \<Rightarrow> bool \<times> supervisor" where
  "classify n x s = (case x of
       Clean \<Rightarrow> (False, s)
     | Failed err \<Rightarrow> (True, report_crash n (''failed: '' @ err) s)
     | Cancelled \<Rightarrow> (False, s)
     | Panicked err \<Rightarrow> (True, report_crash n (''panicked: '' @ err) s))"

text \<open>
  The rest of the loop body, once the child of watcher \<open>n\<close> has exited after running for \<open>elapsed\<close>
  milliseconds: the watcher ends, or sleeps for the delay before the next attempt.
\<close>

definition child_exit :: "string \<Rightarrow> exit_status \<Rightarrow> nat \<Rightarrow> supervisor \<Rightarrow> supervisor" where
  "child_exit n x elapsed s = (case tget n (children s) of
       Some e \<Rightarrow> (case phase e of
           Awaiting c \<Rightarrow>
             let (crashed, s1) = classify n x (s\<lparr>live := removeAll c (live s)\<rparr>) in
             if \<not> crashed \<or> shutdown s1 then end_watch n s1
             else let (count, s2) = bump_restarts n s1;
                      f = (if elapsed \<ge> HEALTHY_WINDOW then 0 else saturating_inc (failures e));
                      delay = backoff_delay f;
                      s3 = s2\<lparr>sup_bus := publish (LogRecord ''warn''
                        (''supervisor: restarting '' @ quote n @ '' (restart #'' @ show_nat (unat count) @
                         '', retry in '' @ show_duration delay @ '')'')) (sup_bus s2)\<rparr>
                  in s3\<lparr>children := tput n (e\<lparr>failures := f, phase := Sleeping delay\<rparr>) (children s3)\<rparr>
         | _ \<Rightarrow> s)
     | None \<Rightarrow> s)"

definition wake :: "string \<Rightarrow> supervisor \<Rightarrow> supervisor" where
  "wake n s = (case tget n (children s) of
       Some e \<Rightarrow> (case phase e of Sleeping _ \<Rightarrow> s\<lparr>children := tput n (e\<lparr>phase := Idle\<rparr>) (children s)\<rparr> | _ \<Rightarrow> s)
     | None \<Rightarrow> s)"

definition shutdown_all :: "supervisor \<Rightarrow> supervisor" where
  "shutdown_all s = (let entries = map snd (children s) in
     fold (\<lambda>e. abort_task (latest_child e)) entries (s\<lparr>shutdown := True, children := []\<rparr>))"

text \<open>Everything that can happen to a supervisor, in the order it happens.\<close>

datatype sup_op =
    SupSpawn string
  | SupPark string
  | SupTake string
  | SupExit string exit_status nat
  | SupWake string

fun sup_step :: "sup_op \<Rightarrow> supervisor \<Rightarrow> supervisor" where
  "sup_step (SupSpawn n) s = spawn n s"
| "sup_step (SupPark n) s = park_child n s"
| "sup_step (SupTake n) s = take_child n s"
| "sup_step (SupExit n x t) s = child_exit n x t s"
| "sup_step (SupWake n) s = wake n s"

text \<open>One attempt that ends in a crash after \<open>t\<close> milliseconds, up to and including the following sleep.\<close>

definition crash_cycle :: "string \<Rightarrow> string \<times> nat \<Rightarrow> supervisor \<Rightarrow> supervisor" where
  "crash_cycle n c s = wake n (child_exit n (Failed (fst c)) (snd c) (take_child n (park_child n s)))"

definition slot_inv :: "supervisor \<Rightarrow> bool" where
  "slot_inv s = (distinct (keys (children s)) \<and>
     (\<forall>n e. tget n (children s) = Some e \<longrightarrow> (latest_child e \<noteq> None \<longleftrightarrow> phase e = Parked)))"

section \<open>Facts\<close>

lemma abort_task_fields [simp]:
  "children (abort_task h s) = children s" "shutdown (abort_task h s) = shutdown s"
  "set (live (abort_task h s)) = set (live s) - set_option h"
  by (auto simp: abort_task_def split: option.splits)

lemma fold_abort_fields:
  "children (fold (\<lambda>e. abort_task (latest_child e)) es s) = children s"
  "shutdown (fold (\<lambda>e. abort_task (latest_child e)) es s) = shutdown s"
  "set (live (fold (\<lambda>e. abort_task (latest_child e)) es s)) =
     set (live s) - {c. \<exists>e\<in>set es. latest_child e = Some c}"
  by (induction es arbitrary: s) auto

lemma classify_fields [simp]:
  "children (snd (classify n x s)) = children s" "shutdown (snd (classify n x s)) = shutdown s"
  by (simp_all add: classify_def report_crash_def split: exit_status.splits)

lemma spawn_inv: "slot_inv s \<Longrightarrow> slot_inv (spawn n s)"
  by (auto simp: slot_inv_def spawn_def Let_def split: option.splits)

lemma end_watch_inv: "slot_inv s \<Longrightarrow> tget n (children s) = Some e \<Longrightarrow> phase e \<noteq> Parked \<Longrightarrow> slot_inv (end_watch n s)"
  by (auto simp: slot_inv_def end_watch_def)

lemma park_inv: "slot_inv s \<Longrightarrow> slot_inv (park_child n s)"
  using end_watch_inv [of s n] by (auto simp: park_child_def split: option.splits) (auto simp: slot_inv_def)

lemma take_inv: "slot_inv s \<Longrightarrow> slot_inv (take_child n s)"
  by (auto simp: take_child_def slot_inv_def split: option.splits watcher_phase.splits)

lemma wake_inv: "slot_inv s \<Longrightarrow> slot_inv (wake n s)"
  by (auto simp: wake_def slot_inv_def split: option.splits watcher_phase.splits)

lemma slot_inv_tput:
  "slot_inv s \<Longrightarrow> latest_child e = None \<Longrightarrow> phase e \<noteq> Parked \<Longrightarrow>
     slot_inv (s\<lparr>restarts := r, sup_bus := b, children := tput n e (children s)\<rparr>)"
  by (auto simp: slot_inv_def)

lemma exit_inv:
  assumes "slot_inv s"
  shows "slot_inv (child_exit n x t s)"
proof (cases "tget n (children s)")
  case (Some e)
  show ?thesis
  proof (cases "phase e")
    case (Awaiting c)
    obtain crashed s1 where cl: "classify n x (s\<lparr>live := removeAll c (live s)\<rparr>) = (crashed, s1)" by fastforce
    have ch: "children s1 = children s"
      using classify_fields(1) [of n x "s\<lparr>live := removeAll c (live s)\<rparr>"] cl by simp
    then have i: "slot_inv s1" "tget n (children s1) = Some e" using assms Some by (simp_all add: slot_inv_def)
    have l: "latest_child e = None" using assms Some Awaiting by (force simp: slot_inv_def)
    show ?thesis
      using end_watch_inv [OF i] l Some Awaiting cl
      by (auto simp: child_exit_def Let_def bump_restarts_def intro!: slot_inv_tput [OF i(1)])
  qed (use assms Some in \<open>simp_all add: child_exit_def\<close>)
qed (use assms in \<open>simp add: child_exit_def\<close>)

interpretation sup: guarded_system sup_step "\<lambda>_ _. True" slot_inv
proof unfold_locales
  fix s c assume "slot_inv s"
  then show "slot_inv (sup_step c s)"
    by (cases c) (simp_all add: spawn_inv park_inv take_inv exit_inv wake_inv)
qed

lemma slot_inv_new [simp]: "slot_inv (sup_new b)"
  by (simp add: slot_inv_def sup_new_def)

lemma big_power: "20 \<le> k \<Longrightarrow> MAX_BACKOFF \<le> BASE_BACKOFF * 2 ^ k"
proof -
  assume "20 \<le> k"
  then have "(2::nat) ^ 20 \<le> 2 ^ k" by (intro power_increasing) auto
  then show ?thesis by (simp add: MAX_BACKOFF_def BASE_BACKOFF_def)
qed

lemma backoff_closed: "backoff_delay n = min MAX_BACKOFF (BASE_BACKOFF * 2 ^ (unat n - 1))"
  using big_power [of 20] big_power [of "unat n - 1"]
  by (auto simp: backoff_delay_def Let_def min_def)

text \<open>The state in which a watcher whose child crashed goes to sleep.\<close>

lemma exit_after_start:
  fixes t :: nat and err :: string
  assumes "tget n (children s) = Some e" "phase e = Idle" "\<not> shutdown s"
  defines "f \<equiv> (if t \<ge> HEALTHY_WINDOW then 0 else saturating_inc (failures e))"
  defines "s' \<equiv> child_exit n (Failed err) t (take_child n (park_child n s))"
  shows "tget n (children s') = Some (e\<lparr>failures := f, phase := Sleeping (backoff_delay f), latest_child := None\<rparr>)"
    and "\<not> shutdown s'" and "restart_count s' n = restart_count s n + 1"
    and "\<exists>m1 m2. sup_bus s' = sup_bus s @ [LogRecord ''error'' m1, LogRecord ''warn'' m2]"
  using assms
  by (auto simp: child_exit_def take_child_def park_child_def classify_def report_crash_def bump_restarts_def
      restart_count_def publish_def Let_def)

lemma crash_cycle_effect:
  assumes "tget n (children s) = Some e" "phase e = Idle" "\<not> shutdown s" "snd c < HEALTHY_WINDOW"
  shows "tget n (children (crash_cycle n c s)) = Some (e\<lparr>failures := saturating_inc (failures e), latest_child := None\<rparr>)"
    and "\<not> shutdown (crash_cycle n c s)"
    and "restart_count (crash_cycle n c s) n = restart_count s n + 1"
    and "length (sup_bus (crash_cycle n c s)) = length (sup_bus s) + 2"
  using exit_after_start [OF assms(1-3), where t = "snd c" and err = "fst c"] assms(2,4)
  by (auto simp: crash_cycle_def wake_def restart_count_def)

lemma crash_loop_effect:
  assumes "tget n (children s) = Some e" "phase e = Idle" "\<not> shutdown s"
    "\<forall>c\<in>set cs. snd c < HEALTHY_WINDOW" "unat (failures e) + length cs < 2 ^ 32"
  shows "(\<exists>e'. tget n (children (fold (crash_cycle n) cs s)) = Some e' \<and> phase e' = Idle \<and>
      unat (failures e') = unat (failures e) + length cs) \<and>
    \<not> shutdown (fold (crash_cycle n) cs s) \<and>
    restart_count (fold (crash_cycle n) cs s) n = restart_count s n + of_nat (length cs) \<and>
    length (sup_bus (fold (crash_cycle n) cs s)) = length (sup_bus s) + 2 * length cs"
  using assms
proof (induction cs arbitrary: s e)
  case (Cons c cs)
  let ?e = "e\<lparr>failures := saturating_inc (failures e), latest_child := None\<rparr>"
  note st = crash_cycle_effect [OF Cons.prems(1-3), of c]
  have lt: "unat (failures e) < 2 ^ 32 - 1" using Cons.prems(5) by simp
  then have ne: "failures e \<noteq> -1" by (auto simp: unsigned_minus_1_eq_mask mask_eq_exp_minus_1)
  have u: "unat (saturating_inc (failures e)) = unat (failures e) + 1"
    using ne lt by (simp add: saturating_inc_def unat_word_ariths)
  have ih: "unat (failures ?e) + length cs < 2 ^ 32" using u Cons.prems(5) by simp
  have h: "\<forall>c\<in>set cs. snd c < HEALTHY_WINDOW" "snd c < HEALTHY_WINDOW" "phase ?e = Idle"
    using Cons.prems by simp_all
  show ?case using Cons.IH [OF st(1) h(3) st(2) h(1) ih] st(3,4) h(2) u by (auto simp: algebra_simps)
qed auto

section \<open>Properties\<close>

text \<open>The retry delay is the base delay doubled for every consecutive failure after the first and
  capped at the maximum, the cut-off of the shift making no difference; it lies between the base and
  the maximum and never decreases as failures accumulate.\<close>

lemma backoff_delay_spec:
  "backoff_delay n = min MAX_BACKOFF (BASE_BACKOFF * 2 ^ (unat n - 1)) \<and>
   BASE_BACKOFF \<le> backoff_delay n \<and> backoff_delay n \<le> MAX_BACKOFF \<and>
   (m \<le> n \<longrightarrow> backoff_delay m \<le> backoff_delay n)"
proof (intro conjI impI)
  show "BASE_BACKOFF \<le> backoff_delay n"
    by (simp add: backoff_closed MAX_BACKOFF_def BASE_BACKOFF_def)
  assume "m \<le> n"
  then have "(2::nat) ^ (unat m - 1) \<le> 2 ^ (unat n - 1)"
    by (intro power_increasing) (auto simp: word_le_nat_alt diff_le_mono)
  then show "backoff_delay m \<le> backoff_delay n"
    unfolding backoff_closed BASE_BACKOFF_def by (intro min.mono) simp_all
qed (simp_all add: backoff_closed)

text \<open>C33. A task that keeps crashing within the healthy window is restarted after delays that double
  from the base up to the cap: after \<open>k\<close> such crashes the restart counter has advanced by \<open>k\<close>, two log
  records were published for each, and the next crash makes the watcher sleep for the \<open>k\<close>-fold
  doubled delay, or for the base delay again if the child had stayed alive for the window.\<close>

theorem crash_loop_backs_off:
  assumes "tget n (children s) = Some e" "phase e = Idle" "failures e = 0" "\<not> shutdown s"
    and "\<forall>c\<in>set cs. snd c < HEALTHY_WINDOW" "length cs + 1 < 2 ^ 32"
  defines "s' \<equiv> fold (crash_cycle n) cs s"
  shows "restart_count s' n = restart_count s n + of_nat (length cs) \<and>
    length (sup_bus s') = length (sup_bus s) + 2 * length cs \<and>
    (\<exists>e'. tget n (children (child_exit n (Failed err) t (take_child n (park_child n s')))) = Some e' \<and>
       phase e' = Sleeping (if t \<ge> HEALTHY_WINDOW then BASE_BACKOFF
                            else min MAX_BACKOFF (BASE_BACKOFF * 2 ^ length cs)))"
proof -
  have bound: "unat (failures e) + length cs < 2 ^ 32" using assms by simp
  note loop = crash_loop_effect [OF assms(1,2,4,5) bound, folded s'_def]
  obtain e' where e': "tget n (children s') = Some e'" "phase e' = Idle" "unat (failures e') = length cs"
    using loop assms(3) by auto
  have "failures e' \<noteq> -1" using e'(3) assms(6) by (auto simp: unsigned_minus_1_eq_mask mask_eq_exp_minus_1)
  then have "unat (saturating_inc (failures e')) = length cs + 1"
    using e'(3) assms(6) by (simp add: saturating_inc_def unat_word_ariths)
  then have "backoff_delay (saturating_inc (failures e')) = min MAX_BACKOFF (BASE_BACKOFF * 2 ^ length cs)"
    by (simp add: backoff_closed)
  moreover have "backoff_delay 0 = BASE_BACKOFF"
    by (simp add: backoff_closed BASE_BACKOFF_def MAX_BACKOFF_def)
  ultimately show ?thesis
    using exit_after_start(1) [OF e'(1,2) conjunct1 [OF conjunct2 [OF loop]], where t = t and err = err] loop by auto
qed

theorem crash_loop_backs_off_witness:
  "\<exists>e'. tget ''w'' (children (child_exit ''w'' (Failed ''x'') 5 (take_child ''w'' (park_child ''w''
      (fold (crash_cycle ''w'') [(''a'', 1), (''b'', 2)] (spawn ''w'' (sup_new []))))))) = Some e' \<and>
     phase e' = Sleeping 400"
  using crash_loop_backs_off [of "''w''" "spawn ''w'' (sup_new [])"
      "\<lparr>generation = 1, failures = 0, phase = Idle, latest_child = None\<rparr>" "[(''a'', 1), (''b'', 2)]" "''x''" 5]
  by (simp add: spawn_def sup_new_def Let_def HEALTHY_WINDOW_def MAX_BACKOFF_def BASE_BACKOFF_def)

text \<open>In every state a supervisor can reach, shutting it down empties the registry, disables
  further spawns and stops exactly the children whose handles are parked in a slot at that moment; a
  child that its watcher is awaiting keeps running, because the watcher has taken the handle out of
  the slot.\<close>

lemma shutdown_all_effect:
  fixes ops b
  defines "s \<equiv> fold sup_step ops (sup_new b)"
  shows "children (shutdown_all s) = [] \<and> spawn n (shutdown_all s) = shutdown_all s \<and>
    set (live (shutdown_all s)) =
      set (live s) - {c. \<exists>n e. tget n (children s) = Some e \<and> phase e = Parked \<and> latest_child e = Some c}"
proof -
  have inv: "slot_inv s" unfolding s_def using sup.run_inv [of "sup_new b" ops] by simp
  then have slot: "(n, e) \<in> set (children s) \<longleftrightarrow> tget n (children s) = Some e" for n e
    by (simp add: slot_inv_def tget_set)
  have "(\<exists>e\<in>set (map snd (children s)). latest_child e = Some c) \<longleftrightarrow>
      (\<exists>n e. tget n (children s) = Some e \<and> phase e = Parked \<and> latest_child e = Some c)" for c
    using inv slot unfolding slot_inv_def by (force simp: image_iff)
  then show ?thesis
    by (simp add: shutdown_all_def Let_def fold_abort_fields spawn_def)
qed

text \<open>So a task that is running when the daemon shuts its supervisor down survives.\<close>

lemma shutdown_all_detaches_running_child:
  "live (shutdown_all (take_child ''w'' (park_child ''w'' (spawn ''w'' (sup_new []))))) = [0]"
  by (simp add: shutdown_all_def take_child_def park_child_def spawn_def sup_new_def Let_def abort_task_def tput_def)

lemma respawn_detaches_running_child:
  "live (spawn ''w'' (take_child ''w'' (park_child ''w'' (spawn ''w'' (sup_new []))))) = [0]"
  by (simp add: take_child_def park_child_def spawn_def sup_new_def Let_def abort_task_def)

end
