(* ===== verification/Hf_Device.thy ===== *)
theory Hf_Device
  imports Hf_Stream Hf_Plugins Hf_Supervise
begin

text \<open>
  The device manager of \<^verbatim>\<open>daemon/src/device.rs\<close>: the actor that owns every device, connection, pairing
  and transfer.  Its state is one record; each handler is a function from the state before to the
  state after; \<^verbatim>\<open>step\<close> dispatches one command as the actor loop does.

  Commands carry the identity of the reply channel they came with, and answers are logged under it.
  Spawned tasks are logged with what they were given.  A connection's outbound queue keeps the packets
  accepted for it.  What the outside decides while a command is handled (the clock, whether a queue
  accepts a packet, database and file system faults, helper programs, the port a listener gets) is the
  record \<^verbatim>\<open>mgr_env\<close>.
\<close>

section \<open>State\<close>

record conn =
  conn_id :: nat
  queued :: "packet list"

record device_state =
  ds_identity :: identity
  addr :: "(string \<times> u16) option"
  live_fingerprint :: "string option"
  pinned_fingerprint :: "string option"
  outbound :: "conn option"
  pending_pair_reply :: "nat option"
  plugins :: "plugin list"

record transport =
  peer_fingerprint :: bytes
  peer_ip :: string

record announcement =
  ann_identity :: identity
  ann_ip :: string

record transfer_record =
  tr_device_id :: string
  direction :: string
  tr_file_name :: string
  total :: u64
  tr_state :: string
  tr_done :: u64
  reason :: "string option"
  cancel :: bool

datatype task =
    DialTask string u16 string
  | ReaderTask nat string string
  | PairTimer string nat
  | SendTask string u16 path "path option" u64
  | ReceiveTask string string string u64 bool

datatype answer =
    ADevices "json list"
  | APair "core_error + bool"
  | AUnit "core_error + unit"
  | AId "core_error + string"
  | ATransfers "json list"

record manager =
  devices :: "device_state table"
  mstore :: store
  mbus :: bus
  self_device_id :: string
  self_identity :: identity
  save_target :: save_target
  mengine :: engine
  mfs :: fs
  transfers :: "transfer_record table"
  next_transfer_seq :: u64
  incoming_pairs :: "nat table"
  packet_ids :: i64
  next_conn :: nat
  tasks :: "task list"
  answers :: "(nat \<times> answer) list"

datatype command =
    Announce announcement
  | Connected string transport
  | PacketFrom string packet
  | ConnClosed string
  | ListDevices nat
  | StartPairing string nat
  | Unpair string nat
  | PairingAnswer string bool nat
  | PairingTimeout string
  | SendFile string string nat
  | ListTransfers nat
  | CancelTransfer string nat
  | SharePayload string packet "string + unit"
  | TransferOutcome string "string + unit"

record mgr_env =
  instant :: nat
  unix_time :: int
  kv_fault :: "string option"
  db_fault :: "string option"
  try_send :: "conn \<Rightarrow> packet \<Rightarrow> string option"
  plugin_world :: plugin_env
  io_faults :: faults
  helper_tools :: tools
  home_dir :: "string option"
  tmp_path :: path
  metadata :: "path \<Rightarrow> string + (bool \<times> u64 \<times> i64)"
  bind_port :: "core_error + u16"

definition INCOMING_PAIR_TIMEOUT :: nat where "INCOMING_PAIR_TIMEOUT = 30000"

section \<open>Device state\<close>

definition device_state_new :: "identity \<Rightarrow> device_state" where
  "device_state_new i = \<lparr>ds_identity = i, addr = None, live_fingerprint = None, pinned_fingerprint = None,
     outbound = None, pending_pair_reply = None, plugins = registry\<rparr>"

definition is_connected :: "device_state \<Rightarrow> bool" where
  "is_connected st = (outbound st \<noteq> None)"

definition send_out :: "mgr_env \<Rightarrow> device_state \<Rightarrow> packet \<Rightarrow> (core_error + unit) \<times> device_state" where
  "send_out env st p = (case outbound st of
       None \<Rightarrow> (Err (COther ''device not connected''), st)
     | Some c \<Rightarrow> (case try_send env c p of
           Some err \<Rightarrow> (Err (COther err), st)
         | None \<Rightarrow> (Ok (), st\<lparr>outbound := Some (c\<lparr>queued := queued c @ [p]\<rparr>)\<rparr>)))"

section \<open>Small steps shared by the handlers\<close>

definition pub :: "event \<Rightarrow> manager \<Rightarrow> manager" where
  "pub ev m = m\<lparr>mbus := publish ev (mbus m)\<rparr>"

definition respond :: "nat \<Rightarrow> answer \<Rightarrow> manager \<Rightarrow> manager" where
  "respond rid a m = m\<lparr>answers := answers m @ [(rid, a)]\<rparr>"

definition spawn_task :: "task \<Rightarrow> manager \<Rightarrow> manager" where
  "spawn_task t m = m\<lparr>tasks := tasks m @ [t]\<rparr>"

definition new_packet :: "string \<Rightarrow> json \<Rightarrow> manager \<Rightarrow> packet \<times> manager" where
  "new_packet t b m = (let (p, c) = packet_new (packet_ids m) t b in (p, m\<lparr>packet_ids := c\<rparr>))"

definition pair_packet :: "bool \<Rightarrow> manager \<Rightarrow> packet \<times> manager" where
  "pair_packet b m = new_packet TYPE_PAIR (JObj [(''pair'', JBool b)]) m"

text \<open>\<^verbatim>\<open>if let Some(state) = self.devices.get(id) { let _ = state.send_out(p); }\<close>\<close>

definition send_quiet :: "mgr_env \<Rightarrow> string \<Rightarrow> packet \<Rightarrow> manager \<Rightarrow> manager" where
  "send_quiet env d p m = m\<lparr>devices := tmod d (\<lambda>st. snd (send_out env st p)) (devices m)\<rparr>"

definition connected_now :: "manager \<Rightarrow> string \<Rightarrow> bool" where
  "connected_now m d = (case tget d (devices m) of None \<Rightarrow> False | Some st \<Rightarrow> is_connected st)"

definition hex :: "bytes \<Rightarrow> string" where
  "hex bs = concat (map hex_byte bs)"

section \<open>Construction\<close>

definition mgr_new :: "string option \<Rightarrow> string option \<Rightarrow> path \<Rightarrow> store \<Rightarrow> bus \<Rightarrow> string \<Rightarrow> identity \<Rightarrow> fs \<Rightarrow> i64 \<Rightarrow> manager" where
  "mgr_new fault home temp_dir st b self_id ident fs ids =
     (let raw = (case kv_get fault SAVE_DIR_KEY st of
            Inr (Some v) \<Rightarrow> if trim_str v = [] then DEFAULT_SAVE_DIR else v
          | _ \<Rightarrow> DEFAULT_SAVE_DIR);
          target = resolve_save_dir home raw;
          staging = (case target of Local d \<Rightarrow> d | Uri _ \<Rightarrow> join temp_dir ''handfast-received'')
      in \<lparr>devices = [], mstore = st, mbus = b, self_device_id = self_id, self_identity = ident,
          save_target = target, mengine = engine_new staging, mfs = fs, transfers = [],
          next_transfer_seq = 0, incoming_pairs = [], packet_ids = ids, next_conn = 0, tasks = [], answers = []\<rparr>)"

definition load_row :: "string \<Rightarrow> device_row \<Rightarrow> device_state table \<Rightarrow> device_state table" where
  "load_row self_id r ds = (if row_device_id r = self_id then ds
     else tput (row_device_id r)
       ((device_state_new \<lparr>device_id = row_device_id r, device_name = row_name r,
           device_type = row_device_type r, protocol_version = PROTO_VERSION,
           incoming = [], outgoing = [], tcp_source_port = 0\<rparr>)
        \<lparr>pinned_fingerprint := (if paired r then Some (cert_fingerprint r) else None)\<rparr>) ds)"

definition load_persisted :: "string option \<Rightarrow> manager \<Rightarrow> (core_error + unit) \<times> manager" where
  "load_persisted fault m = (case list_devices fault (mstore m) of
       Inl err \<Rightarrow> (Err err, m)
     | Inr rows \<Rightarrow> (Ok (), m\<lparr>devices := fold (load_row (self_device_id m)) rows (devices m)\<rparr>))"

section \<open>Transfers\<close>

definition new_transfer_id :: "manager \<Rightarrow> string \<times> manager" where
  "new_transfer_id m = (let n = next_transfer_seq m + 1 in
     (''t'' @ show_nat (unat n), m\<lparr>next_transfer_seq := n\<rparr>))"

definition register_transfer :: "string \<Rightarrow> string \<Rightarrow> string \<Rightarrow> string \<Rightarrow> u64 \<Rightarrow> manager \<Rightarrow> manager" where
  "register_transfer tid d dir fname tot m =
     pub (TransferAdded tid d dir fname tot)
       (m\<lparr>transfers := tput tid \<lparr>tr_device_id = d, direction = dir, tr_file_name = fname, total = tot,
            tr_state = ''active'', tr_done = 0, reason = None, cancel = False\<rparr> (transfers m)\<rparr>)"

definition json_opt :: "string option \<Rightarrow> json" where
  "json_opt x = (case x of None \<Rightarrow> JNull | Some s \<Rightarrow> JStr s)"

definition transfer_snapshot :: "manager \<Rightarrow> json list" where
  "transfer_snapshot m = map (\<lambda>(i, r). JObj
     [(''id'', JStr i), (''device_id'', JStr (tr_device_id r)), (''direction'', JStr (direction r)),
      (''file_name'', JStr (tr_file_name r)), (''total'', JInt (uint (total r))), (''state'', JStr (tr_state r)),
      (''done'', JInt (uint (tr_done r))), (''reason'', json_opt (reason r))])
     (sort_key fst (transfers m))"

definition cancel_transfer :: "string \<Rightarrow> manager \<Rightarrow> (core_error + unit) \<times> manager" where
  "cancel_transfer tid m = (case tget tid (transfers m) of
       None \<Rightarrow> (Err (COther (''unknown transfer '' @ [CHR 0x27] @ tid @ [CHR 0x27])), m)
     | Some r \<Rightarrow> if tr_state r \<noteq> ''active''
         then (Err (COther (''transfer '' @ [CHR 0x27] @ tid @ [CHR 0x27] @ '' is not active'')), m)
         else (Ok (), m\<lparr>transfers := tput tid (r\<lparr>cancel := True\<rparr>) (transfers m)\<rparr>))"

definition on_transfer_outcome :: "mgr_env \<Rightarrow> string \<Rightarrow> string + unit \<Rightarrow> manager \<Rightarrow> manager" where
  "on_transfer_outcome env tid result m = (case result of
       Inr _ \<Rightarrow> pub (TransferFinished tid)
         (m\<lparr>transfers := tmod tid (\<lambda>r. r\<lparr>tr_state := ''finished'', reason := None\<rparr>) (transfers m)\<rparr>)
     | Inl why \<Rightarrow>
         let (_, e', fs') = abort (io_faults env) tid (mengine m) (mfs m) in
         pub (TransferFailed tid why)
           (m\<lparr>mengine := e', mfs := fs',
              transfers := tmod tid (\<lambda>r. r\<lparr>tr_state := ''failed'', reason := Some why\<rparr>) (transfers m)\<rparr>))"

section \<open>Announcements and connections\<close>

definition entry_for_announcement :: "announcement \<Rightarrow> manager \<Rightarrow> bool \<times> manager" where
  "entry_for_announcement a m =
     (let d = device_id (ann_identity a);
          fresh_new = (\<not> thas d (devices m));
          m1 = (if fresh_new then m\<lparr>devices := tput d (device_state_new (ann_identity a)) (devices m)\<rparr> else m);
          m2 = m1\<lparr>devices := tmod d (\<lambda>st. st\<lparr>ds_identity := ann_identity a,
                 addr := Some (ann_ip a, tcp_source_port (ann_identity a))\<rparr>) (devices m1)\<rparr>;
          m3 = (if fresh_new then pub (DeviceFound d (device_name (ann_identity a))) m2 else m2)
      in (fresh_new \<or> \<not> connected_now m3 d, m3))"

definition on_announce :: "announcement \<Rightarrow> manager \<Rightarrow> manager" where
  "on_announce a m = (let (dial, m1) = entry_for_announcement a m in
     if \<not> dial then m1
     else (case Option.bind (tget (device_id (ann_identity a)) (devices m1)) addr of
         None \<Rightarrow> m1
       | Some (ip, port) \<Rightarrow> spawn_task (DialTask ip port (device_id (ann_identity a))) m1))"

text \<open>What a dial task reports: \<^verbatim>\<open>secure\<close> is the identity read over TLS, with its transport.\<close>

definition dial_report :: "string \<Rightarrow> core_error + (identity \<times> transport) \<Rightarrow> command option" where
  "dial_report d r = (case r of
       Inr (secure, t) \<Rightarrow> if device_id secure = d then Some (Connected (device_id secure) t) else None
     | Inl _ \<Rightarrow> None)"

text \<open>
  What the reader task of a connection reports: one command per packet, the data connection of a packet
  that announces a port dialed first, and the closure once at the end.
\<close>

definition reader_command :: "(u16 \<Rightarrow> string + unit) \<Rightarrow> string \<Rightarrow> packet \<Rightarrow> command" where
  "reader_command dial d p = (case payload_transfer_port p of
       Some port \<Rightarrow> SharePayload d p (dial port)
     | None \<Rightarrow> PacketFrom d p)"

fun reader_loop :: "(u16 \<Rightarrow> string + unit) \<Rightarrow> string \<Rightarrow> (proto_error + packet) list \<Rightarrow> command list" where
  "reader_loop dial d (Inr p # rs) = reader_command dial d p # reader_loop dial d rs"
| "reader_loop dial d _ = [ConnClosed d]"

definition shell_identity :: "string \<Rightarrow> identity" where
  "shell_identity d = \<lparr>device_id = d, device_name = d, device_type = ''unknown'',
     protocol_version = PROTO_VERSION, incoming = [], outgoing = [], tcp_source_port = 0\<rparr>"

definition pin_mismatch :: "manager \<Rightarrow> string \<Rightarrow> string \<Rightarrow> bool" where
  "pin_mismatch m d fp = (case tget d (devices m) of
       None \<Rightarrow> False
     | Some st \<Rightarrow> (case pinned_fingerprint st of None \<Rightarrow> False | Some pinned \<Rightarrow> pinned \<noteq> fp))"

definition on_connected :: "string \<Rightarrow> transport \<Rightarrow> manager \<Rightarrow> manager" where
  "on_connected d t m = (let fp = hex (peer_fingerprint t) in
     if pin_mismatch m d fp
     then pub (LogRecord ''error'' (''cert mismatch for '' @ d @ '': possible spoofing'')) m
     else
       let c = \<lparr>conn_id = next_conn m, queued = []\<rparr>;
           m1 = spawn_task (ReaderTask (next_conn m) d (peer_ip t)) (m\<lparr>next_conn := Suc (next_conn m)\<rparr>) in
       (case tget d (devices m1) of
          Some st \<Rightarrow> pub (DeviceStateChanged d ''online'')
            (m1\<lparr>devices := tput d (st\<lparr>outbound := Some c, live_fingerprint := Some fp\<rparr>) (devices m1)\<rparr>)
        | None \<Rightarrow> pub (DeviceFound d ''unknown'')
            (m1\<lparr>devices := tput d ((device_state_new (shell_identity d))
                 \<lparr>outbound := Some c, live_fingerprint := Some fp\<rparr>) (devices m1)\<rparr>)))"

definition on_closed :: "string \<Rightarrow> manager \<Rightarrow> manager" where
  "on_closed d m = (let m1 = m\<lparr>incoming_pairs := tdel d (incoming_pairs m)\<rparr> in
     pub (DeviceStateChanged d ''offline'')
       (case tget d (devices m1) of
          None \<Rightarrow> m1
        | Some st \<Rightarrow>
            let m2 = m1\<lparr>devices := tput d (st\<lparr>outbound := None, live_fingerprint := None,
                       pending_pair_reply := None\<rparr>) (devices m1)\<rparr> in
            (case pending_pair_reply st of
               None \<Rightarrow> m2
             | Some rid \<Rightarrow> respond rid (APair (Err (COther ''connection closed during pairing''))) m2)))"

section \<open>Pairing\<close>

definition persist_trust :: "mgr_env \<Rightarrow> string \<Rightarrow> bool \<Rightarrow> manager \<Rightarrow> manager" where
  "persist_trust env d b m = (case tget d (devices m) of
       None \<Rightarrow> m
     | Some st \<Rightarrow>
         let fp = (if b then (case live_fingerprint st of
                       Some f \<Rightarrow> f
                     | None \<Rightarrow> (case pinned_fingerprint st of Some f \<Rightarrow> f | None \<Rightarrow> []))
                   else []);
             row = \<lparr>row_device_id = d, row_name = device_name (ds_identity st),
                    row_device_type = device_type (ds_identity st), cert_fingerprint = fp,
                    paired = b, last_seen = Some (unix_time env)\<rparr>
         in pub (DeviceStateChanged d (if b then ''paired'' else ''unpaired''))
              (m\<lparr>devices := tput d (st\<lparr>pinned_fingerprint := (if b then Some fp else None)\<rparr>) (devices m),
                 mstore := snd (upsert_device (db_fault env) row (mstore m))\<rparr>))"

definition auto_accept :: "mgr_env \<Rightarrow> manager \<Rightarrow> bool" where
  "auto_accept env m = (case kv_get (kv_fault env) ''pairing.auto_accept'' (mstore m) of
       Inr (Some v) \<Rightarrow> v = ''1''
     | _ \<Rightarrow> False)"

text \<open>Build a pair packet and send it to the device, ignoring whether it could be queued.\<close>

definition send_pair :: "mgr_env \<Rightarrow> string \<Rightarrow> bool \<Rightarrow> manager \<Rightarrow> manager" where
  "send_pair env d b m = (let (p, m1) = pair_packet b m in send_quiet env d p m1)"

definition pending_of :: "manager \<Rightarrow> string \<Rightarrow> nat option" where
  "pending_of m d = Option.bind (tget d (devices m)) pending_pair_reply"

definition park_request :: "mgr_env \<Rightarrow> string \<Rightarrow> manager \<Rightarrow> manager" where
  "park_request env d m =
     (let nm = (case tget d (devices m) of None \<Rightarrow> [] | Some st \<Rightarrow> device_name (ds_identity st));
          deadline = instant env + INCOMING_PAIR_TIMEOUT in
      spawn_task (PairTimer d deadline)
        (pub (PairingRequest d nm)
          (m\<lparr>incoming_pairs := tput d deadline (incoming_pairs m)\<rparr>)))"

definition on_pair_packet :: "mgr_env \<Rightarrow> string \<Rightarrow> packet \<Rightarrow> manager \<Rightarrow> manager" where
  "on_pair_packet env d p m = (case get_bool (body p) ''pair'' of
       None \<Rightarrow> m
     | Some wants_pair \<Rightarrow> (case pending_of m d of
           Some rid \<Rightarrow>
             let m1 = respond rid (APair (Ok wants_pair))
                   (m\<lparr>devices := tmod d (\<lambda>st. st\<lparr>pending_pair_reply := None\<rparr>) (devices m)\<rparr>) in
             if wants_pair then persist_trust env d True m1 else m1
         | None \<Rightarrow>
             if wants_pair then
               (if auto_accept env m \<and> connected_now m d
                then send_pair env d True (persist_trust env d True m)
                else if \<not> connected_now m d then send_pair env d False m
                else park_request env d m)
             else pub (DeviceStateChanged d ''unpaired'')
               (persist_trust env d False (m\<lparr>incoming_pairs := tdel d (incoming_pairs m)\<rparr>))))"

definition answer_incoming_pairing :: "mgr_env \<Rightarrow> string \<Rightarrow> bool \<Rightarrow> manager \<Rightarrow> (core_error + unit) \<times> manager" where
  "answer_incoming_pairing env d acc m =
     (let m1 = m\<lparr>incoming_pairs := tdel d (incoming_pairs m)\<rparr> in
      case tget d (incoming_pairs m) of
        None \<Rightarrow> (Err (COther (''no pending pairing request from '' @ quote d)), m1)
      | Some deadline \<Rightarrow>
          if instant env > deadline then (Err (COther ''pairing request already expired''), m1)
          else (Ok (), pub (DeviceStateChanged d (if acc then ''paired'' else ''unpaired''))
                 (send_pair env d acc (if acc then persist_trust env d True m1 else m1))))"

definition pairing_timeout :: "mgr_env \<Rightarrow> string \<Rightarrow> manager \<Rightarrow> manager" where
  "pairing_timeout env d m =
     (if thas d (incoming_pairs m)
      then send_pair env d False (m\<lparr>incoming_pairs := tdel d (incoming_pairs m)\<rparr>)
      else m)"

definition begin_pairing :: "mgr_env \<Rightarrow> string \<Rightarrow> nat \<Rightarrow> manager \<Rightarrow> manager" where
  "begin_pairing env d rid m = (case tget d (devices m) of
       None \<Rightarrow> respond rid (APair (Err (COther (''unknown device '' @ quote d)))) m
     | Some st \<Rightarrow>
         if \<not> is_connected st
         then respond rid (APair (Err (COther ''device not connected yet; wait for discovery''))) m
         else if pinned_fingerprint st \<noteq> None then respond rid (APair (Err (COther ''already paired''))) m
         else let st1 = st\<lparr>pending_pair_reply := Some rid\<rparr>; (p, m1) = pair_packet True m in
           (case send_out env st1 p of
              (Inl err, st2) \<Rightarrow> respond rid (APair (Err err))
                 (m1\<lparr>devices := tput d (st2\<lparr>pending_pair_reply := None\<rparr>) (devices m1)\<rparr>)
            | (Inr _, st2) \<Rightarrow> m1\<lparr>devices := tput d st2 (devices m1)\<rparr>))"

definition unpair :: "mgr_env \<Rightarrow> string \<Rightarrow> manager \<Rightarrow> (core_error + unit) \<times> manager" where
  "unpair env d m = (Ok (), persist_trust env d False (send_pair env d False m))"

section \<open>Sending and receiving files\<close>

definition sweep :: "mgr_env \<Rightarrow> path option \<Rightarrow> manager \<Rightarrow> manager" where
  "sweep env cl m = (case cl of None \<Rightarrow> m | Some tmp \<Rightarrow> m\<lparr>mfs := remove_quietly (io_faults env) tmp (mfs m)\<rparr>)"

definition set_transfer :: "string \<Rightarrow> string \<Rightarrow> string option \<Rightarrow> manager \<Rightarrow> manager" where
  "set_transfer tid s why m =
     m\<lparr>transfers := tmod tid (\<lambda>r. r\<lparr>tr_state := s, reason := why\<rparr>) (transfers m)\<rparr>"

definition send_empty :: "mgr_env \<Rightarrow> string \<Rightarrow> device_state \<Rightarrow> string \<Rightarrow> i64 \<Rightarrow> manager \<Rightarrow> (core_error + string) \<times> manager" where
  "send_empty env d st fname modified m =
     (let (header, m1) = new_packet TYPE_SHARE (JObj [(''filename'', JStr fname), (''lastModified'', JInt (sint modified)),
            (''numberOfFiles'', JInt 1), (''totalPayloadSize'', JInt 0)]) m in
      case send_out env st header of
        (Inl err, _) \<Rightarrow> (Err err, m1)
      | (Inr _, st') \<Rightarrow>
          let (tid, m2) = new_transfer_id (m1\<lparr>devices := tput d st' (devices m1)\<rparr>) in
          (Ok tid, pub (TransferFinished tid)
             (set_transfer tid ''finished'' None (register_transfer tid d ''outgoing'' fname 0 m2))))"

definition send_payload :: "mgr_env \<Rightarrow> string \<Rightarrow> device_state \<Rightarrow> string \<Rightarrow> i64 \<Rightarrow> u64 \<Rightarrow> u16 \<Rightarrow> materialized \<Rightarrow>
    manager \<Rightarrow> (core_error + string) \<times> manager" where
  "send_payload env d st fname modified sz port mat m =
     (let (p, m1) = new_packet TYPE_SHARE (JObj [(''filename'', JStr fname), (''creationTime'', JInt (sint modified)),
            (''lastModified'', JInt (sint modified)), (''numberOfFiles'', JInt 1),
            (''totalPayloadSize'', JInt (uint sz))]) m;
          header = with_payload p sz port in
      case send_out env st header of
        (Inl err, _) \<Rightarrow> (Err err, sweep env (mat_cleanup mat) m1)
      | (Inr _, st') \<Rightarrow>
          let (tid, m2) = new_transfer_id (m1\<lparr>devices := tput d st' (devices m1)\<rparr>) in
          (Ok tid, spawn_task (SendTask tid port (mat_local mat) (mat_cleanup mat) sz)
             (register_transfer tid d ''outgoing'' fname sz m2)))"

definition send_file :: "mgr_env \<Rightarrow> string \<Rightarrow> string \<Rightarrow> manager \<Rightarrow> (core_error + string) \<times> manager" where
  "send_file env d input m =
     (case materialize_source (helper_tools env) (io_faults env) (home_dir env) (tmp_path env) input (mfs m) of
        (Inl err, fs1) \<Rightarrow> (Err err, m\<lparr>mfs := fs1\<rparr>)
      | (Inr mat, fs1) \<Rightarrow>
          let m1 = m\<lparr>mfs := fs1\<rparr>;
              fail = (\<lambda>msg. (Err (COther msg), sweep env (mat_cleanup mat) m1)) in
          (case metadata env (mat_local mat) of
             Inl err \<Rightarrow> fail (''cannot stat '' @ mat_local mat @ '': '' @ err)
           | Inr (is_file, sz, modified) \<Rightarrow>
               if \<not> is_file then fail (mat_local mat @ '' is not a regular file'')
               else (case tget d (devices m1) of
                   None \<Rightarrow> fail (''device '' @ quote d @ '' is unknown'')
                 | Some st \<Rightarrow>
                     if \<not> is_connected st then fail (''device '' @ quote d @ '' is offline'')
                     else
                       let fname = (if path_name (mat_local mat) = [] then ''file'' else path_name (mat_local mat)) in
                       if sz = 0 then send_empty env d st fname modified m1
                       else (case bind_port env of
                           Inl err \<Rightarrow> (Err err, m1)
                         | Inr port \<Rightarrow> send_payload env d st fname modified sz port mat m1))))"

definition header_file_name :: "packet \<Rightarrow> string" where
  "header_file_name p = unwrap_or (get_str (body p) ''filename'') ''received-file''"

definition announced_size :: "packet \<Rightarrow> u64" where
  "announced_size p = (let announced = unwrap_or (payload_size p) 0 in
     if announced <s 0 then UNKNOWN_SIZE else announced)"

definition spawn_receive :: "string \<Rightarrow> packet \<Rightarrow> bool \<Rightarrow> manager \<Rightarrow> manager" where
  "spawn_receive d header payload m =
     (if \<not> thas d (devices m) then m
      else let fname = header_file_name header;
               sz = announced_size header;
               (tid, m1) = new_transfer_id m;
               tot = (if sz = UNKNOWN_SIZE then 0 else sz)
           in spawn_task (ReceiveTask tid d fname sz payload) (register_transfer tid d ''incoming'' fname tot m1))"

definition on_share_payload :: "string \<Rightarrow> packet \<Rightarrow> string + unit \<Rightarrow> manager \<Rightarrow> manager" where
  "on_share_payload d header payload m = (case payload of
       Inr _ \<Rightarrow> spawn_receive d header True m
     | Inl why \<Rightarrow>
         let (tid, m1) = new_transfer_id m in
         pub (TransferFailed tid why)
           (set_transfer tid ''failed'' (Some why)
             (register_transfer tid d ''incoming'' (header_file_name header) 0 m1)))"

section \<open>Packets\<close>

fun dispatch_list :: "plugin_env \<Rightarrow> packet \<Rightarrow> plugin list \<Rightarrow> i64 \<Rightarrow> packet list \<times> plugin list \<times> i64" where
  "dispatch_list env p [] c = ([], [], c)"
| "dispatch_list env p (pl # pls) c =
     (if ptype p \<in> set (pm_incoming (plugin_meta_of pl))
      then let (rs, pl', c1) = plugin_handle env p pl c; (rs', pls', c2) = dispatch_list env p pls c1
           in (rs @ rs', pl' # pls', c2)
      else let (rs', pls', c2) = dispatch_list env p pls c in (rs', pl # pls', c2))"

definition dispatch_to_plugins :: "mgr_env \<Rightarrow> string \<Rightarrow> packet \<Rightarrow> manager \<Rightarrow> packet list \<times> manager" where
  "dispatch_to_plugins env d p m = (case tget d (devices m) of
       None \<Rightarrow> ([], m)
     | Some st \<Rightarrow>
         let (rs, pls, c) = dispatch_list (plugin_world env) p (plugins st) (packet_ids m) in
         (rs, m\<lparr>devices := tput d (st\<lparr>plugins := pls\<rparr>) (devices m), packet_ids := c\<rparr>))"

definition emit_side_events :: "packet \<Rightarrow> manager \<Rightarrow> manager" where
  "emit_side_events p m =
     (if ptype p = TYPE_NOTIFICATION then
        let g = (\<lambda>k. unwrap_or (get_str (body p) k) []) in
        pub (NotificationReceived (g ''id'') (g ''appName'') (g ''title'') (g ''text'')) m
      else if ptype p = TYPE_CLIPBOARD then
        (case get_str (body p) ''content'' of Some txt \<Rightarrow> pub (ClipboardUpdated txt) m | None \<Rightarrow> m)
      else m)"

definition on_packet :: "mgr_env \<Rightarrow> string \<Rightarrow> packet \<Rightarrow> manager \<Rightarrow> manager" where
  "on_packet env d p m =
     (if ptype p = TYPE_IDENTITY then (case identity_of_json (body p) of
          Some i \<Rightarrow> m\<lparr>devices := tmod d (\<lambda>st. st\<lparr>ds_identity := i\<rparr>) (devices m)\<rparr>
        | None \<Rightarrow> m)
      else if ptype p = TYPE_PAIR then on_pair_packet env d p m
      else if ptype p = TYPE_SHARE \<and> jget (body p) ''filename'' \<noteq> None then spawn_receive d p False m
      else let (rs, m1) = dispatch_to_plugins env d p m
           in fold (send_quiet env d) rs (emit_side_events p m1))"

section \<open>The actor loop\<close>

definition snapshot :: "manager \<Rightarrow> json list" where
  "snapshot m = map (\<lambda>(d, st). JObj
     [(''device_id'', JStr d), (''name'', JStr (device_name (ds_identity st))),
      (''type'', JStr (device_type (ds_identity st))), (''paired'', JBool (pinned_fingerprint st \<noteq> None)),
      (''online'', JBool (is_connected st)),
      (''capabilities_incoming'', JArr (map JStr (incoming (ds_identity st)))),
      (''capabilities_outgoing'', JArr (map JStr (outgoing (ds_identity st))))])
     (sort_key (\<lambda>(d, st). device_name (ds_identity st)) (devices m))"

definition reply_with :: "nat \<Rightarrow> ('a \<Rightarrow> answer) \<Rightarrow> 'a \<times> manager \<Rightarrow> manager" where
  "reply_with rid f r = respond rid (f (fst r)) (snd r)"

fun mgr_step :: "mgr_env \<Rightarrow> command \<Rightarrow> manager \<Rightarrow> manager" where
  "mgr_step env (Announce a) m = on_announce a m"
| "mgr_step env (Connected d t) m = on_connected d t m"
| "mgr_step env (PacketFrom d p) m = on_packet env d p m"
| "mgr_step env (ConnClosed d) m = on_closed d m"
| "mgr_step env (ListDevices rid) m = respond rid (ADevices (snapshot m)) m"
| "mgr_step env (StartPairing d rid) m = begin_pairing env d rid m"
| "mgr_step env (Unpair d rid) m = reply_with rid AUnit (unpair env d m)"
| "mgr_step env (PairingAnswer d acc rid) m = reply_with rid AUnit (answer_incoming_pairing env d acc m)"
| "mgr_step env (PairingTimeout d) m = pairing_timeout env d m"
| "mgr_step env (SendFile d inp rid) m = reply_with rid AId (send_file env d inp m)"
| "mgr_step env (ListTransfers rid) m = respond rid (ATransfers (transfer_snapshot m)) m"
| "mgr_step env (CancelTransfer tid rid) m = reply_with rid AUnit (cancel_transfer tid m)"
| "mgr_step env (SharePayload d h r) m = on_share_payload d h r m"
| "mgr_step env (TransferOutcome tid r) m = on_transfer_outcome env tid r m"

text \<open>
  Between two commands the spawned transfer tasks run; they share the engine, the file system and the
  bus with the manager, and nothing else.
\<close>

datatype mgr_input = Deliver mgr_env command | TaskRan engine fs "event list"

fun mgr_input_step :: "mgr_input \<Rightarrow> manager \<Rightarrow> manager" where
  "mgr_input_step (Deliver env c) m = mgr_step env c m"
| "mgr_input_step (TaskRan e fs evs) m = m\<lparr>mengine := e, mfs := fs, mbus := fold publish evs (mbus m)\<rparr>"

definition mgr_run :: "mgr_input list \<Rightarrow> manager \<Rightarrow> manager" where
  "mgr_run = fold mgr_input_step"

end
