(* ===== verification/Hf_Trust.thy ===== *)
theory Hf_Trust
  imports Hf_Device
begin

text \<open>
  Who is trusted, and under which certificate: the invariants of the device manager's table of
  devices, when a command grants or ends trust, what one command may touch, and that the database
  and the memory of the manager agree, also across a restart.
\<close>

section \<open>Invariants and specifications\<close>

definition trust :: "manager \<Rightarrow> string \<Rightarrow> string option" where
  "trust m d = Option.bind (tget d (devices m)) pinned_fingerprint"

definition live_of :: "manager \<Rightarrow> string \<Rightarrow> string option" where
  "live_of m d = Option.bind (tget d (devices m)) live_fingerprint"

text \<open>
  A device holds a connection exactly when it knows that connection's certificate; a pairing the user
  started is pending only on a connection; and a paired device is connected only under its pinned
  certificate.  Fingerprints are SHA-256 digests in hexadecimal.
\<close>

definition dev_ok :: "device_state \<Rightarrow> bool" where
  "dev_ok st \<longleftrightarrow> (outbound st \<noteq> None \<longleftrightarrow> live_fingerprint st \<noteq> None) \<and>
     (pending_pair_reply st \<noteq> None \<longrightarrow> outbound st \<noteq> None) \<and>
     (pinned_fingerprint st \<noteq> None \<and> live_fingerprint st \<noteq> None \<longrightarrow> live_fingerprint st = pinned_fingerprint st) \<and>
     pred_option (\<lambda>f. length f = 64) (pinned_fingerprint st) \<and>
     pred_option (\<lambda>f. length f = 64) (live_fingerprint st)"

definition mgr_inv :: "manager \<Rightarrow> bool" where
  "mgr_inv m \<longleftrightarrow> distinct (keys (devices m)) \<and> (\<forall>d st. tget d (devices m) = Some st \<longrightarrow> dev_ok st) \<and>
     (\<forall>d. thas d (incoming_pairs m) \<longrightarrow> connected_now m d)"

text \<open>The certificate a TLS connection reports is identified by a 32-byte digest.\<close>

fun input_ok :: "mgr_input \<Rightarrow> manager \<Rightarrow> bool" where
  "input_ok (Deliver env (Connected d t)) m = (length (peer_fingerprint t) = 32)"
| "input_ok _ m = True"

text \<open>When a command makes a device trusted, and when it ends the trust.\<close>

definition grants :: "mgr_env \<Rightarrow> command \<Rightarrow> manager \<Rightarrow> string \<Rightarrow> bool" where
  "grants env c m x = (case c of
       PacketFrom d p \<Rightarrow> d = x \<and> ptype p = TYPE_PAIR \<and> get_bool (body p) ''pair'' = Some True \<and>
         (pending_of m d \<noteq> None \<or> auto_accept env m \<and> connected_now m d)
     | PairingAnswer d acc rid \<Rightarrow> d = x \<and> acc \<and>
         (case tget d (incoming_pairs m) of None \<Rightarrow> False | Some deadline \<Rightarrow> instant env \<le> deadline)
     | _ \<Rightarrow> False)"

definition revokes :: "command \<Rightarrow> manager \<Rightarrow> string \<Rightarrow> bool" where
  "revokes c m x = (case c of
       PacketFrom d p \<Rightarrow> d = x \<and> ptype p = TYPE_PAIR \<and> get_bool (body p) ''pair'' = Some False \<and> pending_of m d = None
     | Unpair d rid \<Rightarrow> d = x
     | _ \<Rightarrow> False)"

text \<open>The device a command is about.\<close>

fun subject :: "command \<Rightarrow> string option" where
  "subject (Announce a) = Some (device_id (ann_identity a))"
| "subject (Connected d t) = Some d"
| "subject (PacketFrom d p) = Some d"
| "subject (ConnClosed d) = Some d"
| "subject (StartPairing d rid) = Some d"
| "subject (Unpair d rid) = Some d"
| "subject (PairingAnswer d acc rid) = Some d"
| "subject (PairingTimeout d) = Some d"
| "subject (SendFile d p rid) = Some d"
| "subject (SharePayload d h r) = Some d"
| "subject _ = None"

text \<open>What the database says about a device, and that memory agrees with it.\<close>

definition stored_pin :: "store \<Rightarrow> string \<Rightarrow> string option" where
  "stored_pin s d = (case row_of s d of
       None \<Rightarrow> None
     | Some r \<Rightarrow> if paired r then Some (cert_fingerprint r) else None)"

definition store_agrees :: "manager \<Rightarrow> bool" where
  "store_agrees m \<longleftrightarrow> store_wf (mstore m) \<and>
     (\<forall>d. d \<noteq> self_device_id m \<longrightarrow> trust m d = stored_pin (mstore m) d)"

fun db_ok :: "mgr_input \<Rightarrow> manager \<Rightarrow> bool" where
  "db_ok (Deliver env c) m = (db_fault env = None)"
| "db_ok _ m = True"

section \<open>What the small steps change\<close>

lemma pub_simps [simp]:
  "devices (pub e m) = devices m" "incoming_pairs (pub e m) = incoming_pairs m" "mstore (pub e m) = mstore m"
  "transfers (pub e m) = transfers m" "next_transfer_seq (pub e m) = next_transfer_seq m"
  "answers (pub e m) = answers m" "self_device_id (pub e m) = self_device_id m" "mbus (pub e m) = mbus m @ [e]"
  "tasks (pub e m) = tasks m"
  by (simp_all add: pub_def publish_def)

lemma respond_simps [simp]:
  "devices (respond rid a m) = devices m" "incoming_pairs (respond rid a m) = incoming_pairs m"
  "mstore (respond rid a m) = mstore m" "transfers (respond rid a m) = transfers m"
  "next_transfer_seq (respond rid a m) = next_transfer_seq m"
  "answers (respond rid a m) = answers m @ [(rid, a)]"
  "self_device_id (respond rid a m) = self_device_id m" "mbus (respond rid a m) = mbus m"
  "tasks (respond rid a m) = tasks m"
  by (simp_all add: respond_def)

lemma spawn_task_simps [simp]:
  "devices (spawn_task t m) = devices m" "incoming_pairs (spawn_task t m) = incoming_pairs m"
  "mstore (spawn_task t m) = mstore m" "transfers (spawn_task t m) = transfers m"
  "next_transfer_seq (spawn_task t m) = next_transfer_seq m" "answers (spawn_task t m) = answers m"
  "self_device_id (spawn_task t m) = self_device_id m" "mbus (spawn_task t m) = mbus m"
  "tasks (spawn_task t m) = tasks m @ [t]"
  by (simp_all add: spawn_task_def)

lemma new_packet_simps [simp]:
  "devices (snd (new_packet t b m)) = devices m" "incoming_pairs (snd (new_packet t b m)) = incoming_pairs m"
  "mstore (snd (new_packet t b m)) = mstore m" "transfers (snd (new_packet t b m)) = transfers m"
  "next_transfer_seq (snd (new_packet t b m)) = next_transfer_seq m" "answers (snd (new_packet t b m)) = answers m"
  "self_device_id (snd (new_packet t b m)) = self_device_id m" "mbus (snd (new_packet t b m)) = mbus m"
  "tasks (snd (new_packet t b m)) = tasks m" "mfs (snd (new_packet t b m)) = mfs m"
  "ptype (fst (new_packet t b m)) = t" "body (fst (new_packet t b m)) = b"
  by (simp_all add: new_packet_def packet_new_def Let_def split: prod.splits)

lemma send_quiet_simps [simp]:
  "devices (send_quiet env d p m) = tmod d (\<lambda>st. snd (send_out env st p)) (devices m)"
  "incoming_pairs (send_quiet env d p m) = incoming_pairs m" "mstore (send_quiet env d p m) = mstore m"
  "transfers (send_quiet env d p m) = transfers m" "next_transfer_seq (send_quiet env d p m) = next_transfer_seq m"
  "answers (send_quiet env d p m) = answers m" "self_device_id (send_quiet env d p m) = self_device_id m"
  by (simp_all add: send_quiet_def)

lemma send_out_simps [simp]:
  "live_fingerprint (snd (send_out env st p)) = live_fingerprint st"
  "pinned_fingerprint (snd (send_out env st p)) = pinned_fingerprint st"
  "pending_pair_reply (snd (send_out env st p)) = pending_pair_reply st"
  "is_connected (snd (send_out env st p)) = is_connected st"
  "outbound (snd (send_out env st p)) = None \<longleftrightarrow> outbound st = None"
  by (auto simp: send_out_def is_connected_def split: option.splits)

lemma dev_ok_send_out [simp]: "dev_ok (snd (send_out env st p)) = dev_ok st"
  by (simp add: dev_ok_def)

lemma length_hex [simp]: "length (hex bs) = 2 * length bs"
  by (induction bs) (simp_all add: hex_def hex_byte_def Let_def)

section \<open>Steps that leave trust alone\<close>

text \<open>
  Most handlers touch neither connections nor pairings.  A step is quiet when every device keeps its
  connection status, certificates and pending pairing; quiet steps compose, and everything the
  invariants speak about survives them.
\<close>

definition dview :: "device_state \<Rightarrow> bool \<times> string option \<times> string option \<times> nat option" where
  "dview st = (is_connected st, live_fingerprint st, pinned_fingerprint st, pending_pair_reply st)"

definition quiet :: "manager \<Rightarrow> manager \<Rightarrow> bool" where
  "quiet m m' \<longleftrightarrow> (distinct (keys (devices m)) \<longrightarrow> distinct (keys (devices m'))) \<and>
     (\<forall>x. map_option dview (tget x (devices m')) = map_option dview (tget x (devices m))) \<and>
     incoming_pairs m' = incoming_pairs m \<and> mstore m' = mstore m \<and> self_device_id m' = self_device_id m"

lemma quiet_refl [simp]: "quiet m m"
  by (simp add: quiet_def)

lemma quiet_trans: "quiet m m' \<Longrightarrow> quiet m' m'' \<Longrightarrow> quiet m m''"
  by (simp add: quiet_def)

lemma quietI:
  assumes "devices m' = devices m" "incoming_pairs m' = incoming_pairs m" "mstore m' = mstore m"
    "self_device_id m' = self_device_id m"
  shows "quiet m m'"
  using assms by (simp add: quiet_def)

lemma quiet_modI:
  assumes "devices m' = tmod d f (devices m)" "\<And>st. dview (f st) = dview st"
    "incoming_pairs m' = incoming_pairs m" "mstore m' = mstore m" "self_device_id m' = self_device_id m"
  shows "quiet m m'"
  using assms by (auto simp: quiet_def option.map_comp comp_def intro!: option.map_cong)

lemma quiet_putI:
  assumes "devices m' = tput d st' (devices m)" "tget d (devices m) = Some st" "dview st' = dview st"
    "incoming_pairs m' = incoming_pairs m" "mstore m' = mstore m" "self_device_id m' = self_device_id m"
  shows "quiet m m'"
  using assms by (simp add: quiet_def)

lemma quiet_views:
  assumes "quiet m m'"
  shows "trust m' x = trust m x" "live_of m' x = live_of m x" "pending_of m' x = pending_of m x"
    "connected_now m' x = connected_now m x"
proof -
  have "map_option dview (tget x (devices m')) = map_option dview (tget x (devices m))"
    using assms by (simp add: quiet_def)
  then show "trust m' x = trust m x" "live_of m' x = live_of m x" "pending_of m' x = pending_of m x"
      "connected_now m' x = connected_now m x"
    by (cases "tget x (devices m)"; cases "tget x (devices m')";
        simp add: trust_def live_of_def pending_of_def connected_now_def dview_def)+
qed

lemma dev_ok_dview: "dview st = dview st' \<Longrightarrow> dev_ok st = dev_ok st'"
  by (simp add: dview_def dev_ok_def is_connected_def)

lemma quiet_inv:
  assumes "quiet m m'" "mgr_inv m"
  shows "mgr_inv m'"
proof -
  have "dev_ok st" if "tget d (devices m') = Some st" for d st
  proof -
    have "map_option dview (tget d (devices m)) = Some (dview st)"
      using assms(1) that unfolding quiet_def by (metis option.simps(9))
    then obtain st0 where "tget d (devices m) = Some st0" "dview st0 = dview st"
      by (auto simp: map_option_eq_Some)
    then show ?thesis
      using assms(2) dev_ok_dview [of st0 st] by (simp add: mgr_inv_def)
  qed
  moreover have "incoming_pairs m' = incoming_pairs m" "distinct (keys (devices m'))"
    using assms by (simp_all add: quiet_def mgr_inv_def)
  ultimately show ?thesis
    using assms(2) quiet_views(4) [OF assms(1)] by (simp add: mgr_inv_def)
qed

lemma dview_simps [simp]:
  "dview (snd (send_out env st p)) = dview st"
  "dview (st\<lparr>ds_identity := i\<rparr>) = dview st"
  "dview (st\<lparr>plugins := pls\<rparr>) = dview st"
  "dview (st\<lparr>addr := a\<rparr>) = dview st"
  by (simp_all add: dview_def is_connected_def)

lemma pair_packet_simps [simp]:
  "devices (snd (pair_packet b m)) = devices m" "incoming_pairs (snd (pair_packet b m)) = incoming_pairs m"
  "mstore (snd (pair_packet b m)) = mstore m" "transfers (snd (pair_packet b m)) = transfers m"
  "next_transfer_seq (snd (pair_packet b m)) = next_transfer_seq m" "answers (snd (pair_packet b m)) = answers m"
  "self_device_id (snd (pair_packet b m)) = self_device_id m"
  by (simp_all add: pair_packet_def)

lemma send_pair_simps [simp]:
  "devices (send_pair env d b m) = tmod d (\<lambda>st. snd (send_out env st (fst (pair_packet b m)))) (devices m)"
  "incoming_pairs (send_pair env d b m) = incoming_pairs m" "mstore (send_pair env d b m) = mstore m"
  "transfers (send_pair env d b m) = transfers m" "next_transfer_seq (send_pair env d b m) = next_transfer_seq m"
  "answers (send_pair env d b m) = answers m" "self_device_id (send_pair env d b m) = self_device_id m"
  by (simp_all add: send_pair_def split: prod.split) (metis pair_packet_simps fst_conv snd_conv)+

lemma quiet_send_pair [simp]: "quiet m (send_pair env d b m)"
  by (rule quiet_modI [of _ d "\<lambda>st. snd (send_out env st (fst (pair_packet b m)))"]) simp_all

lemma quiet_send_quiet [simp]: "quiet m (send_quiet env d p m)"
  by (rule quiet_modI [of _ d "\<lambda>st. snd (send_out env st p)"]) simp_all

lemma quiet_send_all: "quiet m (fold (send_quiet env d) ps m)"
  by (induction ps arbitrary: m) (auto intro: quiet_trans [OF quiet_send_quiet])

lemma quiet_pub [simp]: "quiet m (pub e m)"
  by (rule quietI) simp_all

lemma quiet_respond [simp]: "quiet m (respond rid a m)"
  by (rule quietI) simp_all

lemma quiet_dispatch: "quiet m (snd (dispatch_to_plugins env d p m))"
proof (cases "tget d (devices m)")
  case (Some st)
  obtain rs pls c where "dispatch_list (plugin_world env) p (plugins st) (packet_ids m) = (rs, pls, c)"
    using prod_cases3 by blast
  then have "snd (dispatch_to_plugins env d p m) =
      m\<lparr>devices := tput d (st\<lparr>plugins := pls\<rparr>) (devices m), packet_ids := c\<rparr>"
    using Some by (simp add: dispatch_to_plugins_def)
  then show ?thesis
    by (intro quiet_putI [OF _ Some, of _ "st\<lparr>plugins := pls\<rparr>"]) simp_all
qed (simp add: dispatch_to_plugins_def)

lemma quiet_emit: "quiet m (emit_side_events p m)"
  by (simp add: emit_side_events_def Let_def split: option.split)

lemma new_transfer_id_simps [simp]:
  "devices (snd (new_transfer_id m)) = devices m" "incoming_pairs (snd (new_transfer_id m)) = incoming_pairs m"
  "mstore (snd (new_transfer_id m)) = mstore m" "self_device_id (snd (new_transfer_id m)) = self_device_id m"
  "transfers (snd (new_transfer_id m)) = transfers m" "answers (snd (new_transfer_id m)) = answers m"
  "next_transfer_seq (snd (new_transfer_id m)) = next_transfer_seq m + 1"
  "fst (new_transfer_id m) = ''t'' @ show_nat (unat (next_transfer_seq m + 1))"
  by (simp_all add: new_transfer_id_def Let_def)

lemma register_transfer_simps [simp]:
  "devices (register_transfer i d dir f n m) = devices m"
  "incoming_pairs (register_transfer i d dir f n m) = incoming_pairs m"
  "mstore (register_transfer i d dir f n m) = mstore m"
  "self_device_id (register_transfer i d dir f n m) = self_device_id m"
  "answers (register_transfer i d dir f n m) = answers m"
  "next_transfer_seq (register_transfer i d dir f n m) = next_transfer_seq m"
  "tasks (register_transfer i d dir f n m) = tasks m"
  "transfers (register_transfer i d dir f n m) = tput i \<lparr>tr_device_id = d, direction = dir, tr_file_name = f,
     total = n, tr_state = ''active'', tr_done = 0, reason = None, cancel = False\<rparr> (transfers m)"
  by (simp_all add: register_transfer_def)

lemma set_transfer_simps [simp]:
  "devices (set_transfer i s w m) = devices m" "incoming_pairs (set_transfer i s w m) = incoming_pairs m"
  "mstore (set_transfer i s w m) = mstore m" "self_device_id (set_transfer i s w m) = self_device_id m"
  "answers (set_transfer i s w m) = answers m" "next_transfer_seq (set_transfer i s w m) = next_transfer_seq m"
  "transfers (set_transfer i s w m) = tmod i (\<lambda>r. r\<lparr>tr_state := s, reason := w\<rparr>) (transfers m)"
  by (simp_all add: set_transfer_def)

lemma sweep_simps [simp]:
  "devices (sweep env c m) = devices m" "incoming_pairs (sweep env c m) = incoming_pairs m"
  "mstore (sweep env c m) = mstore m" "self_device_id (sweep env c m) = self_device_id m"
  "transfers (sweep env c m) = transfers m" "answers (sweep env c m) = answers m"
  "next_transfer_seq (sweep env c m) = next_transfer_seq m" "mbus (sweep env c m) = mbus m"
  "tasks (sweep env c m) = tasks m"
  by (simp_all add: sweep_def split: option.split)

definition swept :: "mgr_env \<Rightarrow> path option \<Rightarrow> fs \<Rightarrow> fs" where
  "swept env c fs = (case c of None \<Rightarrow> fs | Some tmp \<Rightarrow> remove_quietly (io_faults env) tmp fs)"

lemma sweep_mfs: "sweep env c m = m\<lparr>mfs := swept env c (mfs m)\<rparr>"
  by (simp add: sweep_def swept_def split: option.split)

lemma quiet_spawn_receive: "quiet m (spawn_receive d h b m)"
  by (rule quietI) (auto simp: spawn_receive_def Let_def split: prod.split dest!: arg_cong [where f = snd])

lemma quiet_on_share_payload: "quiet m (on_share_payload d h r m)"
proof (cases r)
  case (Inl why)
  then show ?thesis
    by (intro quietI) (simp_all add: on_share_payload_def case_prod_beta)
qed (simp add: on_share_payload_def quiet_spawn_receive)

lemma send_empty_eq:
  "send_empty env d st fname t m =
     (let q = new_packet TYPE_SHARE (JObj [(''filename'', JStr fname), (''lastModified'', JInt (sint t)),
            (''numberOfFiles'', JInt 1), (''totalPayloadSize'', JInt 0)]) m;
          r = send_out env st (fst q) in
      case fst r of Inl err \<Rightarrow> (Err err, snd q)
      | Inr _ \<Rightarrow>
          let n = new_transfer_id ((snd q)\<lparr>devices := tput d (snd r) (devices m)\<rparr>) in
          (Ok (fst n), pub (TransferFinished (fst n))
             (set_transfer (fst n) ''finished'' None (register_transfer (fst n) d ''outgoing'' fname 0 (snd n)))))"
  by (simp add: send_empty_def case_prod_beta Let_def split: sum.split)

lemma send_payload_eq:
  "send_payload env d st fname t sz port mat m =
     (let q = new_packet TYPE_SHARE (JObj [(''filename'', JStr fname), (''creationTime'', JInt (sint t)),
            (''lastModified'', JInt (sint t)), (''numberOfFiles'', JInt 1),
            (''totalPayloadSize'', JInt (uint sz))]) m;
          r = send_out env st (with_payload (fst q) sz port) in
      case fst r of Inl err \<Rightarrow> (Err err, sweep env (mat_cleanup mat) (snd q))
      | Inr _ \<Rightarrow>
          let n = new_transfer_id ((snd q)\<lparr>devices := tput d (snd r) (devices m)\<rparr>) in
          (Ok (fst n), spawn_task (SendTask (fst n) port (mat_local mat) (mat_cleanup mat) sz)
             (register_transfer (fst n) d ''outgoing'' fname sz (snd n))))"
  by (simp add: send_payload_def case_prod_beta Let_def split: sum.split)

lemma quiet_send_empty:
  assumes "tget d (devices m) = Some st"
  shows "quiet m (snd (send_empty env d st fname t m))"
proof -
  define q where "q = new_packet TYPE_SHARE (JObj [(''filename'', JStr fname), (''lastModified'', JInt (sint t)),
            (''numberOfFiles'', JInt 1), (''totalPayloadSize'', JInt 0)]) m"
  show ?thesis
  proof (cases "fst (send_out env st (fst q))")
    case (Inl err)
    then show ?thesis
      by (intro quietI) (simp_all add: send_empty_eq flip: q_def, simp_all add: q_def)
  next
    case (Inr u)
    then show ?thesis
      by (intro quiet_putI [OF _ assms, of _ "snd (send_out env st (fst q))"])
        (simp_all add: send_empty_eq Let_def flip: q_def, simp_all add: q_def)
  qed
qed

lemma quiet_send_payload:
  assumes "tget d (devices m) = Some st"
  shows "quiet m (snd (send_payload env d st fname t sz port mat m))"
proof -
  define q where "q = new_packet TYPE_SHARE (JObj [(''filename'', JStr fname), (''creationTime'', JInt (sint t)),
            (''lastModified'', JInt (sint t)), (''numberOfFiles'', JInt 1),
            (''totalPayloadSize'', JInt (uint sz))]) m"
  show ?thesis
  proof (cases "fst (send_out env st (with_payload (fst q) sz port))")
    case (Inl err)
    then show ?thesis
      by (intro quietI) (simp_all add: send_payload_eq flip: q_def, simp_all add: q_def)
  next
    case (Inr u)
    then show ?thesis
      by (intro quiet_putI [OF _ assms, of _ "snd (send_out env st (with_payload (fst q) sz port))"])
        (simp_all add: send_payload_eq Let_def flip: q_def, simp_all add: q_def)
  qed
qed

text \<open>The paths a send can take: every failure before the header is queued, and the two kinds of header.\<close>

lemma send_file_cases:
  obtains (fail) err fs' where "send_file env d inp m = (Err err, m\<lparr>mfs := fs'\<rparr>)"
  | (empty) st fname t fs1 where "tget d (devices m) = Some st" "is_connected st"
      "send_file env d inp m = send_empty env d st fname t (m\<lparr>mfs := fs1\<rparr>)"
  | (payload) st fname t sz port mat fs1 where "tget d (devices m) = Some st" "is_connected st" "sz \<noteq> 0"
      "bind_port env = Inr port"
      "send_file env d inp m = send_payload env d st fname t sz port mat (m\<lparr>mfs := fs1\<rparr>)"
proof (cases "materialize_source (helper_tools env) (io_faults env) (home_dir env) (tmp_path env) inp (mfs m)")
  case mat: (Pair r fs1)
  show ?thesis
  proof (cases r)
    case (Inl err)
    then show ?thesis
      by (intro fail) (simp add: send_file_def mat)
  next
    case (Inr ml)
    show ?thesis
    proof (cases "metadata env (mat_local ml)")
      case (Inl err)
      then show ?thesis
        by (intro fail) (simp add: send_file_def mat Inr Let_def sweep_mfs)
    next
      case meta: (Inr a)
      obtain is_file sz t where a: "a = (is_file, sz, t)" using prod_cases3 by blast
      note eq = send_file_def mat Inr meta a
      consider "\<not> is_file \<or> tget d (devices m) = None" | st where "is_file" "tget d (devices m) = Some st"
        by (cases "tget d (devices m)") auto
      then show ?thesis
      proof cases
        case 1
        then show ?thesis
          by (cases is_file) (intro fail, simp add: eq Let_def sweep_mfs)+
      next
        case 2
        consider "\<not> is_connected st" | "is_connected st" "sz = 0" | err where "is_connected st" "sz \<noteq> 0" "bind_port env = Inl err"
          | port where "is_connected st" "sz \<noteq> 0" "bind_port env = Inr port"
          by (cases "bind_port env") auto
        then show ?thesis
        proof cases
          case 1
          then show ?thesis using 2 by (intro fail) (simp add: eq Let_def sweep_mfs)
        next
          case 2
          then show ?thesis
            using \<open>is_file\<close> \<open>tget d (devices m) = Some st\<close>
            by (intro empty) (auto simp: eq Let_def)
        next
          case 3
          then show ?thesis
            using \<open>is_file\<close> \<open>tget d (devices m) = Some st\<close>
            by (intro fail) (simp add: eq Let_def)
        next
          case 4
          then show ?thesis
            using \<open>is_file\<close> \<open>tget d (devices m) = Some st\<close>
            by (intro payload) (auto simp: eq Let_def)
        qed
      qed
    qed
  qed
qed

lemma quiet_mfs [simp]: "quiet (m\<lparr>mfs := fs1\<rparr>) m' = quiet m m'"
  by (simp add: quiet_def)

lemma quiet_send_file: "quiet m (snd (send_file env d inp m))"
proof (cases rule: send_file_cases [of env d inp m])
  case (fail err fs')
  then show ?thesis by (intro quietI) simp_all
next
  case (empty st fname t fs1)
  then show ?thesis
    using quiet_send_empty [of d "m\<lparr>mfs := fs1\<rparr>" st env fname t] by simp
next
  case (payload st fname t sz port mat fs1)
  then show ?thesis
    using quiet_send_payload [of d "m\<lparr>mfs := fs1\<rparr>" st env fname t sz port mat] by simp
qed

lemma quiet_cancel: "quiet m (snd (cancel_transfer tid m))"
  by (rule quietI) (simp_all add: cancel_transfer_def split: option.split)

lemma quiet_outcome: "quiet m (on_transfer_outcome env tid r m)"
  by (rule quietI) (simp_all add: on_transfer_outcome_def case_prod_beta Let_def split: sum.split)

lemma quiet_reply: "quiet m (snd r) \<Longrightarrow> quiet m (reply_with rid f r)"
  by (auto simp: reply_with_def intro: quiet_trans)

section \<open>Steps that change connections or pairings\<close>

lemma mgr_inv_update:
  assumes "mgr_inv m" "devices m' = tput d st' (devices m)" "dev_ok st'"
    and "\<And>x. thas x (incoming_pairs m') \<Longrightarrow> if x = d then is_connected st' else thas x (incoming_pairs m)"
  shows "mgr_inv m'"
  using assms by (auto simp: mgr_inv_def connected_now_def split: if_splits)

lemma mgr_inv_connected:
  assumes "mgr_inv m" "tget d (devices m) = Some st" "thas d (incoming_pairs m)"
  shows "is_connected st"
  using assms by (auto simp: mgr_inv_def connected_now_def)

lemma mgr_inv_dev_ok: "mgr_inv m \<Longrightarrow> tget d (devices m) = Some st \<Longrightarrow> dev_ok st"
  by (simp add: mgr_inv_def)

lemma dev_ok_new [simp]: "dev_ok (device_state_new i)" "\<not> is_connected (device_state_new i)"
  by (simp_all add: dev_ok_def device_state_new_def is_connected_def)

lemma persist_trust_simps [simp]:
  "incoming_pairs (persist_trust env d b m) = incoming_pairs m"
  "self_device_id (persist_trust env d b m) = self_device_id m"
  "answers (persist_trust env d b m) = answers m" "transfers (persist_trust env d b m) = transfers m"
  "next_transfer_seq (persist_trust env d b m) = next_transfer_seq m"
  by (simp_all add: persist_trust_def Let_def split: option.split)

text \<open>Trust is recorded under the certificate of the current connection when there is one.\<close>

lemma persist_trust_devices:
  assumes "tget d (devices m) = Some st" "b \<Longrightarrow> live_fingerprint st \<noteq> None"
  shows "devices (persist_trust env d b m) =
    tput d (st\<lparr>pinned_fingerprint := (if b then live_fingerprint st else None)\<rparr>) (devices m)"
  using assms by (auto simp: persist_trust_def Let_def)

lemma persist_trust_absent: "tget d (devices m) = None \<Longrightarrow> persist_trust env d b m = m"
  by (simp add: persist_trust_def)

lemma persist_trust_inv:
  assumes "mgr_inv m" "b \<Longrightarrow> connected_now m d"
  shows "mgr_inv (persist_trust env d b m)"
proof (cases "tget d (devices m)")
  case (Some st)
  have ok: "dev_ok st" using assms(1) Some by (rule mgr_inv_dev_ok)
  have live: "live_fingerprint st \<noteq> None" if b
    using assms(2) [OF that] ok Some by (auto simp: connected_now_def dev_ok_def is_connected_def)
  show ?thesis
  proof (rule mgr_inv_update [OF assms(1) persist_trust_devices [OF Some live]])
    show "dev_ok (st\<lparr>pinned_fingerprint := (if b then live_fingerprint st else None)\<rparr>)"
      using ok by (auto simp: dev_ok_def)
    show "if x = d then is_connected (st\<lparr>pinned_fingerprint := (if b then live_fingerprint st else None)\<rparr>)
        else thas x (incoming_pairs m)"
      if "thas x (incoming_pairs (persist_trust env d b m))" for x
      using that mgr_inv_connected [OF assms(1) Some] by (auto simp: is_connected_def)
  qed
qed (simp add: persist_trust_absent assms(1))

lemma persist_trust_trust:
  assumes "b \<Longrightarrow> live_of m d \<noteq> None"
  shows "trust (persist_trust env d b m) x = (if x = d then (if b then live_of m d else None) else trust m x)"
proof (cases "tget d (devices m)")
  case None
  then show ?thesis
    using assms by (auto simp: persist_trust_absent trust_def live_of_def)
next
  case (Some st)
  have "live_fingerprint st \<noteq> None" if b
    using assms [OF that] Some by (simp add: live_of_def)
  then have "devices (persist_trust env d b m) =
      tput d (st\<lparr>pinned_fingerprint := (if b then live_fingerprint st else None)\<rparr>) (devices m)"
    using Some by (intro persist_trust_devices)
  then show ?thesis
    using Some by (simp add: trust_def live_of_def)
qed

lemma connected_live: "mgr_inv m \<Longrightarrow> connected_now m d \<Longrightarrow> live_of m d \<noteq> None"
  by (auto simp: mgr_inv_def connected_now_def live_of_def dev_ok_def is_connected_def split: option.splits)

lemma pending_connected:
  assumes "mgr_inv m" "pending_of m d \<noteq> None"
  shows "connected_now m d"
proof (cases "tget d (devices m)")
  case (Some st)
  then have "dev_ok st" using assms(1) by (simp add: mgr_inv_def)
  then show ?thesis
    using Some assms(2) by (auto simp: connected_now_def pending_of_def dev_ok_def is_connected_def)
qed (use assms(2) in \<open>simp add: pending_of_def\<close>)

lemma mgr_inv_drop_request: "mgr_inv m \<Longrightarrow> mgr_inv (m\<lparr>incoming_pairs := tdel d (incoming_pairs m)\<rparr>)"
  by (auto simp: mgr_inv_def connected_now_def)

lemma views_requests [simp]:
  "trust (m\<lparr>incoming_pairs := t\<rparr>) x = trust m x" "live_of (m\<lparr>incoming_pairs := t\<rparr>) x = live_of m x"
  "pending_of (m\<lparr>incoming_pairs := t\<rparr>) x = pending_of m x"
  "connected_now (m\<lparr>incoming_pairs := t\<rparr>) x = connected_now m x"
  by (simp_all add: trust_def live_of_def pending_of_def connected_now_def)

lemma views_pub [simp]:
  "trust (pub e m) x = trust m x" "trust (respond rid a m) x = trust m x" "trust (spawn_task t m) x = trust m x"
  "mgr_inv (pub e m) = mgr_inv m" "mgr_inv (respond rid a m) = mgr_inv m" "mgr_inv (spawn_task t m) = mgr_inv m"
  "live_of (respond rid a m) x = live_of m x" "connected_now (respond rid a m) x = connected_now m x"
  by (simp_all add: trust_def mgr_inv_def connected_now_def live_of_def)

text \<open>The user's pending pairing request is answered and forgotten.\<close>

lemma clear_pending_inv:
  assumes "mgr_inv m"
  shows "mgr_inv (m\<lparr>devices := tmod d (\<lambda>st. st\<lparr>pending_pair_reply := None\<rparr>) (devices m)\<rparr>)"
proof (cases "tget d (devices m)")
  case (Some st)
  show ?thesis
  proof (rule mgr_inv_update [OF assms, of _ d "st\<lparr>pending_pair_reply := None\<rparr>"])
    show "dev_ok (st\<lparr>pending_pair_reply := None\<rparr>)"
      using mgr_inv_dev_ok [OF assms Some] by (simp add: dev_ok_def)
  qed (use Some mgr_inv_connected [OF assms Some] in \<open>auto simp: tmod_def is_connected_def\<close>)
qed (use assms in \<open>simp add: tmod_def\<close>)

lemma clear_pending_views [simp]:
  "trust (m\<lparr>devices := tmod d (\<lambda>st. st\<lparr>pending_pair_reply := None\<rparr>) (devices m)\<rparr>) x = trust m x"
  "live_of (m\<lparr>devices := tmod d (\<lambda>st. st\<lparr>pending_pair_reply := None\<rparr>) (devices m)\<rparr>) x = live_of m x"
  "connected_now (m\<lparr>devices := tmod d (\<lambda>st. st\<lparr>pending_pair_reply := None\<rparr>) (devices m)\<rparr>) x = connected_now m x"
  by (auto simp: trust_def live_of_def connected_now_def is_connected_def split: option.splits bind_splits)

lemma on_announce_devices:
  "devices (on_announce a m) = (let d = device_id (ann_identity a); i = ann_identity a;
     st = (case tget d (devices m) of None \<Rightarrow> device_state_new i | Some st \<Rightarrow> st)
     in tput d (st\<lparr>ds_identity := i, addr := Some (ann_ip a, tcp_source_port i)\<rparr>) (devices m))"
  "incoming_pairs (on_announce a m) = incoming_pairs m" "mstore (on_announce a m) = mstore m"
  "self_device_id (on_announce a m) = self_device_id m" "answers (on_announce a m) = answers m"
  "transfers (on_announce a m) = transfers m" "next_transfer_seq (on_announce a m) = next_transfer_seq m"
proof -
  let ?d = "device_id (ann_identity a)"
  have "devices (snd (entry_for_announcement a m)) = (let d = device_id (ann_identity a); i = ann_identity a;
     st = (case tget d (devices m) of None \<Rightarrow> device_state_new i | Some st \<Rightarrow> st)
     in tput d (st\<lparr>ds_identity := i, addr := Some (ann_ip a, tcp_source_port i)\<rparr>) (devices m))"
    by (cases "tget ?d (devices m)") (simp_all add: entry_for_announcement_def Let_def thas_def tmod_def tput_tput)
  then show "devices (on_announce a m) = (let d = device_id (ann_identity a); i = ann_identity a;
     st = (case tget d (devices m) of None \<Rightarrow> device_state_new i | Some st \<Rightarrow> st)
     in tput d (st\<lparr>ds_identity := i, addr := Some (ann_ip a, tcp_source_port i)\<rparr>) (devices m))"
    by (simp add: on_announce_def case_prod_beta split: option.split)
qed (simp_all add: on_announce_def entry_for_announcement_def Let_def split: option.split)

lemma dview_new [simp]: "dview (device_state_new i) = (False, None, None, None)"
  by (simp add: dview_def device_state_new_def is_connected_def)

lemma dview_announce [simp]: "dview (st\<lparr>ds_identity := i, addr := a\<rparr>) = dview st"
  by (simp add: dview_def is_connected_def)

lemma on_announce_inv:
  assumes "mgr_inv m"
  shows "mgr_inv (on_announce a m)"
proof -
  define d where "d = device_id (ann_identity a)"
  define st where "st = (case tget d (devices m) of None \<Rightarrow> device_state_new (ann_identity a) | Some st \<Rightarrow> st)"
  have st: "dev_ok st" "thas d (incoming_pairs m) \<Longrightarrow> is_connected st"
    using assms by (auto simp: st_def mgr_inv_def connected_now_def split: option.splits)
  show ?thesis
  proof (rule mgr_inv_update [OF assms, of _ d])
    show "devices (on_announce a m) = tput d (st\<lparr>ds_identity := ann_identity a,
        addr := Some (ann_ip a, tcp_source_port (ann_identity a))\<rparr>) (devices m)"
      by (simp add: on_announce_devices(1) Let_def st_def d_def)
  qed (use st dev_ok_dview [OF dview_announce] in \<open>auto simp: on_announce_devices is_connected_def\<close>)
qed

lemma on_announce_trust: "trust (on_announce a m) x = trust m x"
  by (simp add: trust_def on_announce_devices(1) Let_def device_state_new_def split: option.split)

lemma pin_mismatch_trust: "pin_mismatch m d fp \<longleftrightarrow> trust m d \<noteq> None \<and> trust m d \<noteq> Some fp"
  by (auto simp: pin_mismatch_def trust_def split: option.splits)

text \<open>A connection that passes the gate replaces the device's connection and certificate.\<close>

lemma on_connected_devices:
  assumes "\<not> pin_mismatch m d (hex (peer_fingerprint t))"
  shows "devices (on_connected d t m) =
    tput d ((case tget d (devices m) of None \<Rightarrow> device_state_new (shell_identity d) | Some st \<Rightarrow> st)
      \<lparr>outbound := Some \<lparr>conn_id = next_conn m, queued = []\<rparr>, live_fingerprint := Some (hex (peer_fingerprint t))\<rparr>) (devices m)"
  using assms by (simp add: on_connected_def Let_def split: option.split)

lemma on_connected_rest [simp]:
  "incoming_pairs (on_connected d t m) = incoming_pairs m" "mstore (on_connected d t m) = mstore m"
  "self_device_id (on_connected d t m) = self_device_id m" "answers (on_connected d t m) = answers m"
  "transfers (on_connected d t m) = transfers m" "next_transfer_seq (on_connected d t m) = next_transfer_seq m"
  by (simp_all add: on_connected_def Let_def split: option.split)

lemma on_connected_inv:
  assumes "mgr_inv m" "length (peer_fingerprint t) = 32"
  shows "mgr_inv (on_connected d t m)"
proof (cases "pin_mismatch m d (hex (peer_fingerprint t))")
  case True
  then show ?thesis using assms by (simp add: on_connected_def)
next
  case False
  show ?thesis
  proof (rule mgr_inv_update [OF assms(1) on_connected_devices [OF False]])
    show "dev_ok ((case tget d (devices m) of None \<Rightarrow> device_state_new (shell_identity d) | Some st \<Rightarrow> st)
      \<lparr>outbound := Some \<lparr>conn_id = next_conn m, queued = []\<rparr>, live_fingerprint := Some (hex (peer_fingerprint t))\<rparr>)"
      using False assms mgr_inv_dev_ok [OF assms(1), of d]
      by (auto simp: pin_mismatch_def dev_ok_def device_state_new_def split: option.splits)
  qed (simp add: is_connected_def split: option.split)
qed

lemma on_connected_trust: "trust (on_connected d t m) x = trust m x"
proof (cases "pin_mismatch m d (hex (peer_fingerprint t))")
  case False
  then show ?thesis
    using on_connected_devices [OF False] by (simp add: trust_def device_state_new_def split: option.split)
qed (simp add: on_connected_def)

lemma on_closed_devices:
  "devices (on_closed d m) = tmod d (\<lambda>st. st\<lparr>outbound := None, live_fingerprint := None, pending_pair_reply := None\<rparr>) (devices m)"
  "incoming_pairs (on_closed d m) = tdel d (incoming_pairs m)" "mstore (on_closed d m) = mstore m"
  "self_device_id (on_closed d m) = self_device_id m" "transfers (on_closed d m) = transfers m"
  "next_transfer_seq (on_closed d m) = next_transfer_seq m"
  by (simp_all add: on_closed_def Let_def tmod_def split: option.split)

lemma on_closed_inv:
  assumes "mgr_inv m"
  shows "mgr_inv (on_closed d m)"
proof (cases "tget d (devices m)")
  case (Some st)
  show ?thesis
  proof (rule mgr_inv_update [OF assms, of _ d])
    show "devices (on_closed d m) =
        tput d (st\<lparr>outbound := None, live_fingerprint := None, pending_pair_reply := None\<rparr>) (devices m)"
      using Some by (simp add: on_closed_devices tmod_def)
  qed (use mgr_inv_dev_ok [OF assms Some] in \<open>auto simp: on_closed_devices dev_ok_def\<close>)
next
  case None
  then have "devices (on_closed d m) = devices m" by (simp add: on_closed_devices tmod_def)
  then show ?thesis using assms by (simp add: mgr_inv_def connected_now_def on_closed_devices(2))
qed

lemma on_closed_trust: "trust (on_closed d m) x = trust m x"
  by (auto simp: trust_def on_closed_devices split: bind_splits)

lemma park_request_inv: "mgr_inv m \<Longrightarrow> connected_now m d \<Longrightarrow> mgr_inv (park_request env d m)"
  by (auto simp: mgr_inv_def park_request_def Let_def connected_now_def)

lemma park_request_trust [simp]: "trust (park_request env d m) x = trust m x"
  by (simp add: park_request_def Let_def)

lemma send_pair_views [simp]:
  "trust (send_pair env d b m) x = trust m x" "connected_now (send_pair env d b m) x = connected_now m x"
  "live_of (send_pair env d b m) x = live_of m x"
  by (simp_all add: quiet_views [OF quiet_send_pair])

lemma send_pair_inv: "mgr_inv m \<Longrightarrow> mgr_inv (send_pair env d b m)"
  by (rule quiet_inv [OF quiet_send_pair])

text \<open>The four ways a pair packet is handled, and what each does to the trust in the sender.\<close>

lemma on_pair_packet_cases:
  obtains (malformed) "get_bool (body p) ''pair'' = None" "on_pair_packet env d p m = m"
  | (answered) w rid where "get_bool (body p) ''pair'' = Some w" "pending_of m d = Some rid"
      "on_pair_packet env d p m = (let m1 = respond rid (APair (Ok w))
         (m\<lparr>devices := tmod d (\<lambda>st. st\<lparr>pending_pair_reply := None\<rparr>) (devices m)\<rparr>)
       in if w then persist_trust env d True m1 else m1)"
  | (auto_accepted) "get_bool (body p) ''pair'' = Some True" "pending_of m d = None" "auto_accept env m"
      "connected_now m d" "on_pair_packet env d p m = send_pair env d True (persist_trust env d True m)"
  | (unanswerable) "get_bool (body p) ''pair'' = Some True" "pending_of m d = None" "\<not> connected_now m d"
      "on_pair_packet env d p m = send_pair env d False m"
  | (parked) "get_bool (body p) ''pair'' = Some True" "pending_of m d = None" "\<not> auto_accept env m"
      "connected_now m d" "on_pair_packet env d p m = park_request env d m"
  | (revoked) "get_bool (body p) ''pair'' = Some False" "pending_of m d = None"
      "on_pair_packet env d p m = pub (DeviceStateChanged d ''unpaired'')
         (persist_trust env d False (m\<lparr>incoming_pairs := tdel d (incoming_pairs m)\<rparr>))"
proof -
  consider "get_bool (body p) ''pair'' = None"
    | w rid where "get_bool (body p) ''pair'' = Some w" "pending_of m d = Some rid"
    | "get_bool (body p) ''pair'' = Some False" "pending_of m d = None"
    | "get_bool (body p) ''pair'' = Some True" "pending_of m d = None"
    by (cases "get_bool (body p) ''pair''"; cases "pending_of m d"; metis (full_types) option.collapse)
  then show ?thesis
  proof cases
    case 1
    then show ?thesis by (intro malformed) (simp_all add: on_pair_packet_def)
  next
    case 2
    then show ?thesis by (intro answered) (simp_all add: on_pair_packet_def)
  next
    case 3
    then show ?thesis by (intro revoked) (simp_all add: on_pair_packet_def)
  next
    case 4
    then show ?thesis
      using auto_accepted unanswerable parked
      by (cases "connected_now m d"; cases "auto_accept env m") (simp_all add: on_pair_packet_def)
  qed
qed

lemma on_pair_packet_inv:
  assumes "mgr_inv m"
  shows "mgr_inv (on_pair_packet env d p m)"
proof (cases rule: on_pair_packet_cases [of p env d m])
  case (answered w rid)
  then show ?thesis
    using pending_connected [OF assms, of d] clear_pending_inv [OF assms, of d]
    by (simp add: Let_def persist_trust_inv)
next
  case auto_accepted
  then show ?thesis using assms by (simp add: send_pair_inv persist_trust_inv)
next
  case revoked
  then show ?thesis using assms by (simp add: persist_trust_inv mgr_inv_drop_request)
qed (use assms in \<open>simp_all add: send_pair_inv park_request_inv\<close>)

lemma on_pair_packet_trust:
  assumes "mgr_inv m"
  shows "trust (on_pair_packet env d p m) x =
    (if x = d \<and> get_bool (body p) ''pair'' = Some True \<and> (pending_of m d \<noteq> None \<or> auto_accept env m \<and> connected_now m d)
     then live_of m x
     else if x = d \<and> get_bool (body p) ''pair'' = Some False \<and> pending_of m d = None then None
     else trust m x)"
proof (cases rule: on_pair_packet_cases [of p env d m])
  case (answered w rid)
  have "live_of m d \<noteq> None"
    using answered(2) by (intro connected_live [OF assms] pending_connected [OF assms]) simp
  then show ?thesis
    using answered by (simp add: Let_def persist_trust_trust)
next
  case auto_accepted
  then show ?thesis
    using connected_live [OF assms, of d] by (simp add: persist_trust_trust)
qed (simp_all add: persist_trust_trust)

lemma answer_pairing_inv:
  assumes "mgr_inv m"
  shows "mgr_inv (snd (answer_incoming_pairing env d acc m))"
proof -
  have "connected_now m d" if "tget d (incoming_pairs m) = Some deadline" for deadline
    using assms that by (simp add: mgr_inv_def thas_def)
  then show ?thesis
    using mgr_inv_drop_request [OF assms, of d]
    by (auto simp: answer_incoming_pairing_def Let_def persist_trust_inv send_pair_inv split: option.split)
qed

lemma answer_pairing_trust:
  assumes "mgr_inv m"
  shows "trust (snd (answer_incoming_pairing env d acc m)) x =
    (if x = d \<and> acc \<and> (case tget d (incoming_pairs m) of None \<Rightarrow> False | Some deadline \<Rightarrow> instant env \<le> deadline)
     then live_of m x else trust m x)"
proof -
  have "live_of m d \<noteq> None" if "tget d (incoming_pairs m) = Some deadline" for deadline
    using assms that connected_live [OF assms, of d] by (simp add: mgr_inv_def thas_def)
  then show ?thesis
    by (auto simp: answer_incoming_pairing_def Let_def persist_trust_trust split: option.split)
qed

lemma pairing_timeout_inv: "mgr_inv m \<Longrightarrow> mgr_inv (pairing_timeout env d m)"
  by (simp add: pairing_timeout_def send_pair_inv mgr_inv_drop_request)

lemma pairing_timeout_trust: "trust (pairing_timeout env d m) x = trust m x"
  by (simp add: pairing_timeout_def)

lemma unpair_inv: "mgr_inv m \<Longrightarrow> mgr_inv (snd (unpair env d m))"
  by (simp add: unpair_def persist_trust_inv send_pair_inv)

lemma unpair_trust: "trust (snd (unpair env d m)) x = (if x = d then None else trust m x)"
  by (simp add: unpair_def persist_trust_trust)

text \<open>The ways a request of the user to pair is handled.\<close>

lemma begin_pairing_cases:
  obtains (refused) err where "begin_pairing env d rid m = respond rid (APair (Err (COther err))) m"
  | (unsent) st p err m1 where "tget d (devices m) = Some st" "is_connected st" "(p, m1) = pair_packet True m"
      "begin_pairing env d rid m = respond rid (APair (Err err))
         (m1\<lparr>devices := tput d (st\<lparr>pending_pair_reply := None\<rparr>) (devices m1)\<rparr>)"
  | (asked) st c p m1 where "tget d (devices m) = Some st" "outbound st = Some c" "pinned_fingerprint st = None"
      "(p, m1) = pair_packet True m" "try_send env c p = None"
      "begin_pairing env d rid m = m1\<lparr>devices := tput d (st\<lparr>pending_pair_reply := Some rid,
         outbound := Some (c\<lparr>queued := queued c @ [p]\<rparr>)\<rparr>) (devices m1)\<rparr>"
proof (cases "tget d (devices m)")
  case None
  then show ?thesis by (intro refused) (simp add: begin_pairing_def)
next
  case (Some st)
  obtain p m1 where pm: "pair_packet True m = (p, m1)" by fastforce
  consider "outbound st = None" | "outbound st \<noteq> None" "pinned_fingerprint st \<noteq> None"
    | c where "outbound st = Some c" "pinned_fingerprint st = None" by blast
  then show ?thesis
  proof cases
    case 3
    then show ?thesis
      using Some pm unsent [of st p m1] asked [of st c p m1]
      by (cases "try_send env c p") (simp_all add: begin_pairing_def is_connected_def send_out_def)
  qed (use Some refused in \<open>auto simp: begin_pairing_def is_connected_def\<close>)
qed

lemma pair_packet_state:
  assumes "(p, m1) = pair_packet b m"
  shows "devices m1 = devices m" "incoming_pairs m1 = incoming_pairs m" "mstore m1 = mstore m"
    "self_device_id m1 = self_device_id m" "answers m1 = answers m" "transfers m1 = transfers m"
    "next_transfer_seq m1 = next_transfer_seq m"
  using arg_cong [OF assms, of snd] by simp_all

lemma begin_pairing_rest:
  "incoming_pairs (begin_pairing env d rid m) = incoming_pairs m \<and> mstore (begin_pairing env d rid m) = mstore m \<and>
   self_device_id (begin_pairing env d rid m) = self_device_id m \<and> transfers (begin_pairing env d rid m) = transfers m \<and>
   next_transfer_seq (begin_pairing env d rid m) = next_transfer_seq m"
proof (cases rule: begin_pairing_cases [of env d rid m])
  case (unsent st p err m1)
  then show ?thesis using pair_packet_state [OF unsent(3)] by simp
next
  case (asked st c p m1)
  then show ?thesis using pair_packet_state [OF asked(4)] by simp
qed simp

lemma begin_pairing_inv:
  assumes "mgr_inv m"
  shows "mgr_inv (begin_pairing env d rid m)"
proof (cases rule: begin_pairing_cases [of env d rid m])
  case (unsent st p err m1)
  show ?thesis
    using unsent pair_packet_state [OF unsent(3)] mgr_inv_dev_ok [OF assms unsent(1)]
      mgr_inv_connected [OF assms unsent(1)]
    by (intro mgr_inv_update [OF assms, of _ d "st\<lparr>pending_pair_reply := None\<rparr>"])
      (auto simp: dev_ok_def is_connected_def)
next
  case (asked st c p m1)
  let ?st = "st\<lparr>pending_pair_reply := Some rid, outbound := Some (c\<lparr>queued := queued c @ [p]\<rparr>)\<rparr>"
  show ?thesis
    using asked pair_packet_state [OF asked(4)] mgr_inv_dev_ok [OF assms asked(1)]
    by (intro mgr_inv_update [OF assms, of _ d ?st]) (auto simp: dev_ok_def is_connected_def)
qed (use assms in simp)

lemma begin_pairing_trust: "trust (begin_pairing env d rid m) x = trust m x"
proof (cases rule: begin_pairing_cases [of env d rid m])
  case (unsent st p err m1)
  then show ?thesis using pair_packet_state(1) [OF unsent(3)] by (simp add: trust_def respond_def)
next
  case (asked st c p m1)
  then show ?thesis using pair_packet_state(1) [OF asked(4)] by (simp add: trust_def)
qed simp

lemma on_packet_quiet:
  assumes "ptype p \<noteq> TYPE_PAIR"
  shows "quiet m (on_packet env d p m)"
proof -
  have "quiet m (m\<lparr>devices := tmod d (\<lambda>st. st\<lparr>ds_identity := i\<rparr>) (devices m)\<rparr>)" for i
    by (rule quiet_modI [of _ d "\<lambda>st. st\<lparr>ds_identity := i\<rparr>"]) simp_all
  moreover have "quiet m (fold (send_quiet env d) rs (emit_side_events p (snd (dispatch_to_plugins env d p m))))" for rs
    by (rule quiet_trans [OF quiet_trans [OF quiet_dispatch quiet_emit] quiet_send_all])
  ultimately show ?thesis
    using assms by (simp add: on_packet_def quiet_spawn_receive case_prod_beta split: option.split)
qed

lemma on_packet_pair: "ptype p = TYPE_PAIR \<Longrightarrow> on_packet env d p m = on_pair_packet env d p m"
  by (simp add: on_packet_def type_defs)

lemma mgr_step_inv:
  assumes "mgr_inv m" "input_ok (Deliver env c) m"
  shows "mgr_inv (mgr_step env c m)"
proof (cases c)
  case (PacketFrom d p)
  then show ?thesis
    using assms on_packet_pair [of p env d m] quiet_inv [OF on_packet_quiet, of p m env d]
    by (cases "ptype p = TYPE_PAIR") (simp_all add: on_pair_packet_inv)
qed (use assms in \<open>simp_all add: on_announce_inv on_connected_inv on_closed_inv begin_pairing_inv unpair_inv
    answer_pairing_inv pairing_timeout_inv reply_with_def quiet_inv [OF quiet_send_file] quiet_inv [OF quiet_cancel]
    quiet_inv [OF quiet_on_share_payload] quiet_inv [OF quiet_outcome]\<close>)

interpretation mgr: guarded_system mgr_input_step input_ok mgr_inv
proof
  show "mgr_inv (mgr_input_step i m)" if "mgr_inv m" "input_ok i m" for m i
    using that by (cases i) (simp_all add: mgr_step_inv, simp add: mgr_inv_def connected_now_def)
qed

lemma mgr_new_inv: "mgr_inv (mgr_new f home tmp s b self i fs ids)"
  by (simp add: mgr_inv_def mgr_new_def Let_def)

lemma mgr_step_trust:
  assumes "mgr_inv m"
  shows "trust (mgr_step env c m) x =
    (if grants env c m x then live_of m x else if revokes c m x then None else trust m x)"
proof (cases c)
  case (PacketFrom d p)
  show ?thesis
  proof (cases "ptype p = TYPE_PAIR")
    case True
    then show ?thesis
      using PacketFrom by (auto simp: on_packet_pair on_pair_packet_trust [OF assms] grants_def revokes_def)
  next
    case False
    then show ?thesis
      using PacketFrom by (simp add: quiet_views(1) [OF on_packet_quiet [OF False]] grants_def revokes_def)
  qed
next
  case (PairingAnswer d acc rid)
  then show ?thesis
    using answer_pairing_trust [OF assms] by (auto simp: reply_with_def grants_def revokes_def)
qed (simp_all add: on_announce_trust on_connected_trust on_closed_trust begin_pairing_trust unpair_trust
    pairing_timeout_trust reply_with_def grants_def revokes_def quiet_views(1) [OF quiet_send_file]
    quiet_views(1) [OF quiet_cancel] quiet_views(1) [OF quiet_on_share_payload] quiet_views(1) [OF quiet_outcome])

lemma mgr_input_trust:
  assumes "mgr_inv m" "trust (mgr_input_step i m) x = Some f" "trust m x \<noteq> Some f"
  obtains env c where "i = Deliver env c" "grants env c m x" "live_of m x = Some f"
proof (cases i)
  case (Deliver env c)
  then show ?thesis
    using assms mgr_step_trust [OF assms(1), of env c x] that by (auto split: if_splits)
qed (use assms in \<open>simp add: trust_def\<close>)

section \<open>What one command may touch\<close>

definition others_same :: "string \<Rightarrow> manager \<Rightarrow> manager \<Rightarrow> bool" where
  "others_same d m m' \<longleftrightarrow> (\<forall>x. x \<noteq> d \<longrightarrow> tget x (devices m') = tget x (devices m) \<and>
     tget x (incoming_pairs m') = tget x (incoming_pairs m))"

lemma others_refl [simp]: "others_same d m m"
  by (simp add: others_same_def)

lemma others_trans: "others_same d m m' \<Longrightarrow> others_same d m' m'' \<Longrightarrow> others_same d m m''"
  by (simp add: others_same_def)

lemma others_send [simp]: "others_same d m (send_pair env d b m)" "others_same d m (send_quiet env d p m)"
  "others_same d m (pub e m)" "others_same d m (m\<lparr>incoming_pairs := tdel d (incoming_pairs m)\<rparr>)"
  "others_same d m (respond rid a m)" "others_same d m (spawn_task t m)"
  by (simp_all add: others_same_def)

lemma others_send_all: "others_same d m (fold (send_quiet env d) ps m)"
  by (induction ps arbitrary: m) (auto intro: others_trans [OF others_send(2)])

lemma others_persist [simp]: "others_same d m (persist_trust env d b m)"
  by (simp add: others_same_def persist_trust_def Let_def split: option.split)

lemma others_pair: "others_same d m (on_pair_packet env d p m)"
proof (cases rule: on_pair_packet_cases [of p env d m])
  case (answered w rid)
  let ?m1 = "respond rid (APair (Ok w)) (m\<lparr>devices := tmod d (\<lambda>st. st\<lparr>pending_pair_reply := None\<rparr>) (devices m)\<rparr>)"
  have "others_same d m ?m1" by (simp add: others_same_def)
  then show ?thesis
    using answered(3) others_trans [OF _ others_persist, of d m ?m1 env True] by (cases w) (simp_all add: Let_def)
next
  case auto_accepted
  then show ?thesis using others_trans [OF others_persist others_send(1)] by simp
next
  case parked
  then show ?thesis by (simp add: others_same_def park_request_def Let_def)
next
  case revoked
  then show ?thesis
    using others_trans [OF others_trans [OF others_send(4) others_persist] others_send(3)] by simp
qed simp_all

lemma others_answer: "others_same d m (snd (answer_incoming_pairing env d acc m))"
proof -
  let ?m1 = "m\<lparr>incoming_pairs := tdel d (incoming_pairs m)\<rparr>"
  have "others_same d m (send_pair env d acc (if acc then persist_trust env d True ?m1 else ?m1))"
    by (cases acc) (auto intro: others_trans [OF others_trans [OF others_send(4) others_persist] others_send(1)]
        others_trans [OF others_send(4) others_send(1)])
  then show ?thesis
    using others_trans [OF _ others_send(3)] by (auto simp: answer_incoming_pairing_def Let_def split: option.split)
qed

lemma others_begin: "others_same d m (begin_pairing env d rid m)"
proof (cases rule: begin_pairing_cases [of env d rid m])
  case (unsent st p err m1)
  then show ?thesis using pair_packet_state [OF unsent(3)] by (simp add: others_same_def)
next
  case (asked st c p m1)
  then show ?thesis using pair_packet_state [OF asked(4)] by (simp add: others_same_def)
qed simp

lemma others_send_file: "others_same d m (snd (send_file env d inp m))"
proof (cases rule: send_file_cases [of env d inp m])
  case (fail err fs')
  then show ?thesis by (simp add: others_same_def)
next
  case (empty st fname t fs1)
  then show ?thesis
    by (auto simp: others_same_def send_empty_eq Let_def split: sum.split)
next
  case (payload st fname t sz port mat fs1)
  then show ?thesis
    by (auto simp: others_same_def send_payload_eq Let_def split: sum.split)
qed

lemma spawn_receive_rest [simp]:
  "devices (spawn_receive d h b m) = devices m" "incoming_pairs (spawn_receive d h b m) = incoming_pairs m"
  "answers (spawn_receive d h b m) = answers m" "mstore (spawn_receive d h b m) = mstore m"
  by (auto simp: spawn_receive_def case_prod_beta Let_def)

lemma on_share_payload_rest [simp]:
  "devices (on_share_payload d h r m) = devices m" "incoming_pairs (on_share_payload d h r m) = incoming_pairs m"
  "answers (on_share_payload d h r m) = answers m" "mstore (on_share_payload d h r m) = mstore m"
  by (auto simp: on_share_payload_def case_prod_beta Let_def split: sum.split)

lemma emit_rest [simp]:
  "devices (emit_side_events p m) = devices m" "incoming_pairs (emit_side_events p m) = incoming_pairs m"
  "answers (emit_side_events p m) = answers m"
  by (simp_all add: emit_side_events_def Let_def split: option.split)

lemma others_packet: "others_same d m (on_packet env d p m)"
proof -
  have d: "others_same d m (emit_side_events p (snd (dispatch_to_plugins env d p m)))"
    by (simp add: others_same_def dispatch_to_plugins_def case_prod_beta Let_def split: option.split)
  have "others_same d m (m\<lparr>devices := tmod d (\<lambda>st. st\<lparr>ds_identity := i\<rparr>) (devices m)\<rparr>)" for i
    by (simp add: others_same_def)
  moreover have "others_same d m (spawn_receive d p False m)" by (simp add: others_same_def)
  ultimately show ?thesis
    using others_trans [OF d others_send_all] others_pair
    by (simp add: on_packet_def case_prod_beta split: option.split)
qed

lemma others_rest:
  "others_same d m (on_connected d t m)" "others_same d m (on_closed d m)" "others_same d m (snd (unpair env d m))"
  "others_same d m (pairing_timeout env d m)" "others_same (device_id (ann_identity a)) m (on_announce a m)"
proof -
  show "others_same d m (on_connected d t m)"
    by (simp add: others_same_def on_connected_def Let_def split: option.split)
  show "others_same d m (on_closed d m)"
    by (simp add: others_same_def on_closed_devices)
  show "others_same d m (snd (unpair env d m))"
    using others_trans [OF others_send(1) others_persist] by (simp add: unpair_def)
  show "others_same d m (pairing_timeout env d m)"
    using others_trans [OF others_send(4) others_send(1)] by (simp add: pairing_timeout_def)
  show "others_same (device_id (ann_identity a)) m (on_announce a m)"
    by (simp add: others_same_def on_announce_devices Let_def)
qed

lemma others_reply: "others_same d m (snd r) \<Longrightarrow> others_same d m (reply_with rid f r)"
  by (simp add: reply_with_def others_same_def)

lemma cancel_outcome_rest [simp]:
  "devices (snd (cancel_transfer tid m)) = devices m" "incoming_pairs (snd (cancel_transfer tid m)) = incoming_pairs m"
  "devices (on_transfer_outcome env tid r m) = devices m"
  "incoming_pairs (on_transfer_outcome env tid r m) = incoming_pairs m"
  by (simp_all add: cancel_transfer_def on_transfer_outcome_def case_prod_beta Let_def split: option.split sum.split)

lemma mgr_step_others:
  assumes "subject c \<noteq> Some x"
  shows "tget x (devices (mgr_step env c m)) = tget x (devices m) \<and>
    tget x (incoming_pairs (mgr_step env c m)) = tget x (incoming_pairs m)"
proof (cases "subject c")
  case None
  then show ?thesis by (cases c) (simp_all add: reply_with_def)
next
  case (Some d)
  then have "others_same d m (mgr_step env c m)"
    by (cases c) (auto simp: others_packet others_rest others_begin intro!: others_reply others_answer others_send_file,
        auto simp: others_same_def)
  then show ?thesis using assms Some by (simp add: others_same_def)
qed

section \<open>The database and the memory of the manager\<close>

lemma agrees_same:
  assumes "mstore m' = mstore m" "self_device_id m' = self_device_id m" "\<And>x. trust m' x = trust m x"
  shows "store_agrees m' = store_agrees m"
  using assms by (simp add: store_agrees_def)

lemma agrees_quiet: "quiet m m' \<Longrightarrow> store_agrees m' = store_agrees m"
  by (rule agrees_same) (simp_all add: quiet_def quiet_views(1))

lemma agrees_simps [simp]:
  "store_agrees (pub e m) = store_agrees m" "store_agrees (respond rid a m) = store_agrees m"
  "store_agrees (m\<lparr>incoming_pairs := t\<rparr>) = store_agrees m" "store_agrees (send_pair env d b m) = store_agrees m"
  by (rule agrees_same; simp)+

lemma agrees_persist:
  assumes "store_agrees m" "db_fault env = None"
  shows "store_agrees (persist_trust env d b m)"
proof (cases "tget d (devices m)")
  case (Some st)
  then show ?thesis
    using assms by (auto simp: persist_trust_def store_agrees_def trust_def stored_pin_def Let_def)
qed (simp add: persist_trust_absent assms(1))

lemma agrees_pair:
  assumes "store_agrees m" "db_fault env = None"
  shows "store_agrees (on_pair_packet env d p m)"
proof (cases rule: on_pair_packet_cases [of p env d m])
  case (answered w rid)
  have "store_agrees (m\<lparr>devices := tmod d (\<lambda>st. st\<lparr>pending_pair_reply := None\<rparr>) (devices m)\<rparr>)"
    by (subst agrees_same [of _ m]) (simp_all add: assms(1))
  then show ?thesis using answered(3) assms(2) by (cases w) (simp_all add: agrees_persist)
next
  case parked
  have "store_agrees (park_request env d m) = store_agrees m"
    by (rule agrees_same) (simp_all add: park_request_def Let_def)
  then show ?thesis using parked assms by simp
qed (use assms in \<open>simp_all add: agrees_persist\<close>)

lemma mgr_step_agrees:
  assumes "store_agrees m" "db_fault env = None"
  shows "store_agrees (mgr_step env c m)"
proof (cases c)
  case (Announce a)
  have "store_agrees (on_announce a m) = store_agrees m"
    by (rule agrees_same) (simp_all add: on_announce_devices on_announce_trust)
  then show ?thesis using assms Announce by simp
next
  case (Connected d t)
  have "store_agrees (on_connected d t m) = store_agrees m"
    by (rule agrees_same) (simp_all add: on_connected_trust)
  then show ?thesis using assms Connected by simp
next
  case (ConnClosed d)
  have "store_agrees (on_closed d m) = store_agrees m"
    by (rule agrees_same) (simp_all add: on_closed_devices on_closed_trust)
  then show ?thesis using assms ConnClosed by simp
next
  case (PacketFrom d p)
  then show ?thesis
    using assms on_packet_pair [of p env d m] agrees_quiet [OF on_packet_quiet [of p m env d]]
    by (cases "ptype p = TYPE_PAIR") (simp_all add: agrees_pair)
next
  case (StartPairing d rid)
  have "store_agrees (begin_pairing env d rid m) = store_agrees m"
    by (rule agrees_same) (simp_all add: begin_pairing_rest begin_pairing_trust)
  then show ?thesis using assms StartPairing by simp
next
  case (PairingAnswer d acc rid)
  then show ?thesis
    using assms by (auto simp: reply_with_def answer_incoming_pairing_def Let_def agrees_persist split: option.split)
qed (use assms in \<open>simp_all add: reply_with_def unpair_def agrees_persist pairing_timeout_def
    agrees_quiet [OF quiet_send_file] agrees_quiet [OF quiet_cancel] agrees_quiet [OF quiet_on_share_payload]
    agrees_quiet [OF quiet_outcome]\<close>)

interpretation durable: guarded_system mgr_input_step db_ok store_agrees
proof
  show "store_agrees (mgr_input_step i m)" if "store_agrees m" "db_ok i m" for m i
    using that by (cases i) (simp_all add: mgr_step_agrees, simp add: store_agrees_def trust_def)
qed

subsection \<open>Restart\<close>

definition restarted :: "manager \<Rightarrow> string option \<Rightarrow> string option \<Rightarrow> path \<Rightarrow> bus \<Rightarrow> fs \<Rightarrow> i64 \<Rightarrow> manager" where
  "restarted m fault home tmp b fs ids =
     snd (load_persisted None (mgr_new fault home tmp (mstore m) b (self_device_id m) (self_identity m) fs ids))"

definition loaded :: "device_row \<Rightarrow> device_state" where
  "loaded r = (device_state_new \<lparr>device_id = row_device_id r, device_name = row_name r,
     device_type = row_device_type r, protocol_version = PROTO_VERSION,
     incoming = [], outgoing = [], tcp_source_port = 0\<rparr>)
     \<lparr>pinned_fingerprint := (if paired r then Some (cert_fingerprint r) else None)\<rparr>"

lemma load_rows:
  assumes "distinct (map row_device_id rows)"
  shows "tget x (fold (load_row self) rows ds) =
    (if x \<noteq> self \<and> (\<exists>r\<in>set rows. row_device_id r = x)
     then Some (loaded (the (find (\<lambda>r. row_device_id r = x) rows))) else tget x ds)"
  using assms
proof (induction rows arbitrary: ds)
  case (Cons r rows)
  have "load_row self r ds = (if row_device_id r = self then ds else tput (row_device_id r) (loaded r) ds)"
    by (simp add: load_row_def loaded_def)
  then have "tget x (load_row self r ds) =
      (if x \<noteq> self \<and> x = row_device_id r then Some (loaded r) else tget x ds)" by auto
  then show ?case using Cons by (auto simp: image_iff)
qed simp

lemma distinct_load_rows: "distinct (keys ds) \<Longrightarrow> distinct (keys (fold (load_row self) rows ds))"
  by (induction rows arbitrary: ds) (simp_all add: load_row_def)

lemma find_Some_in: "find P xs = Some r \<Longrightarrow> r \<in> set xs \<and> P r"
  by (induction xs) (auto split: if_splits)

lemma find_row:
  assumes "store_wf s"
  shows "find (\<lambda>r. row_device_id r = x) (map snd (sort_key fst (devices_tbl s))) = row_of s x"
proof (cases "find (\<lambda>r. row_device_id r = x) (map snd (sort_key fst (devices_tbl s)))")
  case None
  then have "\<not> (\<exists>r. row_of s (row_device_id r) = Some r \<and> row_device_id r = x)"
    using set_list_devices [OF assms] by (auto simp: find_None_iff simp del: set_map)
  then have "row_of s x = None" using row_of_id [OF assms, of x] by (cases "row_of s x") auto
  then show ?thesis using None by simp
next
  case (Some r)
  then have "r \<in> set (map snd (sort_key fst (devices_tbl s)))" "row_device_id r = x"
    by (simp_all only: find_Some_in [THEN conjunct1] find_Some_in [THEN conjunct2, of "\<lambda>r. row_device_id r = x"])
  then have "row_of s x = Some r" using set_list_devices [OF assms] by auto
  then show ?thesis using Some by simp
qed

lemma restarted_devices:
  assumes "store_wf (mstore m)"
  shows "tget x (devices (restarted m f home tmp b fs ids)) =
    (if x = self_device_id m then None else map_option loaded (row_of (mstore m) x))"
proof -
  let ?rows = "map snd (sort_key fst (devices_tbl (mstore m)))"
  have "distinct (map row_device_id ?rows)"
    using assms by (simp add: map_row_device_id [OF assms] store_wf_def distinct_map del: map_map)
  moreover have "(\<exists>r\<in>set ?rows. row_device_id r = x) \<longleftrightarrow> row_of (mstore m) x \<noteq> None"
    using find_row [OF assms, of x] find_None_iff [of "\<lambda>r. row_device_id r = x" ?rows] by metis
  ultimately show ?thesis
    using load_rows [of ?rows x "self_device_id m" "[]"] find_row [OF assms, of x]
    by (cases "row_of (mstore m) x") (simp_all add: restarted_def load_persisted_def list_devices_def mgr_new_def Let_def)
qed

lemma restarted_rest [simp]: "incoming_pairs (restarted m f home tmp b fs ids) = []"
  "distinct (keys (devices (restarted m f home tmp b fs ids)))"
  by (simp_all add: restarted_def load_persisted_def list_devices_def mgr_new_def Let_def distinct_load_rows)

lemma restarted_trust:
  assumes "store_agrees m" "x \<noteq> self_device_id m"
  shows "trust (restarted m f home tmp b fs ids) x = trust m x"
  using assms restarted_devices [of m x f home tmp b fs ids]
  by (auto simp: trust_def [of "restarted m f home tmp b fs ids"] store_agrees_def stored_pin_def loaded_def
      split: option.split)

lemma restarted_inv:
  assumes "store_agrees m" "mgr_inv m"
  shows "mgr_inv (restarted m f home tmp b fs ids)"
proof -
  let ?r = "restarted m f home tmp b fs ids"
  have "dev_ok st" if st: "tget d (devices ?r) = Some st" for d st
  proof -
    have d: "d \<noteq> self_device_id m" "\<exists>row. st = loaded row"
      using st restarted_devices [of m d f home tmp b fs ids] assms(1)
      by (cases "row_of (mstore m) d"; auto simp: store_agrees_def split: if_splits)+
    have "pinned_fingerprint st = trust m d"
      using restarted_trust [OF assms(1) d(1), of f home tmp b fs ids] st by (simp add: trust_def)
    moreover have "pred_option (\<lambda>f. length f = 64) (trust m d)"
      using assms(2) by (auto simp: mgr_inv_def trust_def dev_ok_def split: bind_splits)
    ultimately show ?thesis
      using d(2) by (auto simp: dev_ok_def loaded_def device_state_new_def)
  qed
  then show ?thesis by (simp add: mgr_inv_def)
qed

section \<open>Replies\<close>

text \<open>Whether a request to pair goes out, so that its answer has to wait for the peer.\<close>

definition pairing_asked :: "mgr_env \<Rightarrow> string \<Rightarrow> manager \<Rightarrow> bool" where
  "pairing_asked env d m = (case tget d (devices m) of
       None \<Rightarrow> False
     | Some st \<Rightarrow> (case outbound st of
           None \<Rightarrow> False
         | Some c \<Rightarrow> pinned_fingerprint st = None \<and> try_send env c (fst (pair_packet True m)) = None))"

definition waiting :: "manager \<Rightarrow> string \<Rightarrow> nat list" where
  "waiting m d = (case pending_of m d of None \<Rightarrow> [] | Some rid \<Rightarrow> [rid])"

text \<open>The reply channels a command resolves.\<close>

fun replied :: "mgr_env \<Rightarrow> command \<Rightarrow> manager \<Rightarrow> nat list" where
  "replied env (ListDevices rid) m = [rid]"
| "replied env (ListTransfers rid) m = [rid]"
| "replied env (Unpair d rid) m = [rid]"
| "replied env (PairingAnswer d acc rid) m = [rid]"
| "replied env (SendFile d inp rid) m = [rid]"
| "replied env (CancelTransfer tid rid) m = [rid]"
| "replied env (StartPairing d rid) m = (if pairing_asked env d m then [] else [rid])"
| "replied env (ConnClosed d) m = waiting m d"
| "replied env (PacketFrom d p) m =
     (if ptype p = TYPE_PAIR \<and> get_bool (body p) ''pair'' \<noteq> None then waiting m d else [])"
| "replied env _ m = []"

lemma begin_pairing_answers:
  "map fst (answers (begin_pairing env d rid m)) = map fst (answers m) @ (if pairing_asked env d m then [] else [rid])"
proof (cases "tget d (devices m)")
  case (Some st)
  obtain p m1 where pm: "pair_packet True m = (p, m1)" by fastforce
  then have "answers m1 = answers m" using pair_packet_simps(6) [of True m] by simp
  then show ?thesis
    using Some pm by (cases "outbound st"; cases "pinned_fingerprint st")
      (auto simp: begin_pairing_def pairing_asked_def is_connected_def send_out_def split: option.split)
qed (simp add: begin_pairing_def pairing_asked_def)

lemma on_pair_packet_answers:
  "map fst (answers (on_pair_packet env d p m)) =
   map fst (answers m) @ (if get_bool (body p) ''pair'' \<noteq> None then waiting m d else [])"
  by (cases rule: on_pair_packet_cases [of p env d m])
    (simp_all add: waiting_def Let_def park_request_def)

lemma send_all_answers [simp]: "answers (fold (send_quiet env d) ps m) = answers m"
  by (induction ps arbitrary: m) simp_all

lemma send_file_answers: "answers (snd (send_file env d inp m)) = answers m"
proof (cases rule: send_file_cases [of env d inp m])
  case (fail err fs')
  then show ?thesis by simp
next
  case (empty st fname t fs1)
  then show ?thesis by (simp add: send_empty_eq Let_def split: sum.split)
next
  case (payload st fname t sz port mat fs1)
  then show ?thesis by (simp add: send_payload_eq Let_def split: sum.split)
qed

lemma on_packet_answers:
  "map fst (answers (on_packet env d p m)) = map fst (answers m) @
     (if ptype p = TYPE_PAIR \<and> get_bool (body p) ''pair'' \<noteq> None then waiting m d else [])"
proof (cases "ptype p = TYPE_PAIR")
  case True
  then show ?thesis using on_pair_packet_answers by (simp add: on_packet_pair)
next
  case False
  have "answers (snd (dispatch_to_plugins env d p m)) = answers m"
    by (simp add: dispatch_to_plugins_def case_prod_beta Let_def split: option.split)
  then show ?thesis
    using False by (simp add: on_packet_def case_prod_beta split: option.split)
qed

section \<open>Properties\<close>

text \<open>A manager, and a peer that connects, is asked to pair by the user, and agrees.\<close>

definition calm :: mgr_env where
  "calm = \<lparr>instant = 0, unix_time = 0, kv_fault = None, db_fault = None, try_send = (\<lambda>_ _. None),
     plugin_world = \<lparr>now = 0, power_supplies = None\<rparr>, io_faults = no_faults, helper_tools = no_tools,
     home_dir = None, tmp_path = ''/tmp/x'', metadata = (\<lambda>_. Inr (True, 3, 0)), bind_port = Inr 1739\<rparr>"

definition demo_mgr :: manager where
  "demo_mgr = mgr_new None None ''/tmp'' store_empty [] ''self'' (shell_identity ''self'') (\<lambda>_. None) 0"

definition demo_pair :: "bool \<Rightarrow> packet" where
  "demo_pair b = fst (pair_packet b demo_mgr)"

definition demo_peer :: transport where
  "demo_peer = \<lparr>peer_fingerprint = replicate 32 7, peer_ip = ''10.0.0.2''\<rparr>"

definition demo_inputs :: "mgr_input list" where
  "demo_inputs = map (Deliver calm) [Connected ''d'' demo_peer, StartPairing ''d'' 1, PacketFrom ''d'' (demo_pair True)]"

lemmas demo_defs = demo_mgr_def mgr_new_def demo_pair_def demo_peer_def demo_inputs_def calm_def mgr_run_def
  kv_get_def store_empty_def Let_def

lemmas mgr_eval = on_connected_def pin_mismatch_def begin_pairing_def pair_packet_def new_packet_def packet_new_def
  send_out_def is_connected_def device_state_new_def on_packet_pair on_pair_packet_def pending_of_def
  persist_trust_def respond_def pub_def spawn_task_def tmod_def get_with_def jget_def as_bool_def

lemma demo_guards:
  "guarded mgr_input_step input_ok demo_inputs m" "guarded mgr_input_step db_ok demo_inputs m"
  by (simp_all add: demo_inputs_def demo_peer_def calm_def)

lemma demo_mgr_start: "mgr_inv demo_mgr" "trust demo_mgr x = None" "store_agrees demo_mgr"
proof -
  show inv: "mgr_inv demo_mgr" by (simp add: demo_mgr_def mgr_new_inv)
  show t: "trust demo_mgr x = None" for x
    by (simp add: demo_mgr_def mgr_new_def Let_def trust_def)
  have "mstore demo_mgr = store_empty" by (simp add: demo_mgr_def mgr_new_def Let_def)
  then show "store_agrees demo_mgr"
    using t by (simp add: store_agrees_def stored_pin_def row_of_def store_empty_def store_wf_def)
qed

lemma demo_run_trust: "trust (mgr_run demo_inputs demo_mgr) ''d'' = Some (hex (replicate 32 7))"
  by (simp add: demo_defs mgr_eval trust_def tput_def tget_def)

text \<open>C1. Trust is never given without consent: whenever a run of the manager ends with a device trusted
  under a certificate under which it was not trusted at the start, some command of the run granted it (the
  peer's agreement to a pairing the user started, a request accepted automatically because the user
  configured that, or the user's acceptance of a parked request before its deadline), and the certificate
  is the one of the device's connection at that moment.\<close>

theorem trust_needs_consent:
  assumes "mgr_inv m" "guarded mgr_input_step input_ok is m"
    and "trust (mgr_run is m) x = Some f" "trust m x \<noteq> Some f"
  shows "\<exists>pre env c post. is = pre @ Deliver env c # post \<and> grants env c (mgr_run pre m) x \<and>
    live_of (mgr_run pre m) x = Some f"
  using assms(2,3)
proof (induction "is" rule: rev_induct)
  case Nil
  then show ?case using assms(4) by (simp add: mgr_run_def)
next
  case (snoc i "is")
  have g: "guarded mgr_input_step input_ok is m" using snoc.prems(1) by (simp add: guarded_append)
  have inv: "mgr_inv (mgr_run is m)" using mgr.run_inv [OF assms(1) g] by (simp add: mgr_run_def)
  have last: "trust (mgr_input_step i (mgr_run is m)) x = Some f" using snoc.prems(2) by (simp add: mgr_run_def)
  show ?case
  proof (cases "trust (mgr_run is m) x = Some f")
    case True
    with snoc.IH [OF g] obtain pre env c post where "is = pre @ Deliver env c # post"
        "grants env c (mgr_run pre m) x" "live_of (mgr_run pre m) x = Some f" by blast
    then show ?thesis by (intro exI [of _ pre] exI [of _ env] exI [of _ c] exI [of _ "post @ [i]"]) simp
  next
    case False
    with mgr_input_trust [OF inv last] obtain env c where "i = Deliver env c"
        "grants env c (mgr_run is m) x" "live_of (mgr_run is m) x = Some f" by metis
    then show ?thesis by (intro exI [of _ "is"] exI [of _ env] exI [of _ c] exI [of _ "[]"]) simp
  qed
qed

theorem trust_needs_consent_witness:
  "trust (mgr_run demo_inputs demo_mgr) ''d'' = Some (hex (replicate 32 7)) \<and>
   (\<exists>pre env c post. demo_inputs = pre @ Deliver env c # post \<and> grants env c (mgr_run pre demo_mgr) ''d'' \<and>
      live_of (mgr_run pre demo_mgr) ''d'' = Some (hex (replicate 32 7)))"
  using trust_needs_consent [OF demo_mgr_start(1) demo_guards(1) demo_run_trust] demo_run_trust by (simp add: demo_mgr_start)

text \<open>C2. What one command does to trust, exactly: a granting command makes the device trusted under the
  certificate of its connection, a revoking one ends its trust, and every other command, including every
  connection, disconnection, announcement and transfer, leaves the trust in every device as it was.\<close>

theorem trust_step_exact:
  assumes "mgr_inv m"
  shows "trust (mgr_step env c m) x =
    (if grants env c m x then live_of m x else if revokes c m x then None else trust m x)"
  using assms by (rule mgr_step_trust)

theorem trust_step_exact_witness:
  "trust (mgr_step calm (Unpair ''d'' 4) demo_mgr) ''d'' = None"
  using trust_step_exact [of demo_mgr calm "Unpair ''d'' 4" "''d''"]
  by (simp add: demo_mgr_def mgr_new_inv grants_def revokes_def)



text \<open>C6. A connection that claims to be a paired device but presents another certificate is dropped: nothing
  about any device, pairing or transfer changes, and the attempt is reported.\<close>

theorem spoofed_connection_rejected:
  assumes "trust m d = Some f" "hex (peer_fingerprint t) \<noteq> f"
  shows "mgr_step env (Connected d t) m =
    m\<lparr>mbus := mbus m @ [LogRecord ''error'' (''cert mismatch for '' @ d @ '': possible spoofing'')]\<rparr>"
  using assms pin_mismatch_trust [of m d "hex (peer_fingerprint t)"]
  by (simp add: on_connected_def pub_def publish_def)

theorem spoofed_connection_rejected_witness:
  "devices (mgr_step calm (Connected ''d'' \<lparr>peer_fingerprint = [9], peer_ip = []\<rparr>) (mgr_run demo_inputs demo_mgr)) =
   devices (mgr_run demo_inputs demo_mgr)"
proof -
  have "hex [9] \<noteq> hex (replicate 32 7)"
    by (rule notI, drule arg_cong [where f = length]) simp
  then show ?thesis
    using spoofed_connection_rejected [OF demo_run_trust, of "\<lparr>peer_fingerprint = [9], peer_ip = []\<rparr>" calm] by simp
qed

text \<open>C5. A restart forgets no pairing and invents none: after any run without database faults, a manager
  started again on the same database trusts every other device under the same certificate, and starts in
  a state that satisfies the invariant.\<close>

theorem restart_keeps_trust:
  assumes "mgr_inv m" "store_agrees m"
    and "guarded mgr_input_step input_ok is m" "guarded mgr_input_step db_ok is m"
    and "m' = mgr_run is m"
  shows "mgr_inv (restarted m' fault home tmp b fs ids) \<and>
    (\<forall>x. x \<noteq> self_device_id m' \<longrightarrow> trust (restarted m' fault home tmp b fs ids) x = trust m' x)"
  using restarted_inv restarted_trust mgr.run_inv [OF assms(1,3)] durable.run_inv [OF assms(2,4)] assms(5)
  by (simp add: mgr_run_def)

theorem restart_keeps_trust_witness:
  "trust (restarted (mgr_run demo_inputs demo_mgr) None None ''/tmp'' [] (\<lambda>_. None) 0) ''d'' =
   Some (hex (replicate 32 7))"
proof -
  have "self_device_id (mgr_run demo_inputs demo_mgr) = ''self''"
    by (simp add: demo_defs mgr_eval tput_def tget_def)
  then show ?thesis
    using restart_keeps_trust [OF demo_mgr_start(1,3) demo_guards refl, of None None "''/tmp''" "[]" "\<lambda>_. None" 0]
      demo_run_trust by simp
qed

text \<open>A command about one device leaves the record of every other device and every other device's parked
  pairing request exactly as they were.\<close>

lemma commands_are_isolated:
  assumes "subject c \<noteq> Some x"
  shows "tget x (devices (mgr_step env c m)) = tget x (devices m) \<and>
    tget x (incoming_pairs (mgr_step env c m)) = tget x (incoming_pairs m)"
  using assms by (rule mgr_step_others)


section \<open>Behaviours that differ from what the code documents\<close>

text \<open>
  The closure of a connection is reported under the device alone, so the closure of a connection that
  has been replaced takes the replacement down.
\<close>

lemma stale_close_drops_replacement:
  "\<not> connected_now (mgr_step env (ConnClosed d) (mgr_step env (Connected d t2) (mgr_step env (Connected d t1) m))) d"
  by (auto simp: connected_now_def on_closed_devices is_connected_def split: option.splits)

text \<open>
  The timer of one parked request declines whatever request is parked when it fires, also one parked
  later whose deadline has not come.
\<close>

lemma stale_timer_declines_later_request:
  "\<not> thas d (incoming_pairs (mgr_step env (PairingTimeout d) m))"
  by (simp add: pairing_timeout_def)

text \<open>
  Accepting a parked request trusts the certificate of the connection at that time, which need not be
  the one the request came from.
\<close>

lemma acceptance_pins_current_certificate:
  assumes "mgr_inv m" "trust m d = None" "length (peer_fingerprint t) = 32"
    and "tget d (incoming_pairs m) = Some deadline" "instant env \<le> deadline"
  shows "trust (mgr_step env (PairingAnswer d True rid) (mgr_step env (Connected d t) m)) d =
    Some (hex (peer_fingerprint t))"
proof -
  let ?m = "mgr_step env (Connected d t) m"
  have nm: "\<not> pin_mismatch m d (hex (peer_fingerprint t))"
    using assms(2) by (simp add: pin_mismatch_trust)
  have "mgr_inv ?m" using assms(1,3) by (intro mgr_step_inv) simp_all
  moreover have "live_of ?m d = Some (hex (peer_fingerprint t))"
    using on_connected_devices [OF nm] by (simp add: live_of_def split: option.split)
  moreover have "grants env (PairingAnswer d True rid) ?m d"
    using assms(4,5) by (simp add: grants_def)
  ultimately show ?thesis using mgr_step_trust [of ?m env "PairingAnswer d True rid" d] by simp
qed

text \<open>
  Declining a request parked for a device that is paired already announces the device as unpaired
  although its trust stays.
\<close>

lemma decline_announces_unpaired:
  assumes "tget d (incoming_pairs m) = Some deadline" "instant env \<le> deadline"
  shows "last (mbus (mgr_step env (PairingAnswer d False rid) m)) = DeviceStateChanged d ''unpaired'' \<and>
    trust (mgr_step env (PairingAnswer d False rid) m) d = trust m d"
  using assms by (simp add: reply_with_def answer_incoming_pairing_def Let_def)

text \<open>A second request to pair replaces the reply channel of the first, which is then never answered.\<close>

lemma second_pairing_request_drops_first:
  assumes "pairing_asked env d m"
  shows "pending_of (mgr_step env (StartPairing d rid) m) d = Some rid"
proof -
  obtain p m1 where "pair_packet True m = (p, m1)" by fastforce
  then show ?thesis
    using assms by (auto simp: pairing_asked_def begin_pairing_def is_connected_def send_out_def pending_of_def
        split: option.splits)
qed

text \<open>An announcement, which is not authenticated, replaces the identity stored for a paired device.\<close>

lemma announcement_renames_paired_device:
  assumes "tget (device_id (ann_identity a)) (devices m) = Some st"
  shows "tget (device_id (ann_identity a)) (devices (mgr_step env (Announce a) m)) =
    Some (st\<lparr>ds_identity := ann_identity a, addr := Some (ann_ip a, tcp_source_port (ann_identity a))\<rparr>)"
  using assms by (simp add: on_announce_devices Let_def)

text \<open>Packets of a device that is not trusted reach the plugins like those of a trusted one.\<close>

lemma unpaired_device_reaches_plugins:
  assumes "ptype p \<notin> {TYPE_IDENTITY, TYPE_PAIR, TYPE_SHARE}"
  shows "mgr_step env (PacketFrom d p) m =
    fold (send_quiet env d) (fst (dispatch_to_plugins env d p m)) (emit_side_events p (snd (dispatch_to_plugins env d p m)))"
  using assms by (simp add: on_packet_def case_prod_beta)

text \<open>Every packet that names a data port starts a transfer, whatever its type.\<close>

lemma any_packet_with_port_is_a_share:
  assumes "payload_transfer_port p = Some port"
  shows "reader_command dial d p = SharePayload d p (dial port)"
  using assms by (simp add: reader_command_def)

end
