(* ===== verification/Hf_Registry.thy ===== *)
theory Hf_Registry
  imports Hf_Trust
begin

text \<open>
  The device manager's registry of transfers: identifiers are never used twice while the counter has
  room, a record changes only through the commands that name it, and starting to send a file either
  queues a header that matches the registered transfer or leaves no trace but the file system.
\<close>

section \<open>Specification\<close>

definition tid_of :: "u64 \<Rightarrow> string" where
  "tid_of n = ''t'' @ show_nat (unat n)"

definition record_ok :: "transfer_record \<Rightarrow> bool" where
  "record_ok r \<longleftrightarrow> tr_state r \<in> {''active'', ''finished'', ''failed''} \<and>
     (tr_state r = ''failed'' \<longleftrightarrow> reason r \<noteq> None) \<and> tr_done r = 0"

definition xfer_inv :: "manager \<Rightarrow> bool" where
  "xfer_inv m \<longleftrightarrow> distinct (keys (transfers m)) \<and>
     (\<forall>tid r. tget tid (transfers m) = Some r \<longrightarrow> record_ok r \<and>
        (\<exists>n. 0 < n \<and> n \<le> next_transfer_seq m \<and> tid = tid_of n))"

text \<open>The counter has room for one more transfer.\<close>

definition has_room :: "mgr_input \<Rightarrow> manager \<Rightarrow> bool" where
  "has_room i m \<longleftrightarrow> next_transfer_seq m < - 1"

text \<open>What a command does to a record that exists.\<close>

fun record_after :: "command \<Rightarrow> string \<Rightarrow> transfer_record \<Rightarrow> transfer_record" where
  "record_after (TransferOutcome t (Inr u)) tid r = (if t = tid then r\<lparr>tr_state := ''finished'', reason := None\<rparr> else r)"
| "record_after (TransferOutcome t (Inl why)) tid r = (if t = tid then r\<lparr>tr_state := ''failed'', reason := Some why\<rparr> else r)"
| "record_after (CancelTransfer t rid) tid r = (if t = tid \<and> tr_state r = ''active'' then r\<lparr>cancel := True\<rparr> else r)"
| "record_after _ tid r = r"

section \<open>Facts\<close>

lemma tid_of_inj [simp]: "tid_of a = tid_of b \<longleftrightarrow> a = b"
  by (auto simp: tid_of_def word_eq_iff_unsigned [where ?'a = nat])

lemma new_id: "fst (new_transfer_id m) = tid_of (next_transfer_seq m + 1)"
  by (simp add: tid_of_def)

text \<open>A step adds at most one record, under the next identifier.\<close>

definition adds :: "manager \<Rightarrow> manager \<Rightarrow> bool" where
  "adds m m' \<longleftrightarrow> (transfers m' = transfers m \<and> next_transfer_seq m' = next_transfer_seq m) \<or>
     (\<exists>r. record_ok r \<and> transfers m' = tput (tid_of (next_transfer_seq m + 1)) r (transfers m) \<and>
        next_transfer_seq m' = next_transfer_seq m + 1)"

lemma adds_same: "transfers m' = transfers m \<Longrightarrow> next_transfer_seq m' = next_transfer_seq m \<Longrightarrow> adds m m'"
  by (simp add: adds_def)

lemma adds_new:
  assumes "record_ok r" "transfers m' = tput (tid_of (next_transfer_seq m + 1)) r (transfers m)"
    "next_transfer_seq m' = next_transfer_seq m + 1"
  shows "adds m m'"
  using assms by (auto simp: adds_def)

lemma tmod_tput_same [simp]: "tmod k f (tput k v t) = tput k (f v) t"
  by (simp add: tmod_def)

lemma seq_grows: "(n :: u64) < - 1 \<Longrightarrow> n < n + 1"
proof -
  assume "n < - 1"
  then have "unat n + 1 < 2 ^ 64"
    by (simp add: word_less_nat_alt unsigned_minus_1_eq_mask mask_eq_exp_minus_1)
  then show ?thesis
    using unat_add_len [of n 1] by (simp add: word_less_nat_alt)
qed

lemma fresh_id:
  assumes "xfer_inv m" "next_transfer_seq m < - 1"
  shows "tget (tid_of (next_transfer_seq m + 1)) (transfers m) = None"
proof (cases "tget (tid_of (next_transfer_seq m + 1)) (transfers m)")
  case (Some r)
  then have "\<exists>n. n \<le> next_transfer_seq m \<and> tid_of (next_transfer_seq m + 1) = tid_of n"
    using assms(1) unfolding xfer_inv_def by blast
  then have "next_transfer_seq m + 1 \<le> next_transfer_seq m" by auto
  then show ?thesis using seq_grows [OF assms(2)] by simp
qed

lemma adds_inv:
  assumes "adds m m'" "xfer_inv m" "next_transfer_seq m < - 1"
  shows "xfer_inv m'"
  using assms(1) unfolding adds_def
proof (elim disjE exE conjE)
  fix r
  assume r: "record_ok r" "transfers m' = tput (tid_of (next_transfer_seq m + 1)) r (transfers m)"
    "next_transfer_seq m' = next_transfer_seq m + 1"
  have grows: "next_transfer_seq m < next_transfer_seq m + 1" using seq_grows [OF assms(3)] .
  have "0 < next_transfer_seq m + 1" using grows by (rule le_less_trans [OF word_zero_le])
  moreover have "\<exists>n>0. n \<le> next_transfer_seq m + 1 \<and> tid = tid_of n" if "tget tid (transfers m) = Some r'" for tid r'
    using assms(2) that grows unfolding xfer_inv_def by (meson le_less_trans less_imp_le)
  ultimately show ?thesis
    using assms(2) r by (auto simp: xfer_inv_def split: if_splits)
qed (use assms(2) in \<open>simp add: xfer_inv_def\<close>)

lemma adds_keeps:
  assumes "adds m m'" "xfer_inv m" "next_transfer_seq m < - 1" "tget tid (transfers m) = Some r"
  shows "tget tid (transfers m') = Some r"
  using assms fresh_id [OF assms(2,3)] by (auto simp: adds_def)

section \<open>Every command\<close>

lemma register_ok: "record_ok \<lparr>tr_device_id = d, direction = dir, tr_file_name = f,
     total = n, tr_state = ''active'', tr_done = 0, reason = None, cancel = False\<rparr>"
  by (simp add: record_ok_def)

lemma adds_spawn_receive: "adds m (spawn_receive d h b m)"
proof (cases "thas d (devices m)")
  case True
  then show ?thesis
    by (intro adds_new [OF register_ok]) (simp_all add: spawn_receive_def case_prod_beta Let_def new_id [symmetric])
qed (simp add: spawn_receive_def adds_def)

lemma adds_share: "adds m (on_share_payload d h r m)"
proof (cases r)
  case (Inl why)
  have "record_ok (\<lparr>tr_device_id = d, direction = ''incoming'', tr_file_name = header_file_name h,
     total = 0, tr_state = ''failed'', tr_done = 0, reason = Some why, cancel = False\<rparr>)"
    by (simp add: record_ok_def)
  then show ?thesis
    using Inl by (elim adds_new) (simp_all add: on_share_payload_def case_prod_beta new_id [symmetric])
qed (simp add: on_share_payload_def adds_spawn_receive)

text \<open>Sending a file, once and for all its uses: it fails without a trace, or a header is queued.\<close>

lemma send_out_ok:
  assumes "fst (send_out env st p) = Inr u"
  obtains c where "outbound st = Some c" "try_send env c p = None"
    "snd (send_out env st p) = st\<lparr>outbound := Some (c\<lparr>queued := queued c @ [p]\<rparr>)\<rparr>"
  using assms by (auto simp: send_out_def split: option.splits)

definition header_matches :: "mgr_env \<Rightarrow> packet \<Rightarrow> transfer_record \<Rightarrow> bool" where
  "header_matches env p r \<longleftrightarrow> ptype p = TYPE_SHARE \<and> get_str (body p) ''filename'' = Some (tr_file_name r) \<and>
     (if total r = 0 then payload_size p = None \<and> tr_state r = ''finished''
      else payload_size p = Some (total r) \<and> tr_state r = ''active'' \<and>
        (\<exists>port. bind_port env = Inr port \<and> payload_transfer_port p = Some port))"

lemma send_file_outcome:
  obtains (failed) err fs' ids where "send_file env d inp m = (Err err, m\<lparr>mfs := fs', packet_ids := ids\<rparr>)"
  | (sent) st c p r m' where "send_file env d inp m = (Ok (tid_of (next_transfer_seq m + 1)), m')"
      "tget d (devices m) = Some st" "outbound st = Some c" "try_send env c p = None"
      "devices m' = tput d (st\<lparr>outbound := Some (c\<lparr>queued := queued c @ [p]\<rparr>)\<rparr>) (devices m)"
      "transfers m' = tput (tid_of (next_transfer_seq m + 1)) r (transfers m)"
      "next_transfer_seq m' = next_transfer_seq m + 1"
      "record_ok r" "tr_device_id r = d" "direction r = ''outgoing''" "\<not> cancel r" "header_matches env p r"
proof (cases rule: send_file_cases [of env d inp m])
  case (fail err fs')
  then show ?thesis by (intro failed [of err "packet_ids m" fs']) simp
next
  case (empty st fname t fs1)
  define q where "q = new_packet TYPE_SHARE (JObj [(''filename'', JStr fname), (''lastModified'', JInt (sint t)),
            (''numberOfFiles'', JInt 1), (''totalPayloadSize'', JInt 0)]) (m\<lparr>mfs := fs1\<rparr>)"
  note eq = empty(3) [unfolded send_empty_eq, folded q_def] 
  show ?thesis
  proof (cases "fst (send_out env st (fst q))")
    case (Inl err)
    then show ?thesis
      using eq by (intro failed [of err "packet_ids (snd q)" fs1]) (simp add: Let_def q_def new_packet_def packet_new_def)
  next
    case (Inr u)
    then obtain c where c: "outbound st = Some c" "try_send env c (fst q) = None"
        "snd (send_out env st (fst q)) = st\<lparr>outbound := Some (c\<lparr>queued := queued c @ [fst q]\<rparr>)\<rparr>"
      by (rule send_out_ok)
    define n where "n = new_transfer_id ((snd q)\<lparr>devices := tput d (snd (send_out env st (fst q))) (devices m)\<rparr>)"
    define m' where "m' = pub (TransferFinished (fst n))
             (set_transfer (fst n) ''finished'' None (register_transfer (fst n) d ''outgoing'' fname 0 (snd n)))"
    have q: "transfers (snd q) = transfers m" "next_transfer_seq (snd q) = next_transfer_seq m"
      by (simp_all add: q_def)
    have n: "fst n = tid_of (next_transfer_seq m + 1)" by (simp add: n_def tid_of_def q)
    have res: "send_file env d inp m = (Ok (tid_of (next_transfer_seq m + 1)), m')"
      using eq Inr n by (simp add: Let_def m'_def n_def)
    have h: "ptype (fst q) = TYPE_SHARE" "get_str (body (fst q)) ''filename'' = Some fname" "payload_size (fst q) = None"
      by (simp_all add: q_def get_with_def jget_def as_str_def) (simp add: new_packet_def packet_new_def Let_def)
    show ?thesis
      using h
      by (intro sent [OF res empty(1) c(1,2), of "\<lparr>tr_device_id = d, direction = ''outgoing'', tr_file_name = fname,
     total = 0, tr_state = ''finished'', tr_done = 0, reason = None, cancel = False\<rparr>"])
        (simp_all add: m'_def n n_def q c(3) record_ok_def header_matches_def tid_of_def)
  qed
next
  case (payload st fname t sz port mat fs1)
  define q where "q = new_packet TYPE_SHARE (JObj [(''filename'', JStr fname), (''creationTime'', JInt (sint t)),
            (''lastModified'', JInt (sint t)), (''numberOfFiles'', JInt 1),
            (''totalPayloadSize'', JInt (uint sz))]) (m\<lparr>mfs := fs1\<rparr>)"
  let ?h = "with_payload (fst q) sz port"
  note eq = payload(5) [unfolded send_payload_eq, folded q_def] 
  show ?thesis
  proof (cases "fst (send_out env st ?h)")
    case (Inl err)
    then show ?thesis
      using eq by (intro failed [of err "packet_ids (snd q)" "swept env (mat_cleanup mat) fs1"])
        (simp add: Let_def q_def new_packet_def packet_new_def sweep_mfs)
  next
    case (Inr u)
    then obtain c where c: "outbound st = Some c" "try_send env c ?h = None"
        "snd (send_out env st ?h) = st\<lparr>outbound := Some (c\<lparr>queued := queued c @ [?h]\<rparr>)\<rparr>"
      by (rule send_out_ok)
    define n where "n = new_transfer_id ((snd q)\<lparr>devices := tput d (snd (send_out env st ?h)) (devices m)\<rparr>)"
    define m' where "m' = spawn_task (SendTask (fst n) port (mat_local mat) (mat_cleanup mat) sz)
             (register_transfer (fst n) d ''outgoing'' fname sz (snd n))"
    have q: "transfers (snd q) = transfers m" "next_transfer_seq (snd q) = next_transfer_seq m"
      by (simp_all add: q_def)
    have n: "fst n = tid_of (next_transfer_seq m + 1)" by (simp add: n_def tid_of_def q)
    have res: "send_file env d inp m = (Ok (tid_of (next_transfer_seq m + 1)), m')"
      using eq Inr n by (simp add: Let_def m'_def n_def)
    have h: "ptype ?h = TYPE_SHARE" "get_str (body ?h) ''filename'' = Some fname" "payload_size ?h = Some sz"
      by (simp_all add: with_payload_def q_def get_with_def jget_def as_str_def)
    show ?thesis
      using payload(3,4) h
      by (intro sent [OF res payload(1) c(1,2), of "\<lparr>tr_device_id = d, direction = ''outgoing'', tr_file_name = fname,
     total = sz, tr_state = ''active'', tr_done = 0, reason = None, cancel = False\<rparr>"])
        (simp_all add: m'_def n n_def q c(3) record_ok_def header_matches_def tid_of_def)
  qed
qed

lemma adds_send_file: "adds m (snd (send_file env d inp m))"
  by (cases rule: send_file_outcome [of env d inp m]) (auto simp: adds_def)

lemma send_all_transfers [simp]:
  "transfers (fold (send_quiet env d) ps m) = transfers m"
  "next_transfer_seq (fold (send_quiet env d) ps m) = next_transfer_seq m"
  by (induction ps arbitrary: m) simp_all

lemma pair_transfers [simp]:
  "transfers (on_pair_packet env d p m) = transfers m"
  "next_transfer_seq (on_pair_packet env d p m) = next_transfer_seq m"
  by (cases rule: on_pair_packet_cases [of p env d m]; simp add: Let_def park_request_def)+

lemma adds_packet: "adds m (on_packet env d p m)"
proof -
  have "transfers (emit_side_events p (snd (dispatch_to_plugins env d p m))) = transfers m"
    "next_transfer_seq (emit_side_events p (snd (dispatch_to_plugins env d p m))) = next_transfer_seq m"
    by (simp_all add: emit_side_events_def dispatch_to_plugins_def case_prod_beta Let_def split: option.split)
  then show ?thesis
    using adds_spawn_receive by (auto simp: on_packet_def case_prod_beta intro!: adds_same split: option.split)
qed

lemma cancel_transfers:
  "transfers (snd (cancel_transfer t m)) = tmod t (\<lambda>r. if tr_state r = ''active'' then r\<lparr>cancel := True\<rparr> else r) (transfers m)
     \<or> transfers (snd (cancel_transfer t m)) = transfers m \<and> (\<forall>r. tget t (transfers m) = Some r \<longrightarrow> tr_state r \<noteq> ''active'')"
  "next_transfer_seq (snd (cancel_transfer t m)) = next_transfer_seq m"
  by (auto simp: cancel_transfer_def tmod_def split: option.split)

lemma outcome_transfers:
  "transfers (on_transfer_outcome env t r m) =
     tmod t (\<lambda>x. record_after (TransferOutcome t r) t x) (transfers m)"
  "next_transfer_seq (on_transfer_outcome env t r m) = next_transfer_seq m"
  by (simp_all add: on_transfer_outcome_def case_prod_beta Let_def split: sum.split)

lemma record_after_ok: "record_ok r \<Longrightarrow> record_ok (record_after c tid r)"
  by (cases "(c, tid, r)" rule: record_after.cases) (auto simp: record_ok_def)

lemma xfer_inv_tmod:
  assumes "xfer_inv m" "transfers m' = tmod t f (transfers m)" "next_transfer_seq m' = next_transfer_seq m"
    "\<And>r. record_ok r \<Longrightarrow> record_ok (f r)"
  shows "xfer_inv m'"
proof -
  have "record_ok r' \<and> (\<exists>n>0. n \<le> next_transfer_seq m \<and> tid = tid_of n)"
    if g: "tget tid (transfers m') = Some r'" for tid r'
  proof -
    obtain r where "tget tid (transfers m) = Some r" "r' = r \<or> r' = f r"
      using g assms(2) by (cases "tget tid (transfers m)") (auto split: if_splits)
    then show ?thesis using assms(1,4) unfolding xfer_inv_def by blast
  qed
  then show ?thesis using assms by (simp add: xfer_inv_def)
qed

text \<open>Apart from outcomes and cancellations every command only adds.\<close>

lemma mgr_step_adds:
  assumes "\<And>t r. c \<noteq> TransferOutcome t r" "\<And>t rid. c \<noteq> CancelTransfer t rid"
  shows "adds m (mgr_step env c m)"
proof (cases c)
  case (PairingAnswer d acc rid)
  then show ?thesis
    by (auto simp: reply_with_def answer_incoming_pairing_def Let_def intro!: adds_same split: option.split)
next
  case (SendFile d inp rid)
  then show ?thesis using adds_send_file [of m env d inp] by (simp add: reply_with_def adds_def)
next
  case (StartPairing d rid)
  then show ?thesis by (simp add: adds_same begin_pairing_rest)
qed (use assms in \<open>simp_all add: adds_packet adds_share adds_same on_announce_devices on_closed_devices
    reply_with_def unpair_def pairing_timeout_def\<close>)

lemma mgr_step_record:
  assumes "xfer_inv m" "next_transfer_seq m < - 1" "tget tid (transfers m) = Some r"
  shows "tget tid (transfers (mgr_step env c m)) = Some (record_after c tid r)"
proof (cases c)
  case (TransferOutcome t res)
  then show ?thesis using assms(3) by (cases res) (auto simp: outcome_transfers)
next
  case (CancelTransfer t rid)
  then show ?thesis using assms(3) by (auto simp: reply_with_def cancel_transfer_def split: option.split)
qed (use adds_keeps [OF mgr_step_adds [of c m env] assms] in simp_all)

interpretation xfer: guarded_system mgr_input_step has_room xfer_inv
proof
  show "xfer_inv (mgr_input_step i m)" if inv: "xfer_inv m" and room: "has_room i m" for m i
  proof (cases i)
    case (Deliver env c)
    have r: "next_transfer_seq m < - 1" using room by (simp add: has_room_def)
    show ?thesis
    proof (cases c)
      case (TransferOutcome t res)
      then show ?thesis
        using xfer_inv_tmod [OF inv outcome_transfers [of env t res m]] record_after_ok Deliver by simp
    next
      case (CancelTransfer t rid)
      have "xfer_inv (snd (cancel_transfer t m))"
        using cancel_transfers(1) [of t m]
      proof
        assume "transfers (snd (cancel_transfer t m)) =
          tmod t (\<lambda>r. if tr_state r = ''active'' then r\<lparr>cancel := True\<rparr> else r) (transfers m)"
        then show ?thesis by (rule xfer_inv_tmod [OF inv _ cancel_transfers(2)]) (auto simp: record_ok_def)
      qed (use inv cancel_transfers(2) in \<open>simp add: xfer_inv_def\<close>)
      then show ?thesis using Deliver CancelTransfer by (simp add: reply_with_def xfer_inv_def)
    qed (use adds_inv [OF mgr_step_adds [of c m env] inv r] Deliver in simp_all)
  qed (use inv in \<open>simp add: xfer_inv_def\<close>)
qed

section \<open>Properties\<close>

text \<open>C18. Every transfer the manager registers in a run from its start has an identifier of its own: the
  identifier the next transfer gets is not in the registry, every record is in one of the three states and
  carries a reason exactly when it failed.\<close>

theorem transfer_registry_sound:
  assumes "guarded mgr_input_step has_room is (mgr_new fault home tmp s b self i fs ids)"
    and "m = mgr_run is (mgr_new fault home tmp s b self i fs ids)" "next_transfer_seq m < - 1"
  shows "distinct (keys (transfers m)) \<and> \<not> thas (fst (new_transfer_id m)) (transfers m) \<and>
    (\<forall>tid r. tget tid (transfers m) = Some r \<longrightarrow>
       tr_state r \<in> {''active'', ''finished'', ''failed''} \<and> (tr_state r = ''failed'' \<longleftrightarrow> reason r \<noteq> None))"
proof -
  have "xfer_inv (mgr_new fault home tmp s b self i fs ids)"
    by (simp add: xfer_inv_def mgr_new_def Let_def)
  then have inv: "xfer_inv m" using xfer.run_inv [OF _ assms(1)] assms(2) by (simp add: mgr_run_def)
  then have "\<not> thas (fst (new_transfer_id m)) (transfers m)"
    using fresh_id [OF _ assms(3)] by (simp add: new_id thas_def del: new_transfer_id_simps)
  then show ?thesis using inv unfolding xfer_inv_def record_ok_def by blast
qed

definition demo_send :: "mgr_input list" where
  "demo_send = [Deliver calm (Connected ''d'' demo_peer),
     Deliver calm (SharePayload ''d'' demo_packet (Inl ''refused'')), Deliver calm (SharePayload ''d'' demo_packet (Inl ''refused''))]"

lemma demo_send_run:
  "guarded mgr_input_step has_room demo_send demo_mgr" "next_transfer_seq (mgr_run demo_send demo_mgr) = 2"
  by (simp_all add: demo_send_def has_room_def mgr_run_def on_share_payload_def case_prod_beta demo_mgr_def
      mgr_new_def Let_def word_less_nat_alt unsigned_minus_1_eq_mask mask_eq_exp_minus_1)

theorem transfer_registry_sound_witness:
  "\<not> thas ''t3'' (transfers (mgr_run demo_send demo_mgr)) \<and> thas ''t2'' (transfers (mgr_run demo_send demo_mgr))"
proof -
  have "fst (new_transfer_id (mgr_run demo_send demo_mgr)) = ''t3''"
    by (simp add: demo_send_run show_nat.simps)
  moreover have "thas ''t2'' (transfers (mgr_run demo_send demo_mgr))"
    by (simp add: demo_send_def mgr_run_def on_share_payload_def case_prod_beta demo_mgr_def mgr_new_def Let_def show_nat.simps)
  ultimately show ?thesis
    using transfer_registry_sound [of demo_send None None "''/tmp''" store_empty "[]" "''self''"
        "shell_identity ''self''" "\<lambda>_. None" 0, folded demo_mgr_def, OF demo_send_run(1) refl]
    by (simp add: demo_send_run(2) del: new_transfer_id_simps)
qed

text \<open>No command loses or rewrites a transfer it does not name: a registered record stays, its device,
  direction, name and size never change, only the outcome of that transfer sets its state and reason, and only
  a cancellation of that transfer while it is active raises its flag.\<close>

lemma transfer_record_exact:
  assumes "xfer_inv m" "next_transfer_seq m < - 1" "tget tid (transfers m) = Some r"
  shows "tget tid (transfers (mgr_step env c m)) = Some (record_after c tid r)"
  using assms by (rule mgr_step_record)

text \<open>Starting to send a file either fails and changes nothing but the file system and the packet
  counter, or the device is connected, exactly one header is queued for it, and the header and the record
  registered under the returned identifier agree: on the file name, on the size, on the bound port, and that
  an empty file is finished at once.\<close>

lemma send_file_spec:
  assumes "send_file env d inp m = (res, m')"
  shows "case res of
      Inl err \<Rightarrow> m' = m\<lparr>mfs := mfs m', packet_ids := packet_ids m'\<rparr>
    | Inr tid \<Rightarrow> \<exists>st c p r. tget d (devices m) = Some st \<and> outbound st = Some c \<and>
        tget d (devices m') = Some (st\<lparr>outbound := Some (c\<lparr>queued := queued c @ [p]\<rparr>)\<rparr>) \<and>
        tget tid (transfers m') = Some r \<and> tr_device_id r = d \<and> direction r = ''outgoing'' \<and> header_matches env p r"
  using assms by (cases rule: send_file_outcome [of env d inp m]) auto

section \<open>A behaviour that differs from what the code documents\<close>

text \<open>No command records how far a transfer has come: the listing reports zero bytes for every transfer.\<close>

lemma progress_is_never_recorded:
  assumes "xfer_inv m" "guarded mgr_input_step has_room is m" "tget tid (transfers (mgr_run is m)) = Some r"
  shows "tr_done r = 0"
  using xfer.run_inv [OF assms(1,2)] assms(3) by (simp add: mgr_run_def xfer_inv_def record_ok_def)

end
