(* ===== verification/Hf_Handshake.thy ===== *)
theory Hf_Handshake
  imports Hf_Trust
begin

text \<open>
  How two devices find and reach each other: the control handshake of \<^verbatim>\<open>daemon/src/handshake.rs\<close>, the
  connection set-up of \<^verbatim>\<open>daemon/src/tls.rs\<close>, the data connections of \<^verbatim>\<open>daemon/src/payload.rs\<close> and the
  discovery loop of \<^verbatim>\<open>daemon/src/discovery.rs\<close>.

  The TLS engine, the digest of a certificate and the JSON text of packets are parameters.  The engine is
  given the verifier the code installs and the peer, and returns the certificates the peer presented.  The
  raw socket is the bytes that arrive before the stream ends, with what ends it.
\<close>

section \<open>Certificates\<close>

record verifier =
  check_cert :: "bytes \<Rightarrow> string + unit"
  check_tls12 :: "bytes \<Rightarrow> bytes \<Rightarrow> bytes \<Rightarrow> string + unit"
  check_tls13 :: "bytes \<Rightarrow> bytes \<Rightarrow> bytes \<Rightarrow> string + unit"

definition AcceptAnyServer :: verifier where
  "AcceptAnyServer = \<lparr>check_cert = (\<lambda>_. Ok ()), check_tls12 = (\<lambda>_ _ _. Ok ()), check_tls13 = (\<lambda>_ _ _. Ok ())\<rparr>"

definition AcceptAnyClient :: verifier where
  "AcceptAnyClient = \<lparr>check_cert = (\<lambda>_. Ok ()), check_tls12 = (\<lambda>_ _ _. Ok ()), check_tls13 = (\<lambda>_ _ _. Ok ())\<rparr>"

definition fingerprint_of_first :: "(bytes \<Rightarrow> bytes) \<Rightarrow> bytes list option \<Rightarrow> core_error + bytes" where
  "fingerprint_of_first digest certs = (case certs of
       None \<Rightarrow> Err (COther ''peer presented no certificate'')
     | Some [] \<Rightarrow> Err (COther ''peer certificate list empty'')
     | Some (cert # _) \<Rightarrow> Ok (digest cert))"

text \<open>The engine with one verifier, on one peer.\<close>

type_synonym 'p tls_engine = "verifier \<Rightarrow> 'p \<Rightarrow> core_error + bytes list option"

definition tls_upgrade :: "'p tls_engine \<Rightarrow> (bytes \<Rightarrow> bytes) \<Rightarrow> verifier \<Rightarrow> 'p \<Rightarrow> string \<Rightarrow> core_error + transport" where
  "tls_upgrade engine digest v peer ip = (case engine v peer of
       Inl err \<Rightarrow> Err err
     | Inr certs \<Rightarrow> (case fingerprint_of_first digest certs of
           Inl err \<Rightarrow> Err err
         | Inr fp \<Rightarrow> Ok \<lparr>peer_fingerprint = fp, peer_ip = ip\<rparr>))"

text \<open>
  A TCP connection and the TLS configuration of this device: either may fail before TLS starts.
\<close>

record link =
  link_addr :: "core_error + string"
  link_config :: "core_error option"

definition upgrade_on :: "'p tls_engine \<Rightarrow> (bytes \<Rightarrow> bytes) \<Rightarrow> verifier \<Rightarrow> 'p \<Rightarrow> link \<Rightarrow> core_error + transport" where
  "upgrade_on engine digest v peer l = (case link_addr l of
       Inl err \<Rightarrow> Err err
     | Inr ip \<Rightarrow> (case link_config l of
           Some err \<Rightarrow> Err err
         | None \<Rightarrow> tls_upgrade engine digest v peer ip))"

definition transport_connect :: "'p tls_engine \<Rightarrow> (bytes \<Rightarrow> bytes) \<Rightarrow> 'p \<Rightarrow> link \<Rightarrow> core_error + transport" where
  "transport_connect engine digest = upgrade_on engine digest AcceptAnyServer"

definition transport_accept :: "'p tls_engine \<Rightarrow> (bytes \<Rightarrow> bytes) \<Rightarrow> 'p \<Rightarrow> link \<Rightarrow> core_error + transport" where
  "transport_accept engine digest = upgrade_on engine digest AcceptAnyClient"

definition transport_accept_control :: "'p tls_engine \<Rightarrow> (bytes \<Rightarrow> bytes) \<Rightarrow> 'p \<Rightarrow> link \<Rightarrow> core_error + transport" where
  "transport_accept_control engine digest = upgrade_on engine digest AcceptAnyServer"

section \<open>Packets of the handshake\<close>

record codec =
  pk_ser :: "packet \<Rightarrow> string + bytes"
  pk_de :: "bytes \<Rightarrow> string + packet"
  body_err :: "json \<Rightarrow> string"

fun show_proto_error :: "proto_error \<Rightarrow> string" where
  "show_proto_error (Io s) = ''io error: '' @ s"
| "show_proto_error (Json s) = ''json error: '' @ s"
| "show_proto_error (Cert s) = ''certificate error: '' @ s"
| "show_proto_error (Other s) = s"

definition identity_of_packet :: "codec \<Rightarrow> packet \<Rightarrow> core_error + identity" where
  "identity_of_packet cdc p =
     (if ptype p \<noteq> TYPE_IDENTITY
      then Err (COther (''expected '' @ TYPE_IDENTITY @ '' as first packet, got '' @ ptype p))
      else (case identity_of_json (body p) of
          None \<Rightarrow> Err (COther (''malformed identity body: '' @ body_err cdc (body p)))
        | Some i \<Rightarrow> Ok i))"

text \<open>The line is read byte by byte; what the caller gets back besides the result is the unread rest.\<close>

abbreviation brace :: byte where "brace \<equiv> 0x7B"

fun plain_loop :: "codec \<Rightarrow> bool \<Rightarrow> bytes \<Rightarrow> ending \<Rightarrow> bytes \<Rightarrow> (core_error + identity) \<times> bytes" where
  "plain_loop cdc first line e [] = (Err (case e of
       Stall \<Rightarrow> COther ''peer never finished its identity line''
     | Broken err \<Rightarrow> CIo err
     | Close \<Rightarrow> COther ''connection closed before the plaintext identity line''), [])"
| "plain_loop cdc first line e (b # bs) =
     (if first \<and> b \<noteq> brace then (Err (COther ''peer did not start with a plaintext identity packet''), bs)
      else if length line \<ge> MAX_PACKET_LEN
      then (Err (COther (''identity line exceeds MAX_PACKET_LEN ('' @ show_nat MAX_PACKET_LEN @ '')'')), bs)
      else if b = newline then ((case pk_de cdc line of
          Inl err \<Rightarrow> Err (COther (''malformed plaintext identity packet: '' @ err))
        | Inr p \<Rightarrow> identity_of_packet cdc p), bs)
      else plain_loop cdc False (line @ [b]) e bs)"

definition read_plaintext_identity :: "codec \<Rightarrow> source \<Rightarrow> (core_error + identity) \<times> bytes" where
  "read_plaintext_identity cdc s = plain_loop cdc True [] (ending s) (arriving s)"

text \<open>
  The encrypted channel during the exchange: faults of writing and flushing, whether the answer comes too
  late, and what arrives.
\<close>

record channel =
  ch_write :: "bytes \<Rightarrow> string option"
  ch_flush :: "io_error option"
  ch_late :: bool
  ch_in :: reader

definition write_packet :: "codec \<Rightarrow> channel \<Rightarrow> packet \<Rightarrow> core_error + bytes" where
  "write_packet cdc ch p = (case write_to (pk_ser cdc) (ch_write ch) p [] of
       Inl err \<Rightarrow> Err (COther (show_proto_error err))
     | Inr wire \<Rightarrow> (case ch_flush ch of Some err \<Rightarrow> Err (CIo err) | None \<Rightarrow> Ok wire))"

definition read_packet :: "codec \<Rightarrow> channel \<Rightarrow> (core_error + packet) \<times> reader" where
  "read_packet cdc ch = (case read_from (pk_de cdc) (ch_in ch) of
       (Inl err, r) \<Rightarrow> (Err (COther (show_proto_error err)), r)
     | (Inr p, r) \<Rightarrow> (Ok p, r))"

text \<open>The result carries the peer's identity, what was sent and what is left to read.\<close>

definition exchange :: "codec \<Rightarrow> channel \<Rightarrow> i64 \<Rightarrow> identity \<Rightarrow> core_error + (identity \<times> bytes \<times> reader)" where
  "exchange cdc ch c mine = (case write_packet cdc ch (fst (identity_packet c mine)) of
       Inl err \<Rightarrow> Err err
     | Inr sent \<Rightarrow>
         if ch_late ch then Err (COther ''identity exchange timed out'')
         else (case read_packet cdc ch of
             (Inl err, _) \<Rightarrow> Err err
           | (Inr p, r) \<Rightarrow> (case identity_of_packet cdc p of
                 Inl err \<Rightarrow> Err err
               | Inr theirs \<Rightarrow>
                   if device_id theirs = [] then Err (COther ''peer identity lacks deviceId'')
                   else Ok (theirs, sent, r))))"

definition cross_check :: "identity \<Rightarrow> identity \<Rightarrow> core_error + unit" where
  "cross_check plain secure =
     (if device_id plain \<noteq> device_id secure
      then Err (COther (''device id changed during handshake: '' @ device_id plain @ '' -> '' @ device_id secure))
      else if protocol_version plain \<noteq> protocol_version secure
      then Err (COther (''protocol version changed during handshake: '' @ show_nat (unat (protocol_version plain)) @
             '' -> '' @ show_nat (unat (protocol_version secure))))
      else Ok ())"

definition accept_control :: "'p tls_engine \<Rightarrow> (bytes \<Rightarrow> bytes) \<Rightarrow> codec \<Rightarrow> source \<Rightarrow> 'p \<Rightarrow> link \<Rightarrow> channel \<Rightarrow> i64 \<Rightarrow> identity \<Rightarrow>
    core_error + (identity \<times> transport)" where
  "accept_control engine digest cdc s peer l ch c mine = (case read_plaintext_identity cdc s of
       (Inl err, _) \<Rightarrow> Err err
     | (Inr plain, _) \<Rightarrow> (case transport_accept_control engine digest peer l of
           Inl err \<Rightarrow> Err err
         | Inr t \<Rightarrow> (case exchange cdc ch c mine of
               Inl err \<Rightarrow> Err err
             | Inr (secure, _, _) \<Rightarrow> (case cross_check plain secure of
                   Inl err \<Rightarrow> Err err
                 | Inr _ \<Rightarrow> Ok (secure, t)))))"

text \<open>
  The dialing side writes its identity to the raw socket first; \<^verbatim>\<open>raw\<close> is the fault of that write, and the
  second component what the socket was given.
\<close>

definition transport_connect_control :: "'p tls_engine \<Rightarrow> (bytes \<Rightarrow> bytes) \<Rightarrow> codec \<Rightarrow> (bytes \<Rightarrow> io_error option) \<Rightarrow> 'p \<Rightarrow>
    link \<Rightarrow> i64 \<Rightarrow> identity \<Rightarrow> (core_error + transport) \<times> bytes" where
  "transport_connect_control engine digest cdc raw peer l c mine = (case link_addr l of
       Inl err \<Rightarrow> (Err err, [])
     | Inr ip \<Rightarrow> (case pk_ser cdc (fst (identity_packet c mine)) of
           Inl err \<Rightarrow> (Err (CJson err), [])
         | Inr json \<Rightarrow> (let frame = json @ [newline] in (case raw frame of
               Some err \<Rightarrow> (Err (CIo err), [])
             | None \<Rightarrow> ((case link_config l of
                   Some err \<Rightarrow> Err err
                 | None \<Rightarrow> tls_upgrade engine digest AcceptAnyClient peer ip), frame)))))"

definition dial_control :: "'p tls_engine \<Rightarrow> (bytes \<Rightarrow> bytes) \<Rightarrow> codec \<Rightarrow> (bytes \<Rightarrow> io_error option) \<Rightarrow> 'p \<Rightarrow> link \<Rightarrow> channel \<Rightarrow>
    i64 \<Rightarrow> identity \<Rightarrow> core_error + (identity \<times> transport)" where
  "dial_control engine digest cdc raw peer l ch c mine =
     (case transport_connect_control engine digest cdc raw peer l c mine of
        (Inl err, _) \<Rightarrow> Err err
      | (Inr t, _) \<Rightarrow> (case exchange cdc ch (c + 1) mine of
            Inl err \<Rightarrow> Err err
          | Inr (secure, _, _) \<Rightarrow> Ok (secure, t)))"

text \<open>The listener of the daemon reports every accepted handshake to the manager.\<close>

definition accept_report :: "core_error + (identity \<times> transport) \<Rightarrow> command option" where
  "accept_report r = (case r of Inl _ \<Rightarrow> None | Inr (remote, t) \<Rightarrow> Some (Connected (device_id remote) t))"

section \<open>The plaintext line\<close>

text \<open>The only identities the loop returns are those of a complete line that is short enough.\<close>

lemma plain_loop_ok:
  "plain_loop cdc first line e bs = (Inr i, rest) \<Longrightarrow>
   \<exists>l p. bs = l @ newline # rest \<and> newline \<notin> set l \<and> length (line @ l) < MAX_PACKET_LEN \<and>
     pk_de cdc (line @ l) = Inr p \<and> identity_of_packet cdc p = Inr i"
proof (induction bs arbitrary: first line)
  case (Cons b bs)
  show ?case
  proof (cases "b = newline")
    case True
    then show ?thesis
      using Cons.prems by (intro exI [of _ "[]"]) (auto split: if_splits sum.splits)
  next
    case False
    then have "plain_loop cdc False (line @ [b]) e bs = (Inr i, rest)"
      using Cons.prems by (auto split: if_splits)
    from Cons.IH [OF this] obtain l p where "bs = l @ newline # rest" "newline \<notin> set l"
      "length ((line @ [b]) @ l) < MAX_PACKET_LEN" "pk_de cdc ((line @ [b]) @ l) = Inr p" "identity_of_packet cdc p = Inr i"
      by auto
    then show ?thesis using False by (intro exI [of _ "b # l"] exI [of _ p]) auto
  qed
qed simp

text \<open>A short line is read to its end and not beyond.\<close>

lemma plain_loop_line:
  assumes "newline \<notin> set l" "length (line @ l) < MAX_PACKET_LEN" "first \<longrightarrow> (\<exists>t. l = brace # t)"
  shows "plain_loop cdc first line e (l @ newline # rest) = ((case pk_de cdc (line @ l) of
      Inl err \<Rightarrow> Err (COther (''malformed plaintext identity packet: '' @ err))
    | Inr p \<Rightarrow> identity_of_packet cdc p), rest)"
  using assms
proof (induction l arbitrary: first line)
  case (Cons b l)
  then have "plain_loop cdc False (line @ [b]) e (l @ newline # rest) = ((case pk_de cdc ((line @ [b]) @ l) of
      Inl err \<Rightarrow> Err (COther (''malformed plaintext identity packet: '' @ err))
    | Inr p \<Rightarrow> identity_of_packet cdc p), rest)"
    by (intro Cons.IH) simp_all
  with Cons.prems show ?case by auto
qed auto

text \<open>However much the peer sends, no more than one maximal line is taken from the socket.\<close>

lemma plain_loop_bounded:
  "length line \<le> MAX_PACKET_LEN \<Longrightarrow> plain_loop cdc first line e bs = (r, rest) \<Longrightarrow>
   \<exists>used. bs = used @ rest \<and> length line + length used \<le> Suc MAX_PACKET_LEN"
proof (induction bs arbitrary: first line)
  case (Cons b bs)
  show ?case
  proof (cases "plain_loop cdc first line e (b # bs) = plain_loop cdc False (line @ [b]) e bs \<and> length line < MAX_PACKET_LEN")
    case True
    then obtain used where "bs = used @ rest" "length (line @ [b]) + length used \<le> Suc MAX_PACKET_LEN"
      using Cons.IH [of "line @ [b]" False] Cons.prems(2) by auto
    then show ?thesis by (intro exI [of _ "b # used"]) simp
  next
    case False
    then have "rest = bs" using Cons.prems(2) by (auto split: if_splits)
    then show ?thesis using Cons.prems(1) by (intro exI [of _ "[b]"]) simp
  qed
qed simp

section \<open>What a completed handshake means\<close>

lemma tls_upgrade_ok:
  "tls_upgrade engine digest v peer ip = Inr t \<Longrightarrow>
   \<exists>cert certs. engine v peer = Inr (Some (cert # certs)) \<and> t = \<lparr>peer_fingerprint = digest cert, peer_ip = ip\<rparr>"
  by (auto simp: tls_upgrade_def fingerprint_of_first_def split: sum.splits option.splits list.splits)

lemma upgrade_on_ok:
  "upgrade_on engine digest v peer l = Inr t \<Longrightarrow>
   \<exists>cert certs ip. engine v peer = Inr (Some (cert # certs)) \<and> link_addr l = Inr ip \<and>
     t = \<lparr>peer_fingerprint = digest cert, peer_ip = ip\<rparr>"
  by (auto simp: upgrade_on_def split: sum.splits option.splits dest!: tls_upgrade_ok)

lemma exchange_ok:
  "exchange cdc ch c mine = Inr (theirs, sent, r) \<Longrightarrow> device_id theirs \<noteq> [] \<and> \<not> ch_late ch \<and>
   (\<exists>p. read_from (pk_de cdc) (ch_in ch) = (Inr p, r) \<and> identity_of_packet cdc p = Inr theirs)"
  by (auto simp: exchange_def read_packet_def split: sum.splits prod.splits if_splits)

lemma cross_check_ok:
  "cross_check plain secure = Inr u \<longleftrightarrow>
   device_id plain = device_id secure \<and> protocol_version plain = protocol_version secure"
  by (auto simp: cross_check_def)

text \<open>C8. An inbound connection that reaches the manager has been checked end to end: the peer introduced itself
  in one complete plaintext line of bounded length, repeated the same device and protocol version inside
  TLS, under a non-empty name, and the fingerprint handed on for pinning is that of the certificate the
  peer presented.\<close>

theorem accepted_handshake_is_verified:
  assumes "accept_control engine digest cdc s peer l ch c mine = Inr (secure, t)"
  shows "device_id secure \<noteq> [] \<and>
    (\<exists>line rest p plain. arriving s = line @ newline # rest \<and> newline \<notin> set line \<and> length line < MAX_PACKET_LEN \<and>
       pk_de cdc line = Inr p \<and> identity_of_packet cdc p = Inr plain \<and>
       device_id plain = device_id secure \<and> protocol_version plain = protocol_version secure) \<and>
    (\<exists>q r. read_from (pk_de cdc) (ch_in ch) = (Inr q, r) \<and> identity_of_packet cdc q = Inr secure) \<and>
    (\<exists>cert certs. engine AcceptAnyServer peer = Inr (Some (cert # certs)) \<and> peer_fingerprint t = digest cert)"
proof -
  obtain plain rest where plain: "read_plaintext_identity cdc s = (Inr plain, rest)"
    and t: "transport_accept_control engine digest peer l = Inr t"
    and x: "\<exists>sent r. exchange cdc ch c mine = Inr (secure, sent, r)" and cc: "cross_check plain secure = Inr ()"
    using assms by (auto simp: accept_control_def split: sum.splits prod.splits)
  obtain l p where "arriving s = l @ newline # rest" "newline \<notin> set l" "length l < MAX_PACKET_LEN"
    "pk_de cdc l = Inr p" "identity_of_packet cdc p = Inr plain"
    using plain_loop_ok [OF plain [unfolded read_plaintext_identity_def]] by auto
  moreover have "device_id plain = device_id secure \<and> protocol_version plain = protocol_version secure"
    using cc by (simp add: cross_check_ok)
  ultimately have "\<exists>line rest p plain. arriving s = line @ newline # rest \<and> newline \<notin> set line \<and>
      length line < MAX_PACKET_LEN \<and> pk_de cdc line = Inr p \<and> identity_of_packet cdc p = Inr plain \<and>
      device_id plain = device_id secure \<and> protocol_version plain = protocol_version secure" by blast
  then show ?thesis
    using x exchange_ok [of cdc ch c mine secure] upgrade_on_ok [OF t [unfolded transport_accept_control_def]] by auto
qed

section \<open>Both sides together\<close>

text \<open>What the JSON text of a packet must satisfy: one object on one line, short enough, read back as it was written.\<close>

definition speaks :: "codec \<Rightarrow> packet \<Rightarrow> bool" where
  "speaks cdc p = (case pk_ser cdc p of
       Inl _ \<Rightarrow> False
     | Inr j \<Rightarrow> newline \<notin> set j \<and> length j < MAX_PACKET_LEN \<and> take 1 j = [brace] \<and> pk_de cdc j = Inr p)"

text \<open>A channel without faults that delivers the given reads.\<close>

definition healthy :: "bytes list \<Rightarrow> channel" where
  "healthy cs = \<lparr>ch_write = (\<lambda>_. None), ch_flush = None, ch_late = False, ch_in = map Chunk cs\<rparr>"

lemma speaks_cases:
  assumes "speaks cdc p"
  obtains j where "pk_ser cdc p = Inr j" "newline \<notin> set j" "length j < MAX_PACKET_LEN" "\<exists>t. j = brace # t" "pk_de cdc j = Inr p"
proof (cases "pk_ser cdc p")
  case (Inr j)
  then have j: "newline \<notin> set j" "length j < MAX_PACKET_LEN" "take 1 j = [brace]" "pk_de cdc j = Inr p"
    using assms by (simp_all add: speaks_def)
  moreover have "\<exists>t. j = brace # t" using j(3) by (cases j) simp_all
  ultimately show ?thesis using that Inr by blast
qed (use assms in \<open>simp add: speaks_def\<close>)

lemma identity_of_identity_packet [simp]: "identity_of_packet cdc (fst (identity_packet c i)) = Inr i"
  by (simp add: identity_of_packet_def identity_packet_def next_packet_id_def identity_json_roundtrip)

lemma write_healthy:
  "pk_ser cdc p = Inr j \<Longrightarrow> length j < MAX_PACKET_LEN \<Longrightarrow> write_packet cdc (healthy cs) p = Inr (j @ [newline])"
  by (simp add: write_packet_def healthy_def write_to_def encode_into_def)

text \<open>An exchange over a channel without faults ends with the identity the other side sent.\<close>

lemma exchange_healthy:
  assumes "speaks cdc (fst (identity_packet c mine))" "speaks cdc (fst (identity_packet c' theirs))" "device_id theirs \<noteq> []"
    and "pk_ser cdc (fst (identity_packet c' theirs)) = Inr j" "\<forall>x\<in>set cs. x \<noteq> []" "concat cs = j @ newline # later"
  shows "\<exists>sent r. exchange cdc (healthy cs) c mine = Inr (theirs, sent, r)"
proof -
  obtain jm where jm: "pk_ser cdc (fst (identity_packet c mine)) = Inr jm" "length jm < MAX_PACKET_LEN"
    using assms(1) by (rule speaks_cases)
  have j: "newline \<notin> set j" "length j < MAX_PACKET_LEN" "pk_de cdc j = Inr (fst (identity_packet c' theirs))"
    using assms(2,4) by (auto simp: speaks_def)
  then obtain cs' where "read_frame (map Chunk cs) = (Inr j, map Chunk cs')"
    using read_frame_loop_line [OF assms(5,6), of "[]" "[]"] by (auto simp: read_frame_def)
  then have "read_packet cdc (healthy cs) = (Inr (fst (identity_packet c' theirs)), map Chunk cs')"
    using j(3) by (simp add: read_packet_def read_from_def healthy_def)
  then show ?thesis
    using write_healthy [OF jm, of cs] assms(3) by (simp add: exchange_def) (simp add: healthy_def)
qed

text \<open>C10. Two daemons that reach each other complete the handshake: the dialing side ends up with the accepting
  side's identity and the fingerprint of its certificate, the accepting side with those of the dialing
  side, and the bytes after the plaintext line are left for TLS, however the encrypted bytes are divided.\<close>

theorem handshake_completes:
  assumes "speaks cdc (fst (identity_packet ca a))" "speaks cdc (fst (identity_packet (ca + 1) a))"
    and "speaks cdc (fst (identity_packet cb b))" "device_id a \<noteq> []" "device_id b \<noteq> []"
    and "link_addr la = Inr ipb" "link_config la = None" "link_addr lb = Inr ipa" "link_config lb = None"
    and "engine AcceptAnyClient peer_b = Inr (Some (cert_b # chain_b))"
    and "engine AcceptAnyServer peer_a = Inr (Some (cert_a # chain_a))"
    and "arriving s = snd (transport_connect_control engine digest cdc (\<lambda>_. None) peer_b la ca a) @ tls"
    and "write_packet cdc (healthy cs_b) (fst (identity_packet (ca + 1) a)) = Inr sent_a"
    and "write_packet cdc (healthy cs_a) (fst (identity_packet cb b)) = Inr sent_b"
    and "concat cs_a = sent_b @ more_b" "concat cs_b = sent_a @ more_a" "\<forall>x\<in>set cs_a. x \<noteq> []" "\<forall>x\<in>set cs_b. x \<noteq> []"
  shows "dial_control engine digest cdc (\<lambda>_. None) peer_b la (healthy cs_a) ca a =
      Inr (b, \<lparr>peer_fingerprint = digest cert_b, peer_ip = ipb\<rparr>) \<and>
    accept_control engine digest cdc s peer_a lb (healthy cs_b) cb b =
      Inr (a, \<lparr>peer_fingerprint = digest cert_a, peer_ip = ipa\<rparr>) \<and>
    snd (read_plaintext_identity cdc s) = tls"
proof -
  obtain j where j: "pk_ser cdc (fst (identity_packet ca a)) = Inr j" "newline \<notin> set j" "length j < MAX_PACKET_LEN"
    "\<exists>t. j = brace # t" "pk_de cdc j = Inr (fst (identity_packet ca a))" using assms(1) by (rule speaks_cases)
  obtain ja where ja: "pk_ser cdc (fst (identity_packet (ca + 1) a)) = Inr ja" "length ja < MAX_PACKET_LEN"
    using assms(2) by (rule speaks_cases)
  obtain jb where jb: "pk_ser cdc (fst (identity_packet cb b)) = Inr jb" "length jb < MAX_PACKET_LEN"
    using assms(3) by (rule speaks_cases)
  have up: "transport_connect_control engine digest cdc (\<lambda>_. None) peer_b la ca a =
      (Inr \<lparr>peer_fingerprint = digest cert_b, peer_ip = ipb\<rparr>, j @ [newline])"
    using assms(6,7,10) j(1) by (simp add: transport_connect_control_def tls_upgrade_def fingerprint_of_first_def)
  have plain: "read_plaintext_identity cdc s = (Inr a, tls)"
    using plain_loop_line [OF j(2), of "[]" True cdc "ending s" tls] j(3-5) assms(12) up
    by (simp add: read_plaintext_identity_def)
  have "\<exists>sent r. exchange cdc (healthy cs_a) (ca + 1) a = Inr (b, sent, r)"
    using assms(14,15) write_healthy [OF jb, of cs_a]
    by (intro exchange_healthy [OF assms(2,3,5) jb(1) assms(17), where later = more_b]) auto
  moreover have "\<exists>sent r. exchange cdc (healthy cs_b) cb b = Inr (a, sent, r)"
    using assms(13,16) write_healthy [OF ja, of cs_b]
    by (intro exchange_healthy [OF assms(3,2,4) ja(1) assms(18), where later = more_a]) auto
  ultimately show ?thesis
    using up plain assms(8,9,11)
    by (auto simp: dial_control_def accept_control_def transport_accept_control_def upgrade_on_def tls_upgrade_def
        fingerprint_of_first_def cross_check_def)
qed

text \<open>
  The handshake proves nothing about the peer's private key.  rustls documents that the signature a peer makes
  with its key is accepted if and only if the verifier says so; under that assumption any peer that presents
  the pinned certificate passes the pinning gate as the paired device.
\<close>

lemma impostor_passes_the_pin:
  assumes "\<And>v. check_cert v cert = Inr () \<Longrightarrow> (\<And>msg sig. check_tls12 v msg cert sig = Inr ()) \<Longrightarrow>
      (\<And>msg sig. check_tls13 v msg cert sig = Inr ()) \<Longrightarrow> engine v impostor = Inr (Some [cert])"
    and "accept_control engine digest cdc s impostor l ch c mine = Inr (secure, t)"
    and "trust m (device_id secure) = Some (hex (digest cert))"
  shows "live_of (mgr_step env (Connected (device_id secure) t) m) (device_id secure) = trust m (device_id secure)"
proof -
  have "engine AcceptAnyServer impostor = Inr (Some [cert])"
    by (rule assms(1)) (simp_all add: AcceptAnyServer_def)
  moreover have "transport_accept_control engine digest impostor l = Inr t"
    using assms(2) by (auto simp: accept_control_def split: sum.splits prod.splits)
  ultimately have fp: "peer_fingerprint t = digest cert"
    using upgrade_on_ok [of engine digest AcceptAnyServer impostor l t] by (auto simp: transport_accept_control_def)
  then have "\<not> pin_mismatch m (device_id secure) (hex (peer_fingerprint t))"
    using assms(3) by (simp add: pin_mismatch_trust)
  from on_connected_devices [OF this]
  have "live_of (mgr_step env (Connected (device_id secure) t) m) (device_id secure) = Some (hex (peer_fingerprint t))"
    by (simp add: live_of_def)
  then show ?thesis by (simp only: fp assms(3))
qed
section \<open>A concrete pair of daemons\<close>

definition demo_a :: identity where "demo_a = (shell_identity ''a'')\<lparr>tcp_source_port := 1716\<rparr>"
definition demo_b :: identity where "demo_b = (shell_identity ''b'')\<lparr>tcp_source_port := 1717\<rparr>"

definition demo_codec :: codec where
  "demo_codec = \<lparr>pk_ser = (\<lambda>p. Inr [brace, ucast (packet_id p)]),
     pk_de = (\<lambda>j. if j = [brace, 1] then Inr (fst (identity_packet 0 demo_a))
       else if j = [brace, 2] then Inr (fst (identity_packet 1 demo_a))
       else if j = [brace, 21] then Inr (fst (identity_packet 20 demo_b)) else Inl []),
     body_err = (\<lambda>_. [])\<rparr>"

definition demo_engine :: "bytes tls_engine" where "demo_engine v cert = Inr (Some [cert])"

definition demo_link :: link where "demo_link = \<lparr>link_addr = Inr ''10.0.0.1'', link_config = None\<rparr>"

lemmas demo_handshake = demo_codec_def identity_packet_def next_packet_id_def MAX_PACKET_LEN_def

lemma demo_speaks:
  "speaks demo_codec (fst (identity_packet 0 demo_a))" "speaks demo_codec (fst (identity_packet (0 + 1) demo_a))"
  "speaks demo_codec (fst (identity_packet 20 demo_b))"
  by (simp_all add: speaks_def demo_handshake)

lemma demo_ids: "device_id demo_a = ''a''" "device_id demo_b = ''b''"
  by (simp_all add: demo_a_def demo_b_def shell_identity_def)

theorem handshake_completes_witness:
  "dial_control demo_engine id demo_codec (\<lambda>_. None) [9] demo_link (healthy [[brace], [21, 10]]) 0 demo_a =
     Inr (demo_b, \<lparr>peer_fingerprint = [9], peer_ip = ''10.0.0.1''\<rparr>) \<and>
   accept_control demo_engine id demo_codec \<lparr>arriving = [brace, 1, 10, 22, 3], ending = Stall\<rparr> [8] demo_link
     (healthy [[brace, 2], [10]]) 20 demo_b = Inr (demo_a, \<lparr>peer_fingerprint = [8], peer_ip = ''10.0.0.1''\<rparr>) \<and>
   snd (read_plaintext_identity demo_codec \<lparr>arriving = [brace, 1, 10, 22, 3], ending = Stall\<rparr>) = [22, 3]"
  using handshake_completes [OF demo_speaks, of demo_link "''10.0.0.1''" demo_link "''10.0.0.1''" demo_engine "[9]" "[9]" "[]"
      "[8]" "[8]" "[]" "\<lparr>arriving = [brace, 1, 10, 22, 3], ending = Stall\<rparr>" id "[22, 3]" "[[brace, 2], [10]]" "[brace, 2, 10]"
      "[[brace], [21, 10]]" "[brace, 21, 10]" "[]" "[]"]
  by (simp add: demo_ids demo_link_def demo_engine_def transport_connect_control_def write_packet_def healthy_def
      write_to_def encode_into_def demo_handshake)

theorem accepted_handshake_is_verified_witness:
  "\<exists>line rest. [brace, 1, 10, 22, 3] = line @ newline # rest \<and> newline \<notin> set line \<and> length line < MAX_PACKET_LEN"
proof -
  have "accept_control demo_engine id demo_codec \<lparr>arriving = [brace, 1, 10, 22, 3], ending = Stall\<rparr> [8] demo_link
     (healthy [[brace, 2], [10]]) 20 demo_b = Inr (demo_a, \<lparr>peer_fingerprint = [8], peer_ip = ''10.0.0.1''\<rparr>)"
    by (simp add: accept_control_def read_plaintext_identity_def transport_accept_control_def upgrade_on_def
        tls_upgrade_def fingerprint_of_first_def exchange_def read_packet_def read_from_def read_frame_def position_def
        write_packet_def healthy_def write_to_def encode_into_def demo_link_def demo_engine_def cross_check_def
        identity_of_packet_def consume_def demo_ids demo_handshake)
  from accepted_handshake_is_verified [OF this] show ?thesis by auto
qed

section \<open>Data connections\<close>

definition PAYLOAD_PORT_MIN :: u16 where "PAYLOAD_PORT_MIN = 1739"
definition PAYLOAD_PORT_MAX :: u16 where "PAYLOAD_PORT_MAX = 1764"

text \<open>
  \<^verbatim>\<open>free\<close> says which ports of the preferred range can be bound; the last argument is the result of binding
  an ephemeral port and asking for its number.
\<close>

definition payload_bind :: "(u16 \<Rightarrow> bool) \<Rightarrow> core_error + u16 \<Rightarrow> core_error + u16" where
  "payload_bind free ephemeral =
     (case List.find free (map of_nat [unat PAYLOAD_PORT_MIN ..< Suc (unat PAYLOAD_PORT_MAX)]) of
        Some port \<Rightarrow> Ok port
      | None \<Rightarrow> ephemeral)"

text \<open>\<^verbatim>\<open>None\<close> when nobody dials in time.\<close>

definition payload_accept :: "'p tls_engine \<Rightarrow> (bytes \<Rightarrow> bytes) \<Rightarrow> (core_error + 'p \<times> link) option \<Rightarrow> core_error + transport" where
  "payload_accept engine digest arrival = (case arrival of
       None \<Rightarrow> Err (COther ''timed out waiting for the receiver to dial the data connection'')
     | Some (Inl err) \<Rightarrow> Err err
     | Some (Inr (peer, l)) \<Rightarrow> transport_accept engine digest peer l)"

definition connect_payload :: "'p tls_engine \<Rightarrow> (bytes \<Rightarrow> bytes) \<Rightarrow> 'p \<Rightarrow> link \<Rightarrow> core_error + transport" where
  "connect_payload engine digest peer l = transport_connect engine digest peer l"

text \<open>The announced port is in the preferred range or the one the system chose, and it is the first free one.\<close>

lemma payload_bind_port:
  assumes "payload_bind free ephemeral = Inr port"
  shows "PAYLOAD_PORT_MIN \<le> port \<and> port \<le> PAYLOAD_PORT_MAX \<and> free port \<or>
    ephemeral = Inr port \<and> (\<forall>n\<in>{1739..1764}. \<not> free (of_nat n))"
proof -
  define ports :: "u16 list" where "ports = map of_nat [unat PAYLOAD_PORT_MIN ..< Suc (unat PAYLOAD_PORT_MAX)]"
  have ports: "set ports = of_nat ` {1739..1764}"
    unfolding ports_def PAYLOAD_PORT_MIN_def PAYLOAD_PORT_MAX_def set_map set_upt by (intro arg_cong [where f = "image of_nat"]) auto
  have inside: "PAYLOAD_PORT_MIN \<le> p \<and> p \<le> PAYLOAD_PORT_MAX" if "p \<in> set ports" for p
    using that unfolding ports by (auto simp: word_le_nat_alt unat_of_nat PAYLOAD_PORT_MIN_def PAYLOAD_PORT_MAX_def)
  show ?thesis
  proof (cases "List.find free ports")
    case None
    then have "\<forall>p\<in>set ports. \<not> free p" by (auto simp: find_None_iff)
    then show ?thesis using assms None unfolding ports by (simp add: payload_bind_def ports_def)
  next
    case (Some p)
    then have "p \<in> set ports \<and> free p" by (auto simp: find_Some_iff)
    then show ?thesis using assms Some inside by (simp add: payload_bind_def ports_def)
  qed
qed

text \<open>A data connection is accepted under any certificate; no pinned fingerprint is consulted.\<close>

lemma payload_accepts_any_certificate:
  assumes "engine AcceptAnyClient peer = Inr (Some [cert])"
  shows "payload_accept engine digest (Some (Inr (peer, \<lparr>link_addr = Inr ip, link_config = None\<rparr>))) =
    Inr \<lparr>peer_fingerprint = digest cert, peer_ip = ip\<rparr>"
  using assms by (simp add: payload_accept_def transport_accept_def upgrade_on_def tls_upgrade_def fingerprint_of_first_def)

section \<open>Discovery\<close>

definition MAX_DATAGRAM :: nat where "MAX_DATAGRAM = 4096"

datatype datagram = RecvError | Datagram bytes string

record disc_conf =
  dc_codec :: codec
  dc_utf8 :: "bytes \<Rightarrow> bool"
  dc_identity :: "bytes \<Rightarrow> identity option"
  dc_self :: identity
  dc_self_id :: string

text \<open>The text of a datagram is an identity packet or, failing that, a bare identity.\<close>

definition parse_announcement :: "disc_conf \<Rightarrow> bytes \<Rightarrow> identity option" where
  "parse_announcement cf buf = (case pk_de (dc_codec cf) buf of
       Inr p \<Rightarrow> if ptype p = TYPE_IDENTITY then identity_of_json (body p) else dc_identity cf buf
     | Inl _ \<Rightarrow> dc_identity cf buf)"

text \<open>One received datagram: the socket fills at most \<^verbatim>\<open>MAX_DATAGRAM\<close> bytes of the buffer.\<close>

fun hear :: "disc_conf \<Rightarrow> datagram \<Rightarrow> announcement option" where
  "hear cf RecvError = None"
| "hear cf (Datagram payload source) =
     (let buf = take MAX_DATAGRAM payload in
      if buf = [] \<or> length buf > MAX_DATAGRAM \<or> \<not> dc_utf8 cf buf then None
      else (case parse_announcement cf buf of
          None \<Rightarrow> None
        | Some parsed \<Rightarrow>
            if device_id parsed = dc_self_id cf \<or> tcp_source_port parsed = 0 then None
            else Some \<lparr>ann_identity = parsed, ann_ip = source\<rparr>))"

text \<open>\<^verbatim>\<open>None\<close> while no datagram so far could be used.\<close>

fun recv_one :: "disc_conf \<Rightarrow> datagram list \<Rightarrow> (announcement \<times> datagram list) option" where
  "recv_one cf [] = None"
| "recv_one cf (d # ds) = (case hear cf d of Some a \<Rightarrow> Some (a, ds) | None \<Rightarrow> recv_one cf ds)"

text \<open>What is broadcast, and the counter after; a failed broadcast is only logged.\<close>

definition announce :: "disc_conf \<Rightarrow> bool \<Rightarrow> i64 \<Rightarrow> (core_error + bytes list) \<times> i64" where
  "announce cf delivered c = (let (p, c') = identity_packet c (dc_self cf) in
     (case pk_ser (dc_codec cf) p of
        Inl err \<Rightarrow> (Err (COther err), c')
      | Inr payload \<Rightarrow> (Ok (if delivered then [payload] else []), c')))"

record disc =
  broadcasts :: "bytes list"
  found :: "announcement list"
  counter :: i64
  disc_result :: "(core_error + unit) option"

datatype disc_input = Tick bool | Net datagram bool

fun disc_step :: "disc_conf \<Rightarrow> disc_input \<Rightarrow> disc \<Rightarrow> disc" where
  "disc_step cf (Tick delivered) s =
     (if disc_result s \<noteq> None then s
      else (case announce cf delivered (counter s) of
          (Inl err, c) \<Rightarrow> s\<lparr>counter := c, disc_result := Some (Err err)\<rparr>
        | (Inr out, c) \<Rightarrow> s\<lparr>counter := c, broadcasts := broadcasts s @ out\<rparr>))"
| "disc_step cf (Net d manager_up) s =
     (if disc_result s \<noteq> None then s
      else (case hear cf d of
          None \<Rightarrow> s
        | Some a \<Rightarrow> if manager_up then s\<lparr>found := found s @ [a]\<rparr> else s\<lparr>disc_result := Some (Ok ())\<rparr>))"

definition disc_run :: "disc_conf \<Rightarrow> disc_input list \<Rightarrow> disc \<Rightarrow> disc" where
  "disc_run cf = fold (disc_step cf)"

definition disc_start :: "i64 \<Rightarrow> disc" where
  "disc_start c = \<lparr>broadcasts = [], found = [], counter = c, disc_result = None\<rparr>"

text \<open>The loop inside \<^verbatim>\<open>recv_one\<close> finds the first datagram that announces another device.\<close>

lemma recv_one_first:
  "recv_one cf ds = Some (a, rest) \<longleftrightarrow>
   (\<exists>junk d. ds = junk @ d # rest \<and> hear cf d = Some a \<and> (\<forall>x\<in>set junk. hear cf x = None))"
proof (induction ds)
  case (Cons d ds)
  show ?case
  proof (cases "hear cf d")
    case None
    then show ?thesis using Cons by (auto simp: Cons_eq_append_conv)
  next
    case (Some a')
    then show ?thesis by (auto simp: Cons_eq_append_conv)
  qed
qed simp

fun heard_in :: "disc_conf \<Rightarrow> disc_input list \<Rightarrow> announcement list" where
  "heard_in cf [] = []"
| "heard_in cf (Net d _ # is) = (case hear cf d of None \<Rightarrow> heard_in cf is | Some a \<Rightarrow> a # heard_in cf is)"
| "heard_in cf (Tick _ # is) = heard_in cf is"

fun manager_stays :: "disc_input list \<Rightarrow> bool" where
  "manager_stays [] = True"
| "manager_stays (Net _ up # is) = (up \<and> manager_stays is)"
| "manager_stays (Tick _ # is) = manager_stays is"

lemma disc_run_found:
  assumes "\<And>c. \<exists>j. pk_ser (dc_codec cf) (fst (identity_packet c (dc_self cf))) = Inr j"
    and "manager_stays is" "disc_result s = None"
  shows "found (disc_run cf is s) = found s @ heard_in cf is \<and> disc_result (disc_run cf is s) = None"
  using assms(2,3)
proof (induction "is" arbitrary: s)
  case (Cons i "is")
  show ?case
  proof (cases i)
    case (Tick delivered)
    obtain j where "pk_ser (dc_codec cf) (fst (identity_packet (counter s) (dc_self cf))) = Inr j" using assms(1) by blast
    then have "found (disc_step cf i s) = found s \<and> disc_result (disc_step cf i s) = None"
      using Tick Cons.prems(2) by (simp add: announce_def case_prod_beta)
    then show ?thesis using Cons.IH [of "disc_step cf i s"] Cons.prems(1) Tick by (simp add: disc_run_def)
  next
    case (Net d up)
    then show ?thesis
      using Cons.IH [of "disc_step cf i s"] Cons.prems by (cases "hear cf d") (simp_all add: disc_run_def)
  qed
qed (simp add: disc_run_def)

text \<open>C29. Devices find each other: what one daemon broadcasts, another one reports to its manager as exactly the
  identity it was sent with and the address it came from, in order and amid any other traffic, and a daemon
  never reports itself.\<close>

theorem announcement_is_heard:
  assumes "pk_ser (dc_codec cfa) (fst (identity_packet c (dc_self cfa))) = Inr j"
    and "pk_de (dc_codec cf) j = Inr (fst (identity_packet c (dc_self cfa)))"
    and "j \<noteq> []" "length j \<le> MAX_DATAGRAM" "dc_utf8 cf j" "tcp_source_port (dc_self cfa) \<noteq> 0"
    and "\<And>n. \<exists>t. pk_ser (dc_codec cf) (fst (identity_packet n (dc_self cf))) = Inr t"
    and "manager_stays (pre @ Net (Datagram j ip) True # post)"
  shows "broadcasts (disc_step cfa (Tick True) (disc_start c)) = [j] \<and>
    found (disc_run cf (pre @ Net (Datagram j ip) True # post) (disc_start n)) =
      heard_in cf pre @ (if device_id (dc_self cfa) = dc_self_id cf then [] else [\<lparr>ann_identity = dc_self cfa, ann_ip = ip\<rparr>]) @
      heard_in cf post"
proof -
  have app: "heard_in cf (xs @ ys) = heard_in cf xs @ heard_in cf ys" for xs ys
    by (induction xs rule: heard_in.induct) (simp_all split: option.split)
  have p: "ptype (fst (identity_packet c i)) = TYPE_IDENTITY" "body (fst (identity_packet c i)) = json_of_identity i" for i
    by (simp_all add: identity_packet_def next_packet_id_def)
  have "hear cf (Datagram j ip) =
      (if device_id (dc_self cfa) = dc_self_id cf then None else Some \<lparr>ann_identity = dc_self cfa, ann_ip = ip\<rparr>)"
    using assms(2-6) by (simp add: parse_announcement_def p)
  then show ?thesis
    using disc_run_found [of cf _ "disc_start n", OF assms(7,8)] assms(1)
    by (simp add: disc_start_def announce_def case_prod_beta app)
qed

theorem announcement_is_heard_witness:
  "found (disc_run \<lparr>dc_codec = demo_codec, dc_utf8 = (\<lambda>_. True), dc_identity = (\<lambda>_. None), dc_self = demo_b, dc_self_id = ''b''\<rparr>
     ([Tick True, Net RecvError True] @ Net (Datagram [brace, 1] ''10.0.0.1'') True # [Net (Datagram [brace, 21] ''10.0.0.2'') True])
     (disc_start 20)) = [\<lparr>ann_identity = demo_a, ann_ip = ''10.0.0.1''\<rparr>]"
proof -
  let ?cf = "\<lambda>i. \<lparr>dc_codec = demo_codec, dc_utf8 = (\<lambda>_. True), dc_identity = (\<lambda>_. None), dc_self = i, dc_self_id = ''b''\<rparr>"
  have "heard_in (?cf demo_b) [Net (Datagram [brace, 21] ''10.0.0.2'') True] = []"
    by (simp add: parse_announcement_def MAX_DATAGRAM_def demo_codec_def identity_packet_def next_packet_id_def demo_ids)
  then show ?thesis
    using announcement_is_heard [of "?cf demo_a" 0 "[brace, 1]" "?cf demo_b" "[Tick True, Net RecvError True]" "''10.0.0.1''"
        "[Net (Datagram [brace, 21] ''10.0.0.2'') True]" 20]
    by (simp add: demo_ids MAX_DATAGRAM_def demo_codec_def identity_packet_def next_packet_id_def)
       (simp add: demo_a_def)
qed

end
