(* ===== verification/Hf_Codec.thy ===== *)
theory Hf_Codec
  imports Hf_Packet
begin

text \<open>
  The frame codec of the local control socket, \<^verbatim>\<open>ipc/src/codec.rs\<close>: a frame is a little-endian 32-bit
  length and that many bytes of JSON.  The reader keeps what it has read beyond the current frame.  As in
  the packet framing, what a stream delivers is a list of chunks, one per read, ended by the end of the
  stream or a fault.
\<close>

unbundle bit_operations_syntax

section \<open>Definitions\<close>

datatype ipc_error =
    IpcIo string
  | IpcJson string
  | FrameTooLarge nat nat
  | IpcClosed
  | IpcOther string

definition IPC_VERSION :: u32 where "IPC_VERSION = 1"

definition MAX_FRAME_BYTES :: nat where "MAX_FRAME_BYTES = 16 * 1024 * 1024"

definition LENGTH_PREFIX :: nat where "LENGTH_PREFIX = 4"

definition to_le_bytes :: "u32 \<Rightarrow> bytes" where
  "to_le_bytes w = [ucast w, ucast (drop_bit 8 w), ucast (drop_bit 16 w), ucast (drop_bit 24 w)]"

definition from_le_bytes :: "byte \<Rightarrow> byte \<Rightarrow> byte \<Rightarrow> byte \<Rightarrow> u32" where
  "from_le_bytes b0 b1 b2 b3 =
     ucast b0 OR push_bit 8 (ucast b1) OR push_bit 16 (ucast b2) OR push_bit 24 (ucast b3)"

text \<open>
  \<^verbatim>\<open>write_all\<close> either writes everything or fails after some of the bytes.  The three fallible steps of
  writing a frame (length, payload, flush) are numbered 0, 1, 2.
\<close>

definition write_all :: "(string \<times> nat) option \<Rightarrow> bytes \<Rightarrow> bytes \<Rightarrow> (ipc_error + unit) \<times> bytes" where
  "write_all fault data wire = (case fault of
       None \<Rightarrow> (Ok (), wire @ data)
     | Some (err, n) \<Rightarrow> (Err (IpcIo err), wire @ take n data))"

definition write_frame :: "(nat \<Rightarrow> (string \<times> nat) option) \<Rightarrow> ('v \<Rightarrow> string + bytes) \<Rightarrow> 'v \<Rightarrow> bytes \<Rightarrow>
    (ipc_error + unit) \<times> bytes" where
  "write_frame io ser v wire = (case ser v of
       Inl err \<Rightarrow> (Err (IpcJson err), wire)
     | Inr payload \<Rightarrow>
         if length payload > MAX_FRAME_BYTES
         then (Err (FrameTooLarge (length payload) MAX_FRAME_BYTES), wire)
         else (case write_all (io 0) (to_le_bytes (of_nat (length payload))) wire of
             (Inl err, w) \<Rightarrow> (Err err, w)
           | (Inr _, w) \<Rightarrow> (case write_all (io 1) payload w of
                 (Inl err, w2) \<Rightarrow> (Err err, w2)
               | (Inr _, w2) \<Rightarrow> (case io 2 of
                     Some (err, _) \<Rightarrow> (Err (IpcIo err), w2)
                   | None \<Rightarrow> (Ok (), w2)))))"

text \<open>What the buffer says before another read: more is needed, the frame is refused, or it is complete.\<close>

datatype carve = Need | TooBig nat | Carved bytes bytes

fun carve_buf :: "bytes \<Rightarrow> carve" where
  "carve_buf (b0 # b1 # b2 # b3 # tail) =
     (let declared = unat (from_le_bytes b0 b1 b2 b3) in
      if declared > MAX_FRAME_BYTES then TooBig declared
      else if declared \<le> length tail then Carved (take declared tail) (drop declared tail)
      else Need)"
| "carve_buf _ = Need"

function frame_next :: "bytes \<Rightarrow> reader \<Rightarrow> (ipc_error + bytes) \<times> bytes \<times> reader" where
  "frame_next buf r = (case carve_buf buf of
       TooBig n \<Rightarrow> (Err (FrameTooLarge n MAX_FRAME_BYTES), buf, r)
     | Carved f tail \<Rightarrow> (Ok f, tail, r)
     | Need \<Rightarrow> (case r of
           [] \<Rightarrow> (Err IpcClosed, buf, [])
         | Fault err # r' \<Rightarrow> (Err (IpcIo err), buf, r')
         | Chunk c # r' \<Rightarrow> if c = [] then (Err IpcClosed, buf, r') else frame_next (buf @ c) r'))"
  by pat_completeness auto
termination by (relation "measure (\<lambda>(buf, r). length r)") simp_all

declare frame_next.simps [simp del]

definition read_raw_frame :: "reader \<Rightarrow> ipc_error + bytes" where
  "read_raw_frame r = fst (frame_next [] r)"

definition read_frame_as :: "(bytes \<Rightarrow> string + 'v) \<Rightarrow> reader \<Rightarrow> ipc_error + 'v" where
  "read_frame_as de r = (case read_raw_frame r of
       Inl err \<Rightarrow> Err err
     | Inr payload \<Rightarrow> (case de payload of Inl err \<Rightarrow> Err (IpcJson err) | Inr v \<Rightarrow> Ok v))"

section \<open>Reading to the end\<close>

text \<open>How many bytes a reader can still deliver.\<close>

fun remaining :: "reader \<Rightarrow> nat" where
  "remaining [] = 0"
| "remaining (Chunk c # r) = length c + remaining r"
| "remaining (Fault e # r) = remaining r"

lemma carve_length: "carve_buf buf = Carved f tail \<Longrightarrow> length buf = LENGTH_PREFIX + length f + length tail"
  by (cases buf rule: carve_buf.cases) (auto simp: Let_def LENGTH_PREFIX_def split: if_splits)

lemma frame_next_consumes:
  "frame_next buf r = (Inr f, buf', r') \<Longrightarrow> length buf' + remaining r' < length buf + remaining r"
proof (induction buf r rule: frame_next.induct)
  case (1 buf r)
  show ?case
  proof (cases "carve_buf buf")
    case Need
    then show ?thesis
      using 1 by (auto simp: frame_next.simps [of buf] split: list.splits chunk.splits if_splits)
  next
    case (TooBig n)
    then show ?thesis using 1(2) by (simp add: frame_next.simps [of buf])
  next
    case (Carved g tail)
    then show ?thesis
      using 1(2) carve_length [OF Carved] by (auto simp: frame_next.simps [of buf] LENGTH_PREFIX_def)
  qed
qed

text \<open>A connection's read loop takes frames until the reader fails.\<close>

function drain :: "bytes \<Rightarrow> reader \<Rightarrow> bytes list \<times> ipc_error" where
  "drain buf r = (case frame_next buf r of
       (Inl err, _) \<Rightarrow> ([], err)
     | (Inr f, buf', r') \<Rightarrow> (let (fs, err) = drain buf' r' in (f # fs, err)))"
  by pat_completeness auto
termination
  by (relation "measure (\<lambda>(buf, r). length buf + remaining r)") (auto dest: frame_next_consumes [OF sym])

declare drain.simps [simp del]

text \<open>The frames of an undivided byte stream, and how it ends.\<close>

function split_frames :: "bytes \<Rightarrow> bytes list \<times> ipc_error" where
  "split_frames s = (case carve_buf s of
       Need \<Rightarrow> ([], IpcClosed)
     | TooBig n \<Rightarrow> ([], FrameTooLarge n MAX_FRAME_BYTES)
     | Carved f rest \<Rightarrow> (let (fs, err) = split_frames rest in (f # fs, err)))"
  by pat_completeness auto
termination
  by (relation "measure length") (auto dest!: carve_length simp: LENGTH_PREFIX_def)

declare split_frames.simps [simp del]

section \<open>Facts\<close>

lemma from_to_le_bytes [simp]:
  "from_le_bytes (ucast w) (ucast (drop_bit 8 w)) (ucast (drop_bit 16 w)) (ucast (drop_bit 24 w)) = w"
proof (rule bit_word_eqI)
  fix n assume "n < LENGTH(32)"
  then consider "n < 8" | "8 \<le> n" "n < 16" | "16 \<le> n" "n < 24" | "24 \<le> n" "n < 32" by fastforce
  then show "bit (from_le_bytes (ucast w) (ucast (drop_bit 8 w)) (ucast (drop_bit 16 w)) (ucast (drop_bit 24 w))) n = bit w n"
    by cases (auto simp: from_le_bytes_def bit_or_iff bit_push_bit_iff bit_ucast_iff bit_drop_bit_eq)
qed

lemma length_to_le_bytes [simp]: "length (to_le_bytes w) = LENGTH_PREFIX"
  by (simp add: to_le_bytes_def LENGTH_PREFIX_def)

text \<open>Reading more never changes a decision that could be made already.\<close>

lemma carve_append:
  "carve_buf buf = Carved f tail \<Longrightarrow> carve_buf (buf @ x) = Carved f (tail @ x)"
  "carve_buf buf = TooBig n \<Longrightarrow> carve_buf (buf @ x) = TooBig n"
  by (cases buf rule: carve_buf.cases; auto simp: Let_def split: if_splits)+

lemma carve_Need_bound: "carve_buf buf = Need \<Longrightarrow> length buf < LENGTH_PREFIX + MAX_FRAME_BYTES"
  by (cases buf rule: carve_buf.cases) (auto simp: Let_def LENGTH_PREFIX_def MAX_FRAME_BYTES_def split: if_splits)

lemma carve_encoded:
  assumes "length f \<le> MAX_FRAME_BYTES"
  shows "carve_buf (to_le_bytes (of_nat (length f)) @ f @ rest) = Carved f rest"
proof -
  have "unat (of_nat (length f) :: u32) = length f"
    using assms by (simp add: unat_of_nat MAX_FRAME_BYTES_def)
  then show ?thesis using assms by (simp add: to_le_bytes_def Let_def)
qed

lemma frame_next_spec:
  assumes "\<forall>c\<in>set cs. c \<noteq> []"
  shows "case carve_buf (buf @ concat cs) of
      Need \<Rightarrow> frame_next buf (map Chunk cs) = (Err IpcClosed, buf @ concat cs, [])
    | TooBig n \<Rightarrow> fst (frame_next buf (map Chunk cs)) = Err (FrameTooLarge n MAX_FRAME_BYTES)
    | Carved f rest \<Rightarrow> \<exists>buf' cs'. frame_next buf (map Chunk cs) = (Ok f, buf', map Chunk cs') \<and>
        buf' @ concat cs' = rest \<and> set cs' \<subseteq> set cs"
  using assms
proof (induction cs arbitrary: buf)
  case Nil
  then show ?case by (simp add: frame_next.simps [of buf] split: carve.split)
next
  case (Cons c cs)
  show ?case
  proof (cases "carve_buf buf")
    case Need
    then have "frame_next buf (map Chunk (c # cs)) = frame_next (buf @ c) (map Chunk cs)"
      using Cons.prems by (simp add: frame_next.simps [of buf])
    then show ?thesis
      using Cons.IH [of "buf @ c"] Cons.prems by (fastforce split: carve.splits)
  next
    case (TooBig n)
    then show ?thesis by (simp add: frame_next.simps [of buf] carve_append(2))
  next
    case (Carved f tail)
    then show ?thesis by (auto simp: frame_next.simps [of buf] carve_append(1) intro!: exI [of _ "c # cs"])
  qed
qed

lemma drain_split: "\<forall>c\<in>set cs. c \<noteq> [] \<Longrightarrow> drain buf (map Chunk cs) = split_frames (buf @ concat cs)"
proof (induction "buf @ concat cs" arbitrary: buf cs rule: split_frames.induct)
  case 1
  show ?case
  proof (cases "carve_buf (buf @ concat cs)")
    case Need
    then show ?thesis
      using frame_next_spec [OF 1(2), of buf] by (simp add: drain.simps [of buf] split_frames.simps [of "buf @ concat cs"])
  next
    case (TooBig n)
    then have "fst (frame_next buf (map Chunk cs)) = Err (FrameTooLarge n MAX_FRAME_BYTES)"
      using frame_next_spec [OF 1(2), of buf] by simp
    then show ?thesis
      using TooBig by (cases "frame_next buf (map Chunk cs)")
        (simp add: drain.simps [of buf] split_frames.simps [of "buf @ concat cs"])
  next
    case (Carved f rest)
    then obtain buf' cs' where n: "frame_next buf (map Chunk cs) = (Ok f, buf', map Chunk cs')"
        "buf' @ concat cs' = rest" "set cs' \<subseteq> set cs"
      using frame_next_spec [OF 1(2), of buf] by auto
    have "drain buf' (map Chunk cs') = split_frames (buf' @ concat cs')"
      using 1(1) [of f buf' cs'] Carved n(2,3) 1(2) by blast
    then show ?thesis
      using Carved n by (simp add: drain.simps [of buf] split_frames.simps [of "buf @ concat cs"])
  qed
qed

lemma split_encoded:
  assumes "\<forall>f\<in>set fs. length f \<le> MAX_FRAME_BYTES"
  shows "split_frames (concat (map (\<lambda>f. to_le_bytes (of_nat (length f)) @ f) fs) @ rest) =
    (fs @ fst (split_frames rest), snd (split_frames rest))"
  using assms
proof (induction fs)
  case (Cons f fs)
  then show ?case
    using carve_encoded [of f "concat (map (\<lambda>f. to_le_bytes (of_nat (length f)) @ f) fs) @ rest"]
    by (simp add: split_frames.simps [of "to_le_bytes _ @ _"])
qed simp

text \<open>Writing: a frame is appended completely exactly when the write succeeds.\<close>

lemma write_frame_Ok:
  assumes "write_frame io ser v wire = (Inr u, w)"
  obtains payload where "ser v = Inr payload" "length payload \<le> MAX_FRAME_BYTES"
    "w = wire @ to_le_bytes (of_nat (length payload)) @ payload"
  using assms by (auto simp: write_frame_def write_all_def split: sum.splits if_splits option.splits prod.splits)

fun write_frames :: "(nat \<Rightarrow> nat \<Rightarrow> (string \<times> nat) option) \<Rightarrow> ('v \<Rightarrow> string + bytes) \<Rightarrow> 'v list \<Rightarrow> bytes \<Rightarrow>
    (ipc_error + unit) \<times> bytes" where
  "write_frames io ser [] wire = (Ok (), wire)"
| "write_frames io ser (v # vs) wire = (case write_frame (io (length vs)) ser v wire of
       (Inl err, w) \<Rightarrow> (Err err, w)
     | (Inr _, w) \<Rightarrow> write_frames io ser vs w)"

lemma write_frames_Ok:
  "write_frames io ser vs wire = (Inr u, w) \<Longrightarrow> \<exists>fs. map ser vs = map Inr fs \<and>
     (\<forall>f\<in>set fs. length f \<le> MAX_FRAME_BYTES) \<and>
     w = wire @ concat (map (\<lambda>f. to_le_bytes (of_nat (length f)) @ f) fs)"
proof (induction vs arbitrary: wire)
  case (Cons v vs)
  obtain w1 where w1: "write_frame (io (length vs)) ser v wire = (Inr (), w1)" "write_frames io ser vs w1 = (Inr u, w)"
    using Cons.prems by (auto split: prod.splits sum.splits)
  obtain f where f: "ser v = Inr f" "length f \<le> MAX_FRAME_BYTES" "w1 = wire @ to_le_bytes (of_nat (length f)) @ f"
    using write_frame_Ok [OF w1(1)] by metis
  obtain fs where "map ser vs = map Inr fs" "\<forall>f\<in>set fs. length f \<le> MAX_FRAME_BYTES"
      "w = w1 @ concat (map (\<lambda>f. to_le_bytes (of_nat (length f)) @ f) fs)"
    using Cons.IH [OF w1(2)] by blast
  then show ?case using f by (intro exI [of _ "f # fs"]) simp
qed simp

text \<open>The contents of the buffer each time the reader looks at it.\<close>

fun chunk_len :: "chunk \<Rightarrow> nat" where
  "chunk_len (Chunk c) = length c"
| "chunk_len (Fault e) = 0"

function frame_bufs :: "bytes \<Rightarrow> reader \<Rightarrow> bytes list" where
  "frame_bufs buf r = buf # (case carve_buf buf of
       Need \<Rightarrow> (case r of Chunk c # r' \<Rightarrow> if c = [] then [] else frame_bufs (buf @ c) r' | _ \<Rightarrow> [])
     | _ \<Rightarrow> [])"
  by pat_completeness auto
termination by (relation "measure (\<lambda>(buf, r). length r)") simp_all

declare frame_bufs.simps [simp del]

section \<open>Properties\<close>

text \<open>C24. The incremental frame reader implements the division of the undivided byte stream into frames: however
  the bytes arrive, the frames it returns and the error it ends with are those of the whole stream.\<close>

theorem frame_reader_refines_stream:
  assumes "\<forall>c\<in>set cs. c \<noteq> []"
  shows "drain [] (map Chunk cs) = split_frames (concat cs)"
  using drain_split [OF assms, of "[]"] by simp

theorem frame_reader_refines_stream_witness:
  "drain [] (map Chunk [[2, 0, 0], [0, 7], [8, 1, 0, 0, 0, 9, 5]]) = ([[7, 8], [9]], IpcClosed)"
  using frame_reader_refines_stream [of "[[2, 0, 0], [0, 7], [8, 1, 0, 0, 0, 9, 5]]"]
  by (simp add: split_frames.simps from_le_bytes_def MAX_FRAME_BYTES_def)

text \<open>Values written as frames one after the other are read back in order and unchanged, however the bytes
  are divided on the way, also when several frames arrive in one read; the reader then ends with what
  follows them.  The serialiser is assumed to be inverted by the deserialiser.\<close>

lemma frame_stream_roundtrip:
  assumes "\<And>v j. ser v = Inr j \<Longrightarrow> de j = Inr v"
    and "write_frames io ser vs [] = (Ok (), wire)"
    and "\<forall>c\<in>set cs. c \<noteq> []" "concat cs = wire @ rest"
  shows "\<exists>fs. drain [] (map Chunk cs) = (fs @ fst (split_frames rest), snd (split_frames rest)) \<and> map de fs = map Inr vs"
proof -
  obtain fs where fs: "map ser vs = map Inr fs" "\<forall>f\<in>set fs. length f \<le> MAX_FRAME_BYTES"
      "wire = concat (map (\<lambda>f. to_le_bytes (of_nat (length f)) @ f) fs)"
    using write_frames_Ok [OF assms(2)] by auto
  have "map de fs = map Inr vs"
    using fs(1) assms(1) by (induction vs fs rule: list_induct2') auto
  then show ?thesis
    using drain_split [OF assms(3), of "[]"] split_encoded [OF fs(2), of rest] fs(3) assms(4) by auto
qed

text \<open>C39. The reader never holds more than one maximal frame beyond one read: with reads of at most k bytes its
  buffer stays within the length prefix, the frame limit and k, whatever lengths the peer declares.\<close>

theorem frame_buffer_bounded:
  assumes "list_all (\<lambda>c. chunk_len c \<le> k) r" "length buf \<le> LENGTH_PREFIX + MAX_FRAME_BYTES + k"
  shows "list_all (\<lambda>b. length b \<le> LENGTH_PREFIX + MAX_FRAME_BYTES + k) (frame_bufs buf r) \<and>
    length (fst (snd (frame_next buf r))) \<le> LENGTH_PREFIX + MAX_FRAME_BYTES + k"
  using assms
proof (induction buf r rule: frame_next.induct)
  case (1 buf r)
  show ?case
  proof (cases "carve_buf buf")
    case Need
    show ?thesis
    proof (cases r)
      case (Cons x r')
      then show ?thesis
      proof (cases x)
        case (Chunk c)
        have "length (buf @ c) \<le> LENGTH_PREFIX + MAX_FRAME_BYTES + k"
          using carve_Need_bound [OF Need] 1(2) Cons Chunk by simp
        then show ?thesis
          using 1 Need Cons Chunk by (simp add: frame_next.simps [of buf] frame_bufs.simps [of buf])
      qed (use 1 Need Cons in \<open>simp add: frame_next.simps [of buf] frame_bufs.simps [of buf]\<close>)
    qed (use 1 Need in \<open>simp add: frame_next.simps [of buf] frame_bufs.simps [of buf]\<close>)
  next
    case (TooBig n)
    then show ?thesis using 1 by (simp add: frame_next.simps [of buf] frame_bufs.simps [of buf])
  next
    case (Carved f tail)
    then show ?thesis
      using 1 carve_length [OF Carved] by (simp add: frame_next.simps [of buf] frame_bufs.simps [of buf])
  qed
qed

theorem frame_buffer_bounded_witness:
  "length (fst (snd (frame_next [] [Chunk [255, 255], Chunk [255, 255]]))) \<le> LENGTH_PREFIX + MAX_FRAME_BYTES + 2"
  using frame_buffer_bounded [of 2 "[Chunk [255, 255], Chunk [255, 255]]" "[]"] by simp

end
