(* ===== verification/Hf_Proto.thy ===== *)
theory Hf_Proto
  imports Hf_Codec Hf_Bus
begin

text \<open>
  The messages of the local control socket, \<^verbatim>\<open>ipc/src/proto.rs\<close>: requests, responses, the events the daemon
  pushes, their JSON form, and the translation of bus events.
\<close>

section \<open>Messages\<close>

datatype request =
    DaemonInfo
  | DeviceList
  | DevicePair string
  | DeviceUnpair string
  | ReqPairingAnswer string bool
  | PluginList string
  | PluginSetEnabled string string bool
  | ReqSendFile string string
  | NotificationList
  | NotificationDismiss string
  | ClipboardGet
  | ClipboardSet string
  | ReqPing
  | TransferList
  | TransferCancel string
  | RunCommandList string
  | RunCommand string string
  | SetVolume byte
  | GetVolume
  | ShareText string string
  | ShareUrl string string
  | RequestBattery string
  | SendSms string string string

datatype response = ROk json | RErr "32 word" string

datatype server_event =
    SHello u32 string u32
  | SDeviceFound string string
  | SDeviceLost string
  | SDeviceStateChanged string string
  | STransferProgress string u64 u64
  | STransferAdded string string string string u64
  | STransferFinished string
  | STransferFailed string string
  | SShareReceived string string
  | SPairingRequest string string
  | SNotificationReceived string string string string
  | SClipboardUpdated string
  | SLogRecord string string
  | SBatteryChanged string byte bool
  | STelephonyEvent string string "string option"
  | SVolumeChanged byte bool
  | SCommandResult string string bool string
  | SDaemonShutdown

definition ok_json :: "json \<Rightarrow> response" where
  "ok_json v = ROk v"

definition resp_err :: "32 word \<Rightarrow> string \<Rightarrow> response" where
  "resp_err code msg = RErr code msg"

definition as_json :: "response \<Rightarrow> json" where
  "as_json r = (case r of
       ROk v \<Rightarrow> v
     | RErr code msg \<Rightarrow> JObj [(''code'', JInt (sint code)), (''message'', JStr msg)])"

section \<open>JSON form\<close>

text \<open>
  Requests and events are written with a tag and a content key, the content left out for variants
  without fields; responses carry their tag beside their fields.
\<close>

definition tagged :: "string \<Rightarrow> string \<Rightarrow> string \<Rightarrow> (string \<times> json) list \<Rightarrow> json" where
  "tagged tag content variant fs =
     JObj ((tag, JStr variant) # (if fs = [] then [] else [(content, JObj fs)]))"

abbreviation "call \<equiv> tagged ''method'' ''params''"

fun json_of_request :: "request \<Rightarrow> json" where
  "json_of_request DaemonInfo = call ''daemon_info'' []"
| "json_of_request DeviceList = call ''device_list'' []"
| "json_of_request (DevicePair d) = call ''device_pair'' [(''device_id'', JStr d)]"
| "json_of_request (DeviceUnpair d) = call ''device_unpair'' [(''device_id'', JStr d)]"
| "json_of_request (ReqPairingAnswer d a) = call ''pairing_answer'' [(''device_id'', JStr d), (''accept'', JBool a)]"
| "json_of_request (PluginList d) = call ''plugin_list'' [(''device_id'', JStr d)]"
| "json_of_request (PluginSetEnabled d p e) =
     call ''plugin_set_enabled'' [(''device_id'', JStr d), (''plugin'', JStr p), (''enabled'', JBool e)]"
| "json_of_request (ReqSendFile d p) = call ''send_file'' [(''device_id'', JStr d), (''path'', JStr p)]"
| "json_of_request NotificationList = call ''notification_list'' []"
| "json_of_request (NotificationDismiss n) = call ''notification_dismiss'' [(''notification_id'', JStr n)]"
| "json_of_request ClipboardGet = call ''clipboard_get'' []"
| "json_of_request (ClipboardSet t) = call ''clipboard_set'' [(''text'', JStr t)]"
| "json_of_request ReqPing = call ''ping'' []"
| "json_of_request TransferList = call ''transfer_list'' []"
| "json_of_request (TransferCancel t) = call ''transfer_cancel'' [(''transfer_id'', JStr t)]"
| "json_of_request (RunCommandList d) = call ''run_command_list'' [(''device_id'', JStr d)]"
| "json_of_request (RunCommand d n) = call ''run_command'' [(''device_id'', JStr d), (''command_name'', JStr n)]"
| "json_of_request (SetVolume p) = call ''set_volume'' [(''percent'', JInt (uint p))]"
| "json_of_request GetVolume = call ''get_volume'' []"
| "json_of_request (ShareText d t) = call ''share_text'' [(''device_id'', JStr d), (''text'', JStr t)]"
| "json_of_request (ShareUrl d u) = call ''share_url'' [(''device_id'', JStr d), (''url'', JStr u)]"
| "json_of_request (RequestBattery d) = call ''request_battery'' [(''device_id'', JStr d)]"
| "json_of_request (SendSms d n t) = call ''send_sms'' [(''device_id'', JStr d), (''number'', JStr n), (''text'', JStr t)]"

fun json_of_response :: "response \<Rightarrow> json" where
  "json_of_response (ROk v) = JObj [(''status'', JStr ''ok''), (''result'', v)]"
| "json_of_response (RErr code msg) =
     JObj [(''status'', JStr ''err''), (''code'', JInt (sint code)), (''message'', JStr msg)]"

abbreviation "notice \<equiv> tagged ''event'' ''data''"

fun json_of_server_event :: "server_event \<Rightarrow> json" where
  "json_of_server_event (SHello v a p) =
     notice ''hello'' [(''version'', JInt (uint v)), (''app'', JStr a), (''pid'', JInt (uint p))]"
| "json_of_server_event (SDeviceFound i n) = notice ''device_found'' [(''id'', JStr i), (''name'', JStr n)]"
| "json_of_server_event (SDeviceLost i) = notice ''device_lost'' [(''id'', JStr i)]"
| "json_of_server_event (SDeviceStateChanged i s) = notice ''device_state_changed'' [(''id'', JStr i), (''state'', JStr s)]"
| "json_of_server_event (STransferProgress i d t) =
     notice ''transfer_progress'' [(''id'', JStr i), (''bytes_done'', JInt (uint d)), (''bytes_total'', JInt (uint t))]"
| "json_of_server_event (STransferAdded i d r f t) =
     notice ''transfer_added'' [(''id'', JStr i), (''device_id'', JStr d), (''direction'', JStr r), (''file_name'', JStr f),
       (''total'', JInt (uint t))]"
| "json_of_server_event (STransferFinished i) = notice ''transfer_finished'' [(''id'', JStr i)]"
| "json_of_server_event (STransferFailed i r) = notice ''transfer_failed'' [(''id'', JStr i), (''reason'', JStr r)]"
| "json_of_server_event (SShareReceived p d) = notice ''share_received'' [(''path'', JStr p), (''device_id'', JStr d)]"
| "json_of_server_event (SPairingRequest d n) = notice ''pairing_request'' [(''device_id'', JStr d), (''device_name'', JStr n)]"
| "json_of_server_event (SNotificationReceived i a t b) =
     notice ''notification_received'' [(''id'', JStr i), (''app'', JStr a), (''title'', JStr t), (''body'', JStr b)]"
| "json_of_server_event (SClipboardUpdated t) = notice ''clipboard_updated'' [(''text'', JStr t)]"
| "json_of_server_event (SLogRecord l m) = notice ''log_record'' [(''level'', JStr l), (''msg'', JStr m)]"
| "json_of_server_event (SBatteryChanged d l c) =
     notice ''battery_changed'' [(''device_id'', JStr d), (''level'', JInt (uint l)), (''charging'', JBool c)]"
| "json_of_server_event (STelephonyEvent d s n) =
     notice ''telephony_event'' [(''device_id'', JStr d), (''state'', JStr s),
       (''number'', case n of None \<Rightarrow> JNull | Some x \<Rightarrow> JStr x)]"
| "json_of_server_event (SVolumeChanged p m) = notice ''volume_changed'' [(''percent'', JInt (uint p)), (''muted'', JBool m)]"
| "json_of_server_event (SCommandResult d n s out) =
     notice ''command_result'' [(''device_id'', JStr d), (''name'', JStr n), (''success'', JBool s), (''output'', JStr out)]"
| "json_of_server_event SDaemonShutdown = notice ''daemon_shutdown'' []"

section \<open>Bus events\<close>

fun server_event_of :: "event \<Rightarrow> server_event" where
  "server_event_of (DeviceFound i n) = SDeviceFound i n"
| "server_event_of (DeviceLost i) = SDeviceLost i"
| "server_event_of (DeviceStateChanged i s) = SDeviceStateChanged i s"
| "server_event_of (PairingRequest i n) = SPairingRequest i n"
| "server_event_of (TransferProgress i d t) = STransferProgress i d t"
| "server_event_of (TransferAdded i d r f t) = STransferAdded i d r f t"
| "server_event_of (TransferFinished i) = STransferFinished i"
| "server_event_of (TransferFailed i r) = STransferFailed i r"
| "server_event_of (ShareReceived p d) = SShareReceived p d"
| "server_event_of (NotificationReceived i a t b) = SNotificationReceived i a t b"
| "server_event_of (ClipboardUpdated t) = SClipboardUpdated t"
| "server_event_of (LogRecord l m) = SLogRecord l m"
| "server_event_of DaemonShutdown = SDaemonShutdown"

section \<open>Facts\<close>

lemma jget_tagged [simp]:
  "jget (tagged t c v fs) t = Some (JStr v)"
  "k \<noteq> t \<Longrightarrow> k \<noteq> c \<Longrightarrow> jget (tagged t c v fs) k = None"
  by (simp_all add: tagged_def jget_def)

lemma tagged_eq: "t \<noteq> c \<Longrightarrow> tagged t c v fs = tagged t c v' fs' \<longleftrightarrow> v = v' \<and> fs = fs'"
  by (auto simp: tagged_def)

lemma uint_same: "uint (v :: 'a :: len word) = uint w \<longleftrightarrow> v = w"
  by (simp add: word_eq_iff_unsigned [where ?'a = int])

lemma sint_same: "sint (v :: 'a :: len word) = sint w \<longleftrightarrow> v = w"
  by (auto intro: signed_word_eqI)

lemma json_of_request_inj: "json_of_request a = json_of_request b \<Longrightarrow> a = b"
  by (cases a; cases b; simp add: tagged_eq uint_same)

lemma json_of_server_event_inj: "json_of_server_event a = json_of_server_event b \<Longrightarrow> a = b"
  by (cases a; cases b; simp add: tagged_eq uint_same split: option.splits)

lemma json_of_response_inj: "json_of_response a = json_of_response b \<Longrightarrow> a = b"
  by (cases a; cases b) (simp_all add: sint_same)

lemma event_key: "jget (json_of_server_event e) ''event'' \<noteq> None"
  by (cases e) simp_all

lemma no_event_key: "jget (json_of_response r) ''event'' = None"
  by (cases r) (simp_all add: jget_def)

lemma server_event_of_inj: "server_event_of a = server_event_of b \<Longrightarrow> a = b"
  by (cases a; cases b) simp_all

end
