(* ===== verification/Hf_Ipc.thy ===== *)
theory Hf_Ipc
  imports Hf_Proto Hf_Transfer
begin

text \<open>
  Both ends of the local control socket: a session of \<^verbatim>\<open>ipc/src/server.rs\<close> (owner check, greeting, request
  loop, event fanout), the client of \<^verbatim>\<open>ipc/src/client.rs\<close> (queue of waiting requests, demultiplexing
  reader, time-outs), the check of \<^verbatim>\<open>ipc/src/peercred.rs\<close> and the socket path of \<^verbatim>\<open>ipc/src/lib.rs\<close>.
  JSON text and its deserialisers are parameters.
\<close>

section \<open>Peer credentials\<close>

text \<open>\<^verbatim>\<open>str::lines\<close>, \<^verbatim>\<open>split_whitespace\<close> and \<^verbatim>\<open>parse::<u32>\<close>.\<close>

fun split_lines :: "string \<Rightarrow> string \<Rightarrow> string list" where
  "split_lines acc [] = (if acc = [] then [] else [rev acc])"
| "split_lines acc (c # s) = (if c = CHR 0x0A
     then rev (case acc of [] \<Rightarrow> [] | a # as \<Rightarrow> if a = CHR 0x0D then as else acc) # split_lines [] s
     else split_lines (c # acc) s)"

fun words_from :: "string \<Rightarrow> string \<Rightarrow> string list" where
  "words_from acc [] = (if acc = [] then [] else [rev acc])"
| "words_from acc (c # s) = (if is_whitespace c
     then (if acc = [] then words_from [] s else rev acc # words_from [] s)
     else words_from (c # acc) s)"

definition split_whitespace :: "string \<Rightarrow> string list" where
  "split_whitespace s = words_from [] s"

definition parse_u32 :: "string \<Rightarrow> u32 option" where
  "parse_u32 s = map_option of_nat (parse_uint (2 ^ 32) s)"

fun uid_of_lines :: "string list \<Rightarrow> u32 option" where
  "uid_of_lines [] = None"
| "uid_of_lines (l # ls) = (case strip_prefix ''Uid:'' l of
       None \<Rightarrow> uid_of_lines ls
     | Some rest \<Rightarrow> (case split_whitespace rest of
           _ # euid # _ \<Rightarrow> parse_u32 euid
         | _ \<Rightarrow> None))"

text \<open>The argument is the text of \<^verbatim>\<open>/proc/self/status\<close>, if it can be read.\<close>

definition current_uid :: "string option \<Rightarrow> u32 option" where
  "current_uid status = Option.bind status (\<lambda>s. uid_of_lines (split_lines [] s))"

definition peer_is_owner :: "string option \<Rightarrow> string + u32 \<Rightarrow> bool" where
  "peer_is_owner status cred = (case cred of
       Inl _ \<Rightarrow> False
     | Inr peer_uid \<Rightarrow> (case current_uid status of None \<Rightarrow> False | Some euid \<Rightarrow> peer_uid = euid))"

definition APP_NAME :: string where "APP_NAME = ''handfast''"

definition default_socket_path :: "string option \<Rightarrow> string option \<Rightarrow> path" where
  "default_socket_path xdg_runtime_dir status = (case xdg_runtime_dir of
       Some (c # dir) \<Rightarrow> join (join (c # dir) APP_NAME) (APP_NAME @ ''.sock'')
     | _ \<Rightarrow> (case current_uid status of
           Some uid \<Rightarrow> join ''/tmp'' (APP_NAME @ ''-'' @ show_nat (unat uid) @ ''.sock'')
         | None \<Rightarrow> join ''/tmp'' (APP_NAME @ ''.sock'')))"

section \<open>Server sessions\<close>

datatype outbound = OutResponse response | OutEvent server_event

fun json_of_outbound :: "outbound \<Rightarrow> json" where
  "json_of_outbound (OutResponse r) = json_of_response r"
| "json_of_outbound (OutEvent e) = json_of_server_event e"

text \<open>What the broadcast channel hands to the relay, and the relay itself: a client whose queue is gone is dropped.\<close>

datatype recv = Received server_event | Lagged nat | ChanClosed

definition deliver_event :: "(nat \<Rightarrow> bool) \<Rightarrow> server_event \<Rightarrow> nat list \<times> (nat \<Rightarrow> outbound list) \<Rightarrow>
    nat list \<times> (nat \<Rightarrow> outbound list)" where
  "deliver_event alive ev st = (case st of (sinks, q) \<Rightarrow>
     (filter alive sinks, \<lambda>i. if i \<in> set sinks \<and> alive i then q i @ [OutEvent ev] else q i))"

fun dispatch_events :: "(nat \<Rightarrow> bool) \<Rightarrow> recv list \<Rightarrow> nat list \<times> (nat \<Rightarrow> outbound list) \<Rightarrow>
    nat list \<times> (nat \<Rightarrow> outbound list)" where
  "dispatch_events alive [] st = st"
| "dispatch_events alive (Received ev # rs) st = dispatch_events alive rs (deliver_event alive ev st)"
| "dispatch_events alive (Lagged n # rs) st = dispatch_events alive rs st"
| "dispatch_events alive (ChanClosed # rs) st = st"

text \<open>
  One session: its outbound queue, whether broadcasts reach it, whether its writer task still takes messages
  (it stops at the first frame it cannot write), and its result once it has ended.  The request handler works
  on the state of the daemon.
\<close>

record session =
  sess_queue :: "outbound list"
  registered :: bool
  writer_up :: bool
  sess_result :: "(ipc_error + unit) option"

datatype sess_input =
    SessPayload bytes
  | SessReadError ipc_error
  | SessBroadcast server_event
  | SessWriterStops

definition hello :: "u32 \<Rightarrow> server_event" where
  "hello pid = SHello IPC_VERSION APP_NAME pid"

definition session_open :: "bool \<Rightarrow> session" where
  "session_open owner = \<lparr>sess_queue = [], registered = owner, writer_up = owner,
     sess_result = (if owner then None else Some (Ok ()))\<rparr>"

text \<open>What the other tasks do to a session: the relay delivers or drops its queue, the writer stops.\<close>

fun session_background :: "sess_input \<Rightarrow> session \<Rightarrow> session" where
  "session_background (SessBroadcast ev) s =
     (if \<not> registered s then s
      else if writer_up s then s\<lparr>sess_queue := sess_queue s @ [OutEvent ev]\<rparr>
      else s\<lparr>registered := False\<rparr>)"
| "session_background SessWriterStops s = s\<lparr>writer_up := False\<rparr>"
| "session_background _ s = s"

text \<open>A session whose writer is gone before the greeting returns at once and stays registered.\<close>

definition session_greet :: "u32 \<Rightarrow> session \<Rightarrow> session" where
  "session_greet pid s =
     (if sess_result s \<noteq> None then s
      else if writer_up s then s\<lparr>sess_queue := sess_queue s @ [OutEvent (hello pid)]\<rparr>
      else s\<lparr>sess_result := Some (Ok ())\<rparr>)"

text \<open>Registration comes before the greeting, so the other tasks may get in between.\<close>

definition session_start :: "bool \<Rightarrow> sess_input list \<Rightarrow> u32 \<Rightarrow> session" where
  "session_start owner early pid = session_greet pid (fold session_background early (session_open owner))"

definition end_session :: "ipc_error + unit \<Rightarrow> session \<Rightarrow> session" where
  "end_session r s = s\<lparr>registered := False, sess_result := Some r\<rparr>"

fun session_step :: "(bytes \<Rightarrow> string + request) \<Rightarrow> (request \<Rightarrow> 's \<Rightarrow> response \<times> 's) \<Rightarrow> sess_input \<Rightarrow>
    's \<times> session \<Rightarrow> 's \<times> session" where
  "session_step de handler (SessPayload p) (w, s) =
     (if sess_result s \<noteq> None then (w, s)
      else (case de p of
          Inl err \<Rightarrow> (w, end_session (Err (IpcJson err)) s)
        | Inr req \<Rightarrow> (let (resp, w') = handler req w in
            (w', if writer_up s then s\<lparr>sess_queue := sess_queue s @ [OutResponse resp]\<rparr>
                 else end_session (Err IpcClosed) s))))"
| "session_step de handler (SessReadError err) (w, s) =
     (if sess_result s \<noteq> None then (w, s)
      else (w, end_session (if err = IpcClosed then Ok () else Err err) s))"
| "session_step de handler i (w, s) = (w, session_background i s)"

definition session_run :: "(bytes \<Rightarrow> string + request) \<Rightarrow> (request \<Rightarrow> 's \<Rightarrow> response \<times> 's) \<Rightarrow> sess_input list \<Rightarrow>
    's \<times> session \<Rightarrow> 's \<times> session" where
  "session_run de handler = fold (session_step de handler)"

section \<open>The client\<close>

text \<open>
  A request is identified by its reply channel.  \<^verbatim>\<open>delivered\<close> is what the waiting channels were sent, \<^verbatim>\<open>returned\<close>
  what callers got without waiting for their channel.
\<close>

record client =
  pending :: "nat list"
  dead :: bool
  delivered :: "(nat \<times> (ipc_error + response)) list"
  returned :: "(nat \<times> (ipc_error + response)) list"
  events_out :: "server_event list"

definition client_new :: client where
  "client_new = \<lparr>pending = [], dead = False, delivered = [], returned = [], events_out = []\<rparr>"

definition fail_all_pending :: "client \<Rightarrow> client" where
  "fail_all_pending c = c\<lparr>dead := True, pending := [],
     delivered := delivered c @ map (\<lambda>rid. (rid, Err IpcClosed)) (pending c)\<rparr>"

definition give_back :: "nat \<Rightarrow> ipc_error \<Rightarrow> client \<Rightarrow> client" where
  "give_back rid err c = c\<lparr>returned := returned c @ [(rid, Err err)]\<rparr>"

text \<open>
  A request up to where it waits.  The first look at the flag happens before the write lock is taken, so
  the value seen may be out of date by the time of the write.
\<close>

definition client_request :: "bool \<Rightarrow> (nat \<Rightarrow> (string \<times> nat) option) \<Rightarrow> (request \<Rightarrow> string + bytes) \<Rightarrow> nat \<Rightarrow> request \<Rightarrow>
    client \<times> bytes \<Rightarrow> client \<times> bytes" where
  "client_request seen_dead io ser rid req st = (case st of (c, wire) \<Rightarrow>
     if seen_dead then (give_back rid IpcClosed c, wire)
     else let c1 = c\<lparr>pending := pending c @ [rid]\<rparr> in
       (case write_frame io ser req wire of
          (Inl err, w) \<Rightarrow> (give_back rid err (fail_all_pending c1), w)
        | (Inr _, w) \<Rightarrow> if dead c1 then (give_back rid IpcClosed c1, w) else (c1, w)))"

definition client_elapsed :: "nat \<Rightarrow> client \<Rightarrow> client" where
  "client_elapsed rid c = give_back rid (IpcOther ''ipc request timed out after 10s'') (fail_all_pending c)"

text \<open>One frame at the reader: whether the loop goes on, and the state.\<close>

definition reader_frame :: "(bytes \<Rightarrow> string + server_event) \<Rightarrow> (bytes \<Rightarrow> string + response) \<Rightarrow> bytes \<Rightarrow> client \<Rightarrow>
    bool \<times> client" where
  "reader_frame de_ev de_resp payload c = (case de_ev payload of
       Inr e \<Rightarrow> (True, c\<lparr>events_out := events_out c @ [e]\<rparr>)
     | Inl _ \<Rightarrow> (case de_resp payload of
           Inl _ \<Rightarrow> (False, c)
         | Inr r \<Rightarrow> (case pending c of
               [] \<Rightarrow> (False, c)
             | rid # rest \<Rightarrow> (True, c\<lparr>pending := rest, delivered := delivered c @ [(rid, Ok r)]\<rparr>))))"

fun client_reader :: "(bytes \<Rightarrow> string + server_event) \<Rightarrow> (bytes \<Rightarrow> string + response) \<Rightarrow> bytes list \<Rightarrow> client \<Rightarrow>
    client" where
  "client_reader de_ev de_resp [] c = fail_all_pending c"
| "client_reader de_ev de_resp (p # ps) c = (let (go_on, c') = reader_frame de_ev de_resp p c in
     if go_on then client_reader de_ev de_resp ps c' else fail_all_pending c')"

text \<open>
  Callers, the reader task and the clock take turns.
\<close>

record client_sys =
  cl :: client
  out_wire :: bytes
  reading :: bool

datatype client_step =
    CRequest bool "nat \<Rightarrow> (string \<times> nat) option" nat request
  | CFrame bytes
  | CReadEnd
  | CElapsed nat

fun client_step_fun :: "(request \<Rightarrow> string + bytes) \<Rightarrow> (bytes \<Rightarrow> string + server_event) \<Rightarrow> (bytes \<Rightarrow> string + response) \<Rightarrow>
    client_step \<Rightarrow> client_sys \<Rightarrow> client_sys" where
  "client_step_fun ser de_ev de_resp (CRequest seen_dead io rid req) s =
     (let (c, w) = client_request seen_dead io ser rid req (cl s, out_wire s) in s\<lparr>cl := c, out_wire := w\<rparr>)"
| "client_step_fun ser de_ev de_resp (CFrame p) s =
     (if \<not> reading s then s
      else let (go_on, c) = reader_frame de_ev de_resp p (cl s) in
        if go_on then s\<lparr>cl := c\<rparr> else s\<lparr>cl := fail_all_pending c, reading := False\<rparr>)"
| "client_step_fun ser de_ev de_resp CReadEnd s =
     (if reading s then s\<lparr>cl := fail_all_pending (cl s), reading := False\<rparr> else s)"
| "client_step_fun ser de_ev de_resp (CElapsed rid) s = s\<lparr>cl := client_elapsed rid (cl s)\<rparr>"

definition client_start :: client_sys where
  "client_start = \<lparr>cl = client_new, out_wire = [], reading = True\<rparr>"

section \<open>Specification\<close>

text \<open>The requests put on the queue and the responses received, in order.\<close>

fun pushed :: "client_step list \<Rightarrow> nat list" where
  "pushed [] = []"
| "pushed (CRequest seen_dead io rid req # xs) = (if seen_dead then [] else [rid]) @ pushed xs"
| "pushed (_ # xs) = pushed xs"

fun requested :: "client_step list \<Rightarrow> nat set" where
  "requested [] = {}"
| "requested (CRequest seen_dead io rid req # xs) = insert rid (requested xs)"
| "requested (_ # xs) = requested xs"

fun received_resps :: "(bytes \<Rightarrow> string + server_event) \<Rightarrow> (bytes \<Rightarrow> string + response) \<Rightarrow> client_step list \<Rightarrow> response list" where
  "received_resps de_ev de_resp [] = []"
| "received_resps de_ev de_resp (CFrame p # xs) =
     (case (de_ev p, de_resp p) of (Inl _, Inr r) \<Rightarrow> [r] | _ \<Rightarrow> []) @ received_resps de_ev de_resp xs"
| "received_resps de_ev de_resp (_ # xs) = received_resps de_ev de_resp xs"

definition hang_free :: "client_sys \<Rightarrow> bool" where
  "hang_free s \<longleftrightarrow> (dead (cl s) \<longrightarrow> set (pending (cl s)) \<subseteq> fst ` set (returned (cl s))) \<and> (\<not> reading s \<longrightarrow> dead (cl s))"

section \<open>Facts\<close>

lemma pushed_append: "pushed (xs @ ys) = pushed xs @ pushed ys"
  by (induction xs rule: pushed.induct) simp_all

lemma requested_append: "requested (xs @ ys) = requested xs \<union> requested ys"
  by (induction xs rule: requested.induct) auto

lemma received_append:
  "received_resps de_ev de_resp (xs @ ys) = received_resps de_ev de_resp xs @ received_resps de_ev de_resp ys"
  by (induction xs rule: received_resps.induct) simp_all

lemma fail_all_simps [simp]:
  "dead (fail_all_pending c)" "pending (fail_all_pending c) = []" "returned (fail_all_pending c) = returned c"
  "events_out (fail_all_pending c) = events_out c"
  "map fst (delivered (fail_all_pending c)) = map fst (delivered c) @ pending c"
  by (simp_all add: fail_all_pending_def comp_def)

lemma give_back_simps [simp]:
  "dead (give_back rid e c) = dead c" "pending (give_back rid e c) = pending c"
  "delivered (give_back rid e c) = delivered c" "returned (give_back rid e c) = returned c @ [(rid, Err e)]"
  by (simp_all add: give_back_def)

text \<open>Requests never overtake each other in the queue, and none disappears from it unanswered.\<close>

lemma step_ids:
  "map fst (delivered (cl (client_step_fun ser de_ev de_resp x s))) @ pending (cl (client_step_fun ser de_ev de_resp x s)) =
   map fst (delivered (cl s)) @ pending (cl s) @ pushed [x]"
  by (cases x) (auto simp: client_request_def client_elapsed_def reader_frame_def Let_def
      split: prod.splits sum.splits list.splits)

lemma step_dead: "dead (cl s) \<Longrightarrow> dead (cl (client_step_fun ser de_ev de_resp x s))"
  by (cases x) (auto simp: client_request_def client_elapsed_def reader_frame_def Let_def
      split: prod.splits sum.splits list.splits)

lemma step_responses:
  assumes "\<not> dead (cl (client_step_fun ser de_ev de_resp x s))" "reading s"
  shows "map snd (delivered (cl (client_step_fun ser de_ev de_resp x s))) =
      map snd (delivered (cl s)) @ map Ok (received_resps de_ev de_resp [x]) \<and>
    reading (client_step_fun ser de_ev de_resp x s)"
  using assms by (cases x) (auto simp: client_request_def client_elapsed_def reader_frame_def Let_def
      split: prod.splits sum.splits list.splits if_splits)

lemma step_hang_free: "hang_free s \<Longrightarrow> hang_free (client_step_fun ser de_ev de_resp x s)"
  by (cases x) (auto simp: hang_free_def client_request_def client_elapsed_def reader_frame_def Let_def
      split: prod.splits sum.splits list.splits)

interpretation client: guarded_system "client_step_fun ser de_ev de_resp" "\<lambda>_ _. True" hang_free
  by unfold_locales (rule step_hang_free)

lemma run_ids:
  "map fst (delivered (cl (fold (client_step_fun ser de_ev de_resp) xs s))) @
     pending (cl (fold (client_step_fun ser de_ev de_resp) xs s)) =
   map fst (delivered (cl s)) @ pending (cl s) @ pushed xs"
proof (induction xs arbitrary: s)
  case (Cons x xs)
  have "pushed (x # xs) = pushed [x] @ pushed xs" using pushed_append [of "[x]" xs] by simp
  then show ?case using Cons [of "client_step_fun ser de_ev de_resp x s"] step_ids [of ser de_ev de_resp x s] by simp
qed simp

lemma run_dead: "dead (cl s) \<Longrightarrow> dead (cl (fold (client_step_fun ser de_ev de_resp) xs s))"
  by (induction xs arbitrary: s) (simp_all add: step_dead)

lemma run_responses:
  assumes "\<not> dead (cl (fold (client_step_fun ser de_ev de_resp) xs s))" "reading s"
  shows "map snd (delivered (cl (fold (client_step_fun ser de_ev de_resp) xs s))) =
    map snd (delivered (cl s)) @ map Ok (received_resps de_ev de_resp xs)"
  using assms
proof (induction xs arbitrary: s)
  case (Cons x xs)
  let ?s = "client_step_fun ser de_ev de_resp x s"
  have "\<not> dead (cl ?s)" using Cons.prems(1) run_dead [of ?s ser de_ev de_resp xs] by auto
  then have s: "map snd (delivered (cl ?s)) = map snd (delivered (cl s)) @ map Ok (received_resps de_ev de_resp [x])"
      "reading ?s"
    using step_responses [of ser de_ev de_resp x s] Cons.prems(2) by blast+
  then show ?case
    using Cons.IH [of ?s] Cons.prems(1) received_append [of de_ev de_resp "[x]" xs] by simp
qed simp

lemma returned_mono: "set (returned (cl s)) \<subseteq> set (returned (cl (client_step_fun ser de_ev de_resp x s)))"
  by (cases x) (auto simp: client_request_def client_elapsed_def reader_frame_def Let_def
      split: prod.splits sum.splits list.splits)

lemma run_returned_mono:
  "set (returned (cl s)) \<subseteq> set (returned (cl (fold (client_step_fun ser de_ev de_resp) xs s)))"
proof (induction xs arbitrary: s)
  case (Cons x xs)
  then show ?case
    using returned_mono [of s ser de_ev de_resp x] by simp (meson subset_trans)
qed simp

lemma run_requested:
  "requested xs \<subseteq> set (pushed xs) \<union> fst ` set (returned (cl (fold (client_step_fun ser de_ev de_resp) xs s)))"
proof (induction xs arbitrary: s)
  case (Cons x xs)
  let ?s = "client_step_fun ser de_ev de_resp x s"
  have "requested [x] \<subseteq> set (pushed [x]) \<union> fst ` set (returned (cl ?s))"
    by (cases x) (auto simp: client_request_def)
  moreover have "fst ` set (returned (cl ?s)) \<subseteq> fst ` set (returned (cl (fold (client_step_fun ser de_ev de_resp) xs ?s)))"
    by (intro image_mono run_returned_mono)
  moreover have "requested (x # xs) = requested [x] \<union> requested xs" "set (pushed (x # xs)) = set (pushed [x]) \<union> set (pushed xs)"
    using requested_append [of "[x]" xs] pushed_append [of "[x]" xs] by (metis append_Cons append_Nil set_append)+
  ultimately show ?case using Cons [of ?s] by (simp only: fold_Cons comp_apply) blast
qed simp

lemma run_read_end:
  assumes "CReadEnd \<in> set xs" "hang_free s"
  shows "dead (cl (fold (client_step_fun ser de_ev de_resp) xs s))"
  using assms
proof (induction xs arbitrary: s)
  case (Cons x xs)
  let ?s = "client_step_fun ser de_ev de_resp x s"
  show ?case
  proof (cases "x = CReadEnd")
    case True
    then have "dead (cl ?s)" using Cons.prems(2) by (simp add: hang_free_def)
    then show ?thesis using run_dead [of ?s] by simp
  next
    case False
    then show ?thesis using Cons.IH [of ?s] Cons.prems step_hang_free [of s] by simp
  qed
qed simp

lemma client_start_hang_free: "hang_free client_start"
  by (simp add: hang_free_def client_start_def client_new_def)

section \<open>Properties\<close>

text \<open>Whatever the interleaving of callers and arriving frames, as long as the connection lives the k-th
  response that arrives answers the k-th request that was queued, nothing else is delivered, and the
  requests not yet answered wait in their order.\<close>

lemma client_answers_in_order:
  assumes "s = fold (client_step_fun ser de_ev de_resp) xs client_start" "\<not> dead (cl s)"
  shows "delivered (cl s) = zip (pushed xs) (map Ok (received_resps de_ev de_resp xs)) \<and>
    pending (cl s) = drop (length (received_resps de_ev de_resp xs)) (pushed xs)"
proof -
  let ?D = "delivered (cl s)" and ?R = "received_resps de_ev de_resp xs"
  have ids: "map fst ?D @ pending (cl s) = pushed xs"
    using run_ids [of ser de_ev de_resp xs client_start] assms(1) by (simp add: client_start_def client_new_def)
  have "map snd ?D = map Ok ?R"
    using run_responses [of ser de_ev de_resp xs client_start] assms by (simp add: client_start_def client_new_def)
  then have snds: "map snd ?D = map Ok ?R" "length ?D = length ?R" by (auto dest: arg_cong [where f = length])
  have "zip (pushed xs) (map Ok ?R) = zip (map fst ?D) (map snd ?D)"
    using snds by (simp add: ids [symmetric] zip_append1)
  moreover have "pending (cl s) = drop (length ?R) (pushed xs)"
    using snds(2) by (simp add: ids [symmetric])
  ultimately show ?thesis by (simp add: zip_map_fst_snd)
qed

text \<open>C26. No caller waits forever on a lost connection: once the reader has seen its end, every request ever
  made, before or after, has been sent a result or has returned one.\<close>

theorem client_never_hangs:
  assumes "CReadEnd \<in> set xs" "s = fold (client_step_fun ser de_ev de_resp) xs client_start"
  shows "requested xs \<subseteq> fst ` set (delivered (cl s)) \<union> fst ` set (returned (cl s))"
proof -
  have "hang_free s"
    using client.run_inv [OF client_start_hang_free guarded_True] assms(2) by simp
  moreover have "dead (cl s)" using run_read_end [OF assms(1) client_start_hang_free] assms(2) by simp
  ultimately have "set (pending (cl s)) \<subseteq> fst ` set (returned (cl s))" by (simp add: hang_free_def)
  moreover have "set (pushed xs) = fst ` set (delivered (cl s)) \<union> set (pending (cl s))"
    using arg_cong [OF run_ids [of ser de_ev de_resp xs client_start], of set] assms(2)
    by (simp add: client_start_def client_new_def)
  ultimately show ?thesis using run_requested [of xs ser de_ev de_resp client_start] assms(2) by blast
qed

theorem client_never_hangs_witness:
  "requested [CRequest False (\<lambda>_. None) 7 ReqPing, CReadEnd, CRequest True (\<lambda>_. None) 8 ReqPing] \<subseteq>
   fst ` set (delivered (cl (fold (client_step_fun (\<lambda>_. Inr [1]) (\<lambda>_. Inl []) (\<lambda>_. Inl []))
      [CRequest False (\<lambda>_. None) 7 ReqPing, CReadEnd, CRequest True (\<lambda>_. None) 8 ReqPing] client_start))) \<union>
   fst ` set (returned (cl (fold (client_step_fun (\<lambda>_. Inr [1]) (\<lambda>_. Inl []) (\<lambda>_. Inl []))
      [CRequest False (\<lambda>_. None) 7 ReqPing, CReadEnd, CRequest True (\<lambda>_. None) 8 ReqPing] client_start)))"
  by (rule client_never_hangs [OF _ refl]) simp

section \<open>Both ends together\<close>

fun replies :: "outbound list \<Rightarrow> response list" where
  "replies [] = []"
| "replies (OutResponse r # os) = r # replies os"
| "replies (OutEvent e # os) = replies os"

fun notices :: "outbound list \<Rightarrow> server_event list" where
  "notices [] = []"
| "notices (OutResponse r # os) = notices os"
| "notices (OutEvent e # os) = e # notices os"

fun serve_all :: "(request \<Rightarrow> 's \<Rightarrow> response \<times> 's) \<Rightarrow> request list \<Rightarrow> 's \<Rightarrow> response list \<times> 's" where
  "serve_all handler [] w = ([], w)"
| "serve_all handler (q # qs) w = (let (r, w1) = handler q w; (rs, w2) = serve_all handler qs w1 in (r # rs, w2))"

text \<open>The requests and broadcasts a session sees; \<^verbatim>\<open>None\<close> when an input is not one of the two.\<close>

fun session_requests :: "(bytes \<Rightarrow> string + request) \<Rightarrow> sess_input list \<Rightarrow> request list option" where
  "session_requests de [] = Some []"
| "session_requests de (SessPayload p # is) = (case de p of
       Inl _ \<Rightarrow> None | Inr q \<Rightarrow> map_option ((#) q) (session_requests de is))"
| "session_requests de (SessBroadcast e # is) = session_requests de is"
| "session_requests de (SessReadError e # is) = None"
| "session_requests de (SessWriterStops # is) = None"

fun session_broadcasts :: "sess_input list \<Rightarrow> server_event list" where
  "session_broadcasts [] = []"
| "session_broadcasts (SessBroadcast e # is) = e # session_broadcasts is"
| "session_broadcasts (_ # is) = session_broadcasts is"

lemma replies_append [simp]: "replies (xs @ ys) = replies xs @ replies ys"
  by (induction xs rule: replies.induct) simp_all

lemma notices_append [simp]: "notices (xs @ ys) = notices xs @ notices ys"
  by (induction xs rule: notices.induct) simp_all

lemma length_serve_all [simp]: "length (fst (serve_all handler qs w)) = length qs"
  by (induction qs arbitrary: w) (simp_all add: case_prod_beta)

text \<open>A session answers every request once, in the order they came, and passes every broadcast on.\<close>

lemma session_run_effect:
  assumes "session_requests de is = Some qs" "registered s" "writer_up s" "sess_result s = None"
    and "session_run de handler is (w, s) = (w', s')"
  shows "replies (sess_queue s') = replies (sess_queue s) @ fst (serve_all handler qs w) \<and>
    notices (sess_queue s') = notices (sess_queue s) @ session_broadcasts is \<and> w' = snd (serve_all handler qs w)"
  using assms
proof (induction "is" arbitrary: qs w s)
  case (Cons i "is")
  show ?case
  proof (cases i)
    case (SessPayload p)
    then obtain q qs' where q: "de p = Inr q" "session_requests de is = Some qs'" "qs = q # qs'"
      using Cons.prems(1) by (auto split: sum.splits)
    obtain r w1 where h: "handler q w = (r, w1)" by fastforce
    have "session_run de handler is (w1, s\<lparr>sess_queue := sess_queue s @ [OutResponse r]\<rparr>) = (w', s')"
      using Cons.prems SessPayload q h by (simp add: session_run_def)
    then show ?thesis
      using Cons.IH [OF q(2), of "s\<lparr>sess_queue := sess_queue s @ [OutResponse r]\<rparr>" w1] Cons.prems q h SessPayload
      by (simp add: case_prod_beta)
  next
    case (SessBroadcast e)
    have "session_run de handler is (w, s\<lparr>sess_queue := sess_queue s @ [OutEvent e]\<rparr>) = (w', s')"
      using Cons.prems SessBroadcast by (simp add: session_run_def)
    then show ?thesis
      using Cons.IH [of qs "s\<lparr>sess_queue := sess_queue s @ [OutEvent e]\<rparr>" w] Cons.prems SessBroadcast by simp
  qed (use Cons.prems in auto)
qed (simp add: session_run_def)

text \<open>What is broadcast between registration and greeting is queued ahead of the greeting.\<close>

lemma early_broadcasts:
  assumes "registered s" "writer_up s"
  shows "fold session_background (map SessBroadcast es) s = s\<lparr>sess_queue := sess_queue s @ map OutEvent es\<rparr>"
  using assms by (induction es arbitrary: s) simp_all

lemma session_start_queue:
  "session_start True (map SessBroadcast es) pid =
   \<lparr>sess_queue = map OutEvent es @ [OutEvent (hello pid)], registered = True, writer_up = True, sess_result = None\<rparr>"
  by (simp add: session_start_def session_open_def session_greet_def early_broadcasts)

lemma replies_map_OutEvent [simp]: "replies (map OutEvent es) = []"
  by (induction es) simp_all

lemma notices_map_OutEvent [simp]: "notices (map OutEvent es) = es"
  by (induction es) simp_all

text \<open>The client takes a stream of frames apart again.\<close>

definition decodes :: "(bytes \<Rightarrow> string + server_event) \<Rightarrow> (bytes \<Rightarrow> string + response) \<Rightarrow> (json \<Rightarrow> bytes) \<Rightarrow> outbound \<Rightarrow> bool" where
  "decodes de_ev de_resp txt out = (case out of
       OutEvent e \<Rightarrow> de_ev (txt (json_of_server_event e)) = Inr e
     | OutResponse r \<Rightarrow> de_resp (txt (json_of_response r)) = Inr r)"

lemma client_reader_effect:
  assumes "\<forall>j. jget j ''event'' = None \<longrightarrow> isl (de_ev (txt j))" "\<forall>out\<in>set outs. decodes de_ev de_resp txt out"
    and "length (replies outs) = length (pending c)"
  shows "client_reader de_ev de_resp (map (\<lambda>out. txt (json_of_outbound out)) outs) c =
    c\<lparr>pending := [], dead := True, delivered := delivered c @ zip (pending c) (map Ok (replies outs)),
      events_out := events_out c @ notices outs\<rparr>"
  using assms(2,3)
proof (induction outs arbitrary: c)
  case Nil
  then show ?case by (simp add: fail_all_pending_def)
next
  case (Cons out outs)
  show ?case
  proof (cases out)
    case (OutEvent e)
    then have "reader_frame de_ev de_resp (txt (json_of_outbound out)) c = (True, c\<lparr>events_out := events_out c @ [e]\<rparr>)"
      using Cons.prems(1) by (simp add: reader_frame_def decodes_def)
    then show ?thesis using OutEvent Cons.IH [of "c\<lparr>events_out := events_out c @ [e]\<rparr>"] Cons.prems by simp
  next
    case (OutResponse r)
    obtain rid rest where p: "pending c = rid # rest"
      using Cons.prems(2) OutResponse by (cases "pending c") auto
    let ?c = "c\<lparr>pending := rest, delivered := delivered c @ [(rid, Ok r)]\<rparr>"
    have "isl (de_ev (txt (json_of_response r)))" using assms(1) no_event_key by blast
    then obtain err where "de_ev (txt (json_of_response r)) = Inl err" by (auto simp: isl_def)
    then have "reader_frame de_ev de_resp (txt (json_of_outbound out)) c = (True, ?c)"
      using Cons.prems(1) OutResponse p by (simp add: reader_frame_def decodes_def)
    then show ?thesis using OutResponse p Cons.IH [of ?c] Cons.prems by simp
  qed
qed

text \<open>C22. From one end of the control socket to the other: the requests of a client are handled one after the
  other in the order they were written, each caller gets the response to its own request, and the client
  sees every broadcast in order and the greeting where it was queued, however requests and broadcasts interleave and
  however the bytes are divided on the way.  JSON text is assumed to be read back to the message it was
  written from, and an object without the event tag not to be read as an event.\<close>

theorem control_socket_end_to_end:
  assumes "\<forall>j. jget j ''event'' = None \<longrightarrow> isl (de_ev (txt j))" "\<forall>out\<in>set (sess_queue s'). decodes de_ev de_resp txt out"
    and "session_requests de_req is = Some qs" "length rids = length qs"
    and "session_run de_req handler is (w, session_start True (map SessBroadcast early) pid) = (w', s')"
    and "write_frames io (\<lambda>out. Inr (txt (json_of_outbound out))) (sess_queue s') [] = (Ok (), wire)"
    and "\<forall>c\<in>set cs. c \<noteq> []" "concat cs = wire"
    and "c' = client_reader de_ev de_resp (fst (drain [] (map Chunk cs))) (client_new\<lparr>pending := rids\<rparr>)"
  shows "delivered c' = zip rids (map Ok (fst (serve_all handler qs w))) \<and> w' = snd (serve_all handler qs w) \<and>
    events_out c' = early @ hello pid # session_broadcasts is"
proof -
  have sess: "replies (sess_queue s') = fst (serve_all handler qs w)" "w' = snd (serve_all handler qs w)"
      "notices (sess_queue s') = early @ hello pid # session_broadcasts is"
    using session_run_effect [OF assms(3) _ _ _ assms(5)] by (simp_all add: session_start_queue)
  obtain fs where fs: "map (\<lambda>out. Inr (txt (json_of_outbound out)) :: string + bytes) (sess_queue s') = map Inr fs"
      "\<forall>f\<in>set fs. length f \<le> MAX_FRAME_BYTES" "wire = concat (map (\<lambda>f. to_le_bytes (of_nat (length f)) @ f) fs)"
    using write_frames_Ok [OF assms(6)] by auto
  have "fs = map (\<lambda>out. txt (json_of_outbound out)) (sess_queue s')"
    using fs(1) inj_map_eq_map [of "Inr :: bytes \<Rightarrow> string + bytes" fs "map (\<lambda>out. txt (json_of_outbound out)) (sess_queue s')"]
    by (simp add: comp_def)
  moreover have "split_frames [] = ([], IpcClosed)" by (simp add: split_frames.simps)
  ultimately have "fst (drain [] (map Chunk cs)) = map (\<lambda>out. txt (json_of_outbound out)) (sess_queue s')"
    using drain_split [OF assms(7), of "[]"] split_encoded [OF fs(2), of "[]"] fs(3) assms(8) by simp
  then show ?thesis
    using client_reader_effect [OF assms(1,2), of "client_new\<lparr>pending := rids\<rparr>"] assms(4,9) sess
    by (simp add: client_new_def)
qed

definition demo_text :: "json \<Rightarrow> bytes" where
  "demo_text j = (if jget j ''event'' = None then [2] else if jget j ''event'' = Some (JStr ''hello'') then [3] else [4])"

definition demo_events :: "bytes \<Rightarrow> string + server_event" where
  "demo_events p = (if p = [3] then Inr (hello 9) else if p = [4] then Inr (SClipboardUpdated ''x'') else Inl [])"

theorem control_socket_end_to_end_witness:
  "delivered (client_reader demo_events (\<lambda>_. Inr (ROk (JStr ''pong'')))
     (fst (drain [] (map Chunk [[1, 0, 0, 0, 3, 1], [0, 0, 0, 2, 1, 0, 0, 0, 4]]))) (client_new\<lparr>pending := [5]\<rparr>)) =
   [(5, Ok (ROk (JStr ''pong'')))]"
proof -
  let ?h = "\<lambda>q (n :: nat). (ROk (JStr ''pong''), Suc n)"
  let ?s = "\<lparr>sess_queue = [OutEvent (hello 9), OutResponse (ROk (JStr ''pong'')), OutEvent (SClipboardUpdated ''x'')],
    registered = True, writer_up = True, sess_result = None\<rparr>"
  have run: "session_run (\<lambda>_. Inr ReqPing) ?h [SessPayload [1], SessBroadcast (SClipboardUpdated ''x'')]
      (0, session_start True (map SessBroadcast []) 9) = (1, ?s)"
    unfolding session_start_queue by (simp add: session_run_def)
  have wire: "write_frames (\<lambda>_ _. None) (\<lambda>out. Inr (demo_text (json_of_outbound out))) (sess_queue ?s) [] =
      (Ok (), [1, 0, 0, 0, 3, 1, 0, 0, 0, 2, 1, 0, 0, 0, 4])"
    by (simp add: write_frame_def write_all_def demo_text_def hello_def no_event_key MAX_FRAME_BYTES_def to_le_bytes_def
        del: json_of_response.simps)
  have "\<forall>out\<in>set (sess_queue ?s). decodes demo_events (\<lambda>_. Inr (ROk (JStr ''pong''))) demo_text out"
    by (simp add: decodes_def demo_text_def demo_events_def hello_def)
  then show ?thesis
    using control_socket_end_to_end [of demo_events demo_text ?s "\<lambda>_. Inr (ROk (JStr ''pong''))" "\<lambda>_. Inr ReqPing"
        "[SessPayload [1], SessBroadcast (SClipboardUpdated ''x'')]" "[ReqPing]" "[5]" ?h 0 "[]" 9 1 "\<lambda>_ _. None"
        "[1, 0, 0, 0, 3, 1, 0, 0, 0, 2, 1, 0, 0, 0, 4]" "[[1, 0, 0, 0, 3, 1], [0, 0, 0, 2, 1, 0, 0, 0, 4]]", OF _ _ _ _ run wire]
    by (simp add: demo_text_def demo_events_def)
qed

end
