(* ===== verification/Hf_Session.thy ===== *)
theory Hf_Session
  imports Hf_Json
begin

text \<open>
  Session detection of \<^verbatim>\<open>wayland/src/detect.rs\<close>: the kind of session and the compositor, from the
  environment alone.  The environment is a function from variable names to values.
\<close>

type_synonym environment = "string \<Rightarrow> string option"

datatype session_kind = Wayland | X11 | Tty | Headless | Unknown

record session_info =
  kind :: session_kind
  compositor :: "string option"
  protocols :: "string list"

definition env_set :: "environment \<Rightarrow> string \<Rightarrow> string option" where
  "env_set env k = (case env k of Some v \<Rightarrow> if trim_str v = [] then None else Some v | None \<Rightarrow> None)"

text \<open>\<^verbatim>\<open>str::contains\<close>, and \<^verbatim>\<open>split(':')\<close>.\<close>

fun has_sub :: "string \<Rightarrow> string \<Rightarrow> bool" where
  "has_sub needle [] = (needle = [])"
| "has_sub needle (c # s) = (take (length needle) (c # s) = needle \<or> has_sub needle s)"

fun split_colon :: "string \<Rightarrow> string \<Rightarrow> string list" where
  "split_colon acc [] = [rev acc]"
| "split_colon acc (c # s) = (if c = CHR '':'' then rev acc # split_colon [] s else split_colon (c # acc) s)"

definition desktop_hint :: "environment \<Rightarrow> string option" where
  "desktop_hint env = (case env ''XDG_CURRENT_DESKTOP'' of
       None \<Rightarrow> None
     | Some v \<Rightarrow> (let ds = split_colon [] (map to_lower v) in
         if list_ex (\<lambda>d. d = ''gnome'') ds then Some ''GNOME''
         else if list_ex (\<lambda>d. d = ''kde'' \<or> has_sub ''plasma'' d) ds then Some ''KDE Plasma''
         else None))"

definition session_hint :: "environment \<Rightarrow> string option" where
  "session_hint env = (case env ''DESKTOP_SESSION'' of
       None \<Rightarrow> None
     | Some v \<Rightarrow> (let s = map to_lower v in
         if has_sub ''plasma'' s \<or> has_sub ''kde'' s then Some ''KDE Plasma'' else None))"

definition socket_hint :: "environment \<Rightarrow> string option" where
  "socket_hint env = (case env_set env ''WAYLAND_DISPLAY'' of
       None \<Rightarrow> None
     | Some v \<Rightarrow> if take 8 v = ''wlroots-'' then Some ''wlroots'' else None)"

definition detect_compositor :: "environment \<Rightarrow> string option" where
  "detect_compositor env =
     (if env_set env ''SWAYSOCK'' \<noteq> None then Some ''Sway''
      else if env_set env ''HYPRLAND_INSTANCE_SIGNATURE'' \<noteq> None then Some ''Hyprland''
      else (case desktop_hint env of
          Some c \<Rightarrow> Some c
        | None \<Rightarrow> (case session_hint env of
              Some c \<Rightarrow> Some c
            | None \<Rightarrow> socket_hint env)))"

definition advertised_protocols :: "string option \<Rightarrow> string list" where
  "advertised_protocols c =
     (if c \<in> {Some ''Sway'', Some ''Hyprland'', Some ''wlroots''} then
        [''zwp_virtual_keyboard_manager_v1'', ''zwlr_virtual_pointer_manager_v1'',
         ''zwp_idle_inhibit_manager_v1'', ''zwlr_data_control_device_manager_v1'']
      else if c = Some ''KDE Plasma'' then
        [''zwp_virtual_keyboard_manager_v1'', ''zwp_idle_inhibit_manager_v1'', ''ext_data_control_device_manager_v1'']
      else if c = Some ''GNOME'' then
        [''zwp_virtual_keyboard_manager_v1'', ''ext_data_control_device_manager_v1'']
      else [])"

definition detect_kind :: "environment \<Rightarrow> session_kind" where
  "detect_kind env =
     (let socket = (env_set env ''WAYLAND_DISPLAY'' \<noteq> None \<or> env_set env ''WAYLAND_SOCKET'' \<noteq> None);
          stype = map_option (map to_lower) (env_set env ''XDG_SESSION_TYPE'')
      in if socket \<or> stype = Some ''wayland'' then Wayland
         else if stype = Some ''x11'' then X11
         else if stype = Some ''tty'' then Tty
         else if stype = Some ''headless'' then Headless
         else if stype = None \<and> env_set env ''DISPLAY'' \<noteq> None then X11
         else Unknown)"

definition detect_session :: "environment \<Rightarrow> session_info" where
  "detect_session env = (let c = detect_compositor env in
     \<lparr>kind = detect_kind env, compositor = c, protocols = advertised_protocols c\<rparr>)"

section \<open>What detection guarantees\<close>

lemma detect_compositor_known:
  "detect_compositor env \<in> {None, Some ''Sway'', Some ''Hyprland'', Some ''GNOME'', Some ''KDE Plasma'', Some ''wlroots''}"
  by (auto simp: detect_compositor_def desktop_hint_def session_hint_def socket_hint_def Let_def split: option.splits)

text \<open>Every compositor that is recognised is known to take virtual keyboards; an unknown one promises nothing.\<close>

lemma protocols_of_known_compositor:
  "protocols (detect_session env) = [] \<longleftrightarrow> compositor (detect_session env) = None"
  "compositor (detect_session env) \<noteq> None \<Longrightarrow> ''zwp_virtual_keyboard_manager_v1'' \<in> set (protocols (detect_session env))"
  using detect_compositor_known [of env] by (auto simp: detect_session_def advertised_protocols_def Let_def)

lemma wayland_socket_decides:
  "env_set env ''WAYLAND_DISPLAY'' \<noteq> None \<Longrightarrow> kind (detect_session env) = Wayland"
  by (simp add: detect_session_def detect_kind_def Let_def)

end
