(* ===== verification/Hf_Startup.thy ===== *)
theory Hf_Startup
  imports Hf_Handshake Hf_Ipc Hf_Session
begin

text \<open>
  What the daemon sets up before it serves anyone: its directories (\<^verbatim>\<open>core/src/paths.rs\<close>), its device
  identifier and advertised identity (\<^verbatim>\<open>daemon/src/main.rs\<close>), and its certificate
  (\<^verbatim>\<open>protocol/src/tls.rs\<close>).

  A fresh UUID, the generated key pair, the digest of a certificate, the process id and the clock are
  parameters.
\<close>

section \<open>Directories\<close>

record paths =
  config_dir :: path
  data_dir :: path
  cache_dir :: path
  runtime_dir :: path

definition env_dir :: "environment \<Rightarrow> string \<Rightarrow> path option" where
  "env_dir env var = (case env var of Some v \<Rightarrow> if v = [] then None else Some v | None \<Rightarrow> None)"

text \<open>\<^verbatim>\<open>status\<close> is the text of \<^verbatim>\<open>/proc/self/status\<close>, \<^verbatim>\<open>tmp\<close> the directory for temporary files.\<close>

definition resolve :: "environment \<Rightarrow> string option \<Rightarrow> path \<Rightarrow> paths" where
  "resolve env status tmp =
     (let uid_suffix = (case current_uid status of
            Some uid \<Rightarrow> APP_NAME @ ''-'' @ show_nat (unat uid)
          | None \<Rightarrow> APP_NAME);
          home = unwrap_or (env_dir env ''HOME'') tmp
      in \<lparr>config_dir = join (unwrap_or (env_dir env ''XDG_CONFIG_HOME'') (join home ''.config'')) APP_NAME,
          data_dir = join (unwrap_or (env_dir env ''XDG_DATA_HOME'') (join home ''.local/share'')) APP_NAME,
          cache_dir = join (unwrap_or (env_dir env ''XDG_CACHE_HOME'') (join home ''.cache'')) APP_NAME,
          runtime_dir = unwrap_or (env_dir env ''XDG_RUNTIME_DIR'') (join tmp uid_suffix)\<rparr>)"

section \<open>Device identifier and identity\<close>

definition ensure_device_id :: "string option \<Rightarrow> string option \<Rightarrow> string \<Rightarrow> store \<Rightarrow> (core_error + string) \<times> store" where
  "ensure_device_id get_fault set_fault uuid st = (case kv_get get_fault ''device_id'' st of
       Inl err \<Rightarrow> (Err err, st)
     | Inr (Some existing) \<Rightarrow> (Ok existing, st)
     | Inr None \<Rightarrow> (case kv_set set_fault ''device_id'' uuid st of
           (Inl err, st') \<Rightarrow> (Err err, st')
         | (Inr _, st') \<Rightarrow> (Ok uuid, st')))"

text \<open>A \<^verbatim>\<open>BTreeSet\<close> of strings, listed.\<close>

definition btree_list :: "string list \<Rightarrow> string list" where
  "btree_list xs = sort (remdups xs)"

definition build_self_identity :: "string \<Rightarrow> string \<Rightarrow> u16 \<Rightarrow> identity" where
  "build_self_identity d name port =
     \<lparr>device_id = d, device_name = name, device_type = ''desktop'', protocol_version = PROTO_VERSION,
      incoming = btree_list (concat (map (\<lambda>p. pm_incoming (plugin_meta_of p)) registry)),
      outgoing = btree_list (concat (map (\<lambda>p. pm_outgoing (plugin_meta_of p)) registry)),
      tcp_source_port = port\<rparr>"

section \<open>The certificate\<close>

definition CERT_FILE_NAME :: string where "CERT_FILE_NAME = ''id_cert.der''"
definition KEY_FILE_NAME :: string where "KEY_FILE_NAME = ''id_key.der''"

record cert_pair =
  cert_der :: bytes
  key_der_pkcs8 :: bytes
  fingerprint_sha256 :: bytes

definition fingerprint_hex :: "cert_pair \<Rightarrow> string" where
  "fingerprint_hex p = concat (map hex_byte (fingerprint_sha256 p))"

definition write_private_then_rename :: "faults \<Rightarrow> path \<Rightarrow> path \<Rightarrow> bytes \<Rightarrow> fs \<Rightarrow> (proto_error + unit) \<times> fs" where
  "write_private_then_rename f tmp target data fs =
     (if fs tmp \<noteq> None then (Err (Io ''File exists (os error 17)''), fs)
      else (case f_open f of
          Some err \<Rightarrow> (Err (Io err), fs)
        | None \<Rightarrow> (case f_write f of
              Some (n, err) \<Rightarrow> (Err (Io err), fs(tmp \<mapsto> take n data))
            | None \<Rightarrow> (case f_flush f of
                  Some err \<Rightarrow> (Err (Io err), fs(tmp \<mapsto> data))
                | None \<Rightarrow> (case f_rename f of
                      Some err \<Rightarrow> (Err (Io err), fs(tmp \<mapsto> data))
                    | None \<Rightarrow> (Ok (), (fs(tmp := None))(target \<mapsto> data)))))))"

definition cert_tmp :: "nat \<Rightarrow> nat \<Rightarrow> path \<Rightarrow> path" where
  "cert_tmp pid nonce p =
     join (path_parent p) (''.'' @ path_name p @ ''.'' @ show_nat pid @ ''.'' @ show_nat nonce @ ''.tmp'')"

text \<open>A failed attempt removes the temporary file, if it can.\<close>

definition persist_atomic :: "faults \<Rightarrow> nat \<Rightarrow> nat \<Rightarrow> path \<Rightarrow> bytes \<Rightarrow> fs \<Rightarrow> (proto_error + unit) \<times> fs" where
  "persist_atomic f pid nonce p data fs =
     (if path_name p = [] then (Err (Cert (''unsupported certificate file path '' @ p)), fs)
      else (case write_private_then_rename f (cert_tmp pid nonce p) p data fs of
          (Inr u, fs') \<Rightarrow> (Ok u, fs')
        | (Inl err, fs') \<Rightarrow>
            (Err err, if f_remove f = None then fs'(cert_tmp pid nonce p := None) else fs')))"

text \<open>What the outside decides while the certificate is set up: the faults and clock of the two writes.\<close>

record cert_env =
  ce_readable :: "path \<Rightarrow> bool"
  ce_generate :: "string \<Rightarrow> proto_error + bytes \<times> bytes"
  ce_digest :: "bytes \<Rightarrow> bytes"
  ce_pid :: nat
  ce_cert_write :: "faults \<times> nat"
  ce_key_write :: "faults \<times> nat"

definition read_file :: "cert_env \<Rightarrow> fs \<Rightarrow> path \<Rightarrow> bytes option" where
  "read_file env fs p = (if ce_readable env p then fs p else None)"

definition make_pair :: "cert_env \<Rightarrow> bytes \<Rightarrow> bytes \<Rightarrow> cert_pair" where
  "make_pair env c k = \<lparr>cert_der = c, key_der_pkcs8 = k, fingerprint_sha256 = ce_digest env c\<rparr>"

definition generate_pair :: "cert_env \<Rightarrow> path \<Rightarrow> string \<Rightarrow> fs \<Rightarrow> (proto_error + cert_pair) \<times> fs" where
  "generate_pair env dir d fs = (case ce_generate env d of
       Inl err \<Rightarrow> (Err err, fs)
     | Inr (c, k) \<Rightarrow>
         (case persist_atomic (fst (ce_cert_write env)) (ce_pid env) (snd (ce_cert_write env)) (join dir CERT_FILE_NAME) c fs of
            (Inl err, fs1) \<Rightarrow> (Err err, fs1)
          | (Inr _, fs1) \<Rightarrow>
              (case persist_atomic (fst (ce_key_write env)) (ce_pid env) (snd (ce_key_write env)) (join dir KEY_FILE_NAME) k fs1 of
                 (Inl err, fs2) \<Rightarrow> (Err err, fs2)
               | (Inr _, fs2) \<Rightarrow> (Ok (make_pair env c k), fs2))))"

definition load_or_generate :: "cert_env \<Rightarrow> path \<Rightarrow> string \<Rightarrow> fs \<Rightarrow> (proto_error + cert_pair) \<times> fs" where
  "load_or_generate env dir d fs =
     (case (read_file env fs (join dir CERT_FILE_NAME), read_file env fs (join dir KEY_FILE_NAME)) of
        (Some c, Some k) \<Rightarrow> if c \<noteq> [] \<and> k \<noteq> [] then (Ok (make_pair env c k), fs) else generate_pair env dir d fs
      | _ \<Rightarrow> generate_pair env dir d fs)"

section \<open>The identity is stable\<close>

lemma ensure_device_id_stable:
  assumes "ensure_device_id g s uuid st = (Inr d, st')"
  shows "ensure_device_id None s' uuid' st' = (Inr d, st')"
  using assms by (auto simp: ensure_device_id_def kv_get_def kv_set_def split: option.splits sum.splits)

lemma path_name_join:
  assumes "n \<noteq> []" "CHR ''/'' \<notin> set n"
  shows "path_name (join d n) = n"
proof -
  have tw: "takeWhile (\<lambda>c. c \<noteq> CHR ''/'') (rev n @ ys) = rev n @ takeWhile (\<lambda>c. c \<noteq> CHR ''/'') ys" for ys
    using assms(2) by (intro takeWhile_append2) auto
  have "takeWhile (\<lambda>c. c \<noteq> CHR ''/'') (rev n @ CHR ''/'' # ys) = rev n" for ys
    by (simp add: tw)
  moreover have "takeWhile (\<lambda>c. c \<noteq> CHR ''/'') (rev n @ rev d) = rev n" if "d = [] \<or> last d = CHR ''/''"
    using that assms(2) by (cases d rule: rev_cases) (auto simp: tw takeWhile_eq_all_conv)
  moreover have "hd n \<noteq> CHR ''/''" using assms by (cases n) auto
  ultimately show ?thesis by (auto simp: path_name_def join_def)
qed

lemma file_names [simp]:
  "path_name (join dir CERT_FILE_NAME) = CERT_FILE_NAME" "path_name (join dir KEY_FILE_NAME) = KEY_FILE_NAME"
  by (rule path_name_join; simp add: CERT_FILE_NAME_def KEY_FILE_NAME_def)+

text \<open>The temporary name of either file is the name of neither.\<close>

lemma last_join: "n \<noteq> [] \<Longrightarrow> last (join d n) = last n"
  by (simp add: join_def)

lemma cert_tmp_fresh [simp]:
  "cert_tmp pid nonce p \<noteq> join dir CERT_FILE_NAME" "cert_tmp pid nonce p \<noteq> join dir KEY_FILE_NAME"
  "join dir CERT_FILE_NAME \<noteq> cert_tmp pid nonce p" "join dir KEY_FILE_NAME \<noteq> cert_tmp pid nonce p"
proof -
  have t: "last (cert_tmp pid nonce p) = CHR ''p''" by (simp add: cert_tmp_def last_join)
  have f: "last (join dir CERT_FILE_NAME) = CHR ''r''" "last (join dir KEY_FILE_NAME) = CHR ''r''"
    by (simp_all add: last_join CERT_FILE_NAME_def KEY_FILE_NAME_def)
  show "cert_tmp pid nonce p \<noteq> join dir CERT_FILE_NAME" "cert_tmp pid nonce p \<noteq> join dir KEY_FILE_NAME"
    "join dir CERT_FILE_NAME \<noteq> cert_tmp pid nonce p" "join dir KEY_FILE_NAME \<noteq> cert_tmp pid nonce p"
    by (rule notI, drule arg_cong [where f = last], simp add: t f)+
qed

lemma files_distinct [simp]: "join dir CERT_FILE_NAME \<noteq> join dir KEY_FILE_NAME"
  by (rule notI, drule arg_cong [where f = path_name]) (simp add: CERT_FILE_NAME_def KEY_FILE_NAME_def del: file_names add: file_names [unfolded CERT_FILE_NAME_def KEY_FILE_NAME_def])

lemma persist_atomic_ok:
  assumes "persist_atomic f pid nonce p data fs = (Inr u, fs')" "q \<noteq> cert_tmp pid nonce p"
  shows "fs' p = Some data \<and> (q \<noteq> p \<longrightarrow> fs' q = fs q)"
  using assms by (auto simp: persist_atomic_def write_private_then_rename_def split: if_splits option.splits prod.splits)

text \<open>A failed write of either file leaves both files as they were.\<close>

lemma persist_atomic_err:
  assumes "persist_atomic f pid nonce p data fs = (Inl err, fs')" "q \<noteq> cert_tmp pid nonce p"
  shows "fs' q = fs q"
  using assms by (auto simp: persist_atomic_def write_private_then_rename_def split: if_splits option.splits prod.splits)

lemma generate_pair_stored:
  assumes "generate_pair env dir d fs = (Inr pair, fs')"
  shows "fs' (join dir CERT_FILE_NAME) = Some (cert_der pair) \<and> fs' (join dir KEY_FILE_NAME) = Some (key_der_pkcs8 pair) \<and>
    pair = make_pair env (cert_der pair) (key_der_pkcs8 pair) \<and> ce_generate env d = Inr (cert_der pair, key_der_pkcs8 pair)"
proof -
  let ?c = "join dir CERT_FILE_NAME" and ?k = "join dir KEY_FILE_NAME"
  obtain c k fs1 where gen: "ce_generate env d = Inr (c, k)" and pair: "pair = make_pair env c k"
    and one: "persist_atomic (fst (ce_cert_write env)) (ce_pid env) (snd (ce_cert_write env)) ?c c fs = (Inr (), fs1)"
    and two: "persist_atomic (fst (ce_key_write env)) (ce_pid env) (snd (ce_key_write env)) ?k k fs1 = (Inr (), fs')"
    using assms by (auto simp: generate_pair_def split: sum.splits prod.splits)
  have "fs1 ?c = Some c" using persist_atomic_ok [OF one, of ?c] by simp
  moreover have "fs' ?k = Some k" "fs' ?c = fs1 ?c" using persist_atomic_ok [OF two, of ?c] by simp_all
  ultimately show ?thesis using gen pair by (simp add: make_pair_def)
qed

section \<open>Start-up\<close>

datatype start_error = StoreFailed core_error | CertFailed proto_error

text \<open>The part of \<^verbatim>\<open>run\<close> that fixes who the daemon is.\<close>

definition identity_setup :: "string option \<Rightarrow> string option \<Rightarrow> string \<Rightarrow> cert_env \<Rightarrow> path \<Rightarrow> string \<Rightarrow> u16 \<Rightarrow> store \<times> fs \<Rightarrow>
    (start_error + string \<times> cert_pair \<times> identity) \<times> store \<times> fs" where
  "identity_setup get_fault set_fault uuid env dir name port s = (case s of (st, fs) \<Rightarrow>
     (case ensure_device_id get_fault set_fault uuid st of
        (Inl err, st') \<Rightarrow> (Err (StoreFailed err), st', fs)
      | (Inr d, st') \<Rightarrow> (case load_or_generate env dir d fs of
            (Inl err, fs') \<Rightarrow> (Err (CertFailed err), st', fs')
          | (Inr pair, fs') \<Rightarrow> (Ok (d, pair, build_self_identity d name port), st', fs'))))"

lemma load_or_generate_stored:
  assumes "load_or_generate env dir d fs = (Inr pair, fs')"
    and "\<And>c k. ce_generate env d = Inr (c, k) \<Longrightarrow> c \<noteq> [] \<and> k \<noteq> []"
  shows "fs' (join dir CERT_FILE_NAME) = Some (cert_der pair) \<and> fs' (join dir KEY_FILE_NAME) = Some (key_der_pkcs8 pair) \<and>
    pair = make_pair env (cert_der pair) (key_der_pkcs8 pair) \<and> cert_der pair \<noteq> [] \<and> key_der_pkcs8 pair \<noteq> []"
proof (cases "generate_pair env dir d fs = (Inr pair, fs')")
  case True
  then show ?thesis using generate_pair_stored [OF True] assms(2) by blast
next
  case False
  then show ?thesis
    using assms(1) by (auto simp: load_or_generate_def read_file_def make_pair_def split: option.splits if_splits)
qed

lemma identity_setup_stable:
  assumes "identity_setup gf sf uuid env dir name port (st, fs) = (Inr (d, pair, i), st', fs')"
    and "\<And>x c k. ce_generate env x = Inr (c, k) \<Longrightarrow> c \<noteq> [] \<and> k \<noteq> []"
    and "ce_digest env' = ce_digest env" "ce_readable env' (join dir CERT_FILE_NAME)" "ce_readable env' (join dir KEY_FILE_NAME)"
  shows "identity_setup None sf' uuid' env' dir name port (st', fs') = (Inr (d, pair, i), st', fs')"
proof -
  have d: "ensure_device_id gf sf uuid st = (Inr d, st')" and p: "load_or_generate env dir d fs = (Inr pair, fs')"
    and i: "i = build_self_identity d name port"
    using assms(1) by (auto simp: identity_setup_def split: sum.splits prod.splits)
  have "load_or_generate env' dir d fs' = (Inr pair, fs')"
    using load_or_generate_stored [OF p assms(2)] assms(3-5)
    by (auto simp: load_or_generate_def read_file_def make_pair_def)
  then show ?thesis using ensure_device_id_stable [OF d, of sf' uuid'] i by (simp add: identity_setup_def)
qed

text \<open>C19. A daemon stays itself: once a start has succeeded, every later start on the same database and directory
  yields the same device identifier, certificate and advertised identity, and writes nothing, whatever
  identifier or keys would be generated then and whichever writes would fail.\<close>

theorem identity_survives_restart:
  assumes "identity_setup gf sf uuid env dir name port (st, fs) = (Inr (d, pair, i), st', fs')"
    and "\<And>x c k. ce_generate env x = Inr (c, k) \<Longrightarrow> c \<noteq> [] \<and> k \<noteq> []"
    and "ce_digest env' = ce_digest env" "ce_readable env' (join dir CERT_FILE_NAME)" "ce_readable env' (join dir KEY_FILE_NAME)"
  shows "identity_setup None sf' uuid' env' dir name port (st', fs') = (Inr (d, pair, i), st', fs')"
  by (rule identity_setup_stable [OF assms])

definition demo_certs :: "bytes \<Rightarrow> cert_env" where
  "demo_certs c = \<lparr>ce_readable = (\<lambda>_. True), ce_generate = (\<lambda>_. Inr (1 # c, 2 # c)), ce_digest = id, ce_pid = 7,
     ce_cert_write = (no_faults, 1), ce_key_write = (no_faults, 2)\<rparr>"

lemma persist_without_faults:
  "fs (cert_tmp pid nonce p) = None \<Longrightarrow> path_name p \<noteq> [] \<Longrightarrow>
   persist_atomic no_faults pid nonce p data fs = (Inr (), (fs(cert_tmp pid nonce p := None))(p \<mapsto> data))"
  by (simp add: persist_atomic_def write_private_then_rename_def no_faults_def)

lemma file_names_not_Nil [simp]: "CERT_FILE_NAME \<noteq> []" "KEY_FILE_NAME \<noteq> []"
  by (simp_all add: CERT_FILE_NAME_def KEY_FILE_NAME_def)

lemma demo_identity_setup:
  "\<exists>st' fs'. identity_setup None None ''uuid'' (demo_certs [5]) ''/c'' ''Desk'' 1716 (store_empty, \<lambda>_. None) =
     (Inr (''uuid'', make_pair (demo_certs [5]) [1, 5] [2, 5], build_self_identity ''uuid'' ''Desk'' 1716), st', fs')"
proof -
  obtain fs' where load: "load_or_generate (demo_certs [5]) ''/c'' ''uuid'' (\<lambda>_. None) =
      (Inr (make_pair (demo_certs [5]) [1, 5] [2, 5]), fs')"
    by (simp add: load_or_generate_def read_file_def generate_pair_def demo_certs_def persist_without_faults)
  obtain st' where "ensure_device_id None None ''uuid'' store_empty = (Inr ''uuid'', st')"
    by (simp add: ensure_device_id_def kv_get_def kv_set_def store_empty_def tget_def)
  with load show ?thesis by (simp add: identity_setup_def)
qed

theorem identity_survives_restart_witness:
  "identity_setup None (Some ''full'') ''other'' (demo_certs [9]) ''/c'' ''Desk'' 1716
     (snd (identity_setup None None ''uuid'' (demo_certs [5]) ''/c'' ''Desk'' 1716 (store_empty, \<lambda>_. None))) =
   identity_setup None None ''uuid'' (demo_certs [5]) ''/c'' ''Desk'' 1716 (store_empty, \<lambda>_. None)"
proof -
  let ?r = "identity_setup None None ''uuid'' (demo_certs [5]) ''/c'' ''Desk'' 1716 (store_empty, \<lambda>_. None)"
  obtain st' fs' where r: "?r = (Inr (''uuid'', make_pair (demo_certs [5]) [1, 5] [2, 5], build_self_identity ''uuid'' ''Desk'' 1716), st', fs')"
    using demo_identity_setup by blast
  show ?thesis
    using identity_survives_restart [OF r, of "demo_certs [9]" "Some ''full''" "''other''"] r
    by (simp add: demo_certs_def)
qed

text \<open>
  The two files are written one after the other.  When a certificate is lost and writing the new key fails, the
  next start pairs the new certificate with the old key.
\<close>

lemma certificate_without_its_key:
  assumes "fs (join dir CERT_FILE_NAME) = None" "fs (join dir KEY_FILE_NAME) = Some old_key" "old_key \<noteq> []"
    and "ce_generate env d = Inr (c, k)" "c \<noteq> []"
    and "persist_atomic (fst (ce_cert_write env)) (ce_pid env) (snd (ce_cert_write env)) (join dir CERT_FILE_NAME) c fs = (Inr (), fs1)"
    and "persist_atomic (fst (ce_key_write env)) (ce_pid env) (snd (ce_key_write env)) (join dir KEY_FILE_NAME) k fs1 = (Inl err, fs2)"
    and "ce_readable env' = (\<lambda>_. True)"
  shows "load_or_generate env dir d fs = (Inl err, fs2) \<and>
    load_or_generate env' dir d fs2 = (Inr (make_pair env' c old_key), fs2)"
proof -
  have "fs1 (join dir CERT_FILE_NAME) = Some c" "fs1 (join dir KEY_FILE_NAME) = Some old_key"
    using persist_atomic_ok [OF assms(6), of "join dir CERT_FILE_NAME"] persist_atomic_ok [OF assms(6), of "join dir KEY_FILE_NAME"]
      assms(2) files_distinct [of dir] by auto
  then have "fs2 (join dir CERT_FILE_NAME) = Some c" "fs2 (join dir KEY_FILE_NAME) = Some old_key"
    using persist_atomic_err [OF assms(7), of "join dir CERT_FILE_NAME"] persist_atomic_err [OF assms(7), of "join dir KEY_FILE_NAME"]
    by simp_all
  then show ?thesis using assms by (simp add: load_or_generate_def read_file_def generate_pair_def)
qed

section \<open>What is advertised\<close>

text \<open>The identity lists exactly the packet types of the registered plugins, each once, in order.\<close>

lemma self_identity_capabilities:
  "set (incoming (build_self_identity d name port)) = (\<Union>p\<in>set registry. set (pm_incoming (plugin_meta_of p)))"
  "sorted (incoming (build_self_identity d name port)) \<and> distinct (incoming (build_self_identity d name port))"
  by (simp_all add: build_self_identity_def btree_list_def)

end
