(* ===== verification/Hf_Float.thy ===== *)
theory Hf_Float
  imports Hf_Json
begin

text \<open>
  The floating point operations of the Rust standard library that the desktop components call: rounding,
  clamping and casts to integers, on finite numbers, infinities and values that are not numbers.
\<close>

text \<open>
  An \<^verbatim>\<open>f64\<close> is a finite number, an infinity or not a number.  \<^verbatim>\<open>round\<close> goes to the nearest integer, half
  away from zero; \<^verbatim>\<open>clamp\<close> leaves what is not a number, which a cast to an integer type turns into zero;
  a cast truncates and saturates.
\<close>

datatype f64 = Finite rat | Infinite bool | NaN

definition round_away :: "rat \<Rightarrow> int" where
  "round_away q = (if 0 \<le> q then \<lfloor>q + 1/2\<rfloor> else - \<lfloor>1/2 - q\<rfloor>)"

fun f64_round :: "f64 \<Rightarrow> f64" where
  "f64_round (Finite q) = Finite (of_int (round_away q))"
| "f64_round x = x"

fun f64_clamp :: "rat \<Rightarrow> rat \<Rightarrow> f64 \<Rightarrow> f64" where
  "f64_clamp lo hi (Finite q) = Finite (max lo (min hi q))"
| "f64_clamp lo hi (Infinite pos) = Finite (if pos then hi else lo)"
| "f64_clamp lo hi NaN = NaN"

definition I32_MIN :: int where
  "I32_MIN = - (2 ^ 31)"

definition I32_MAX :: int where
  "I32_MAX = 2 ^ 31 - 1"

fun as_i32 :: "f64 \<Rightarrow> 32 word" where
  "as_i32 (Finite q) = word_of_int (max I32_MIN (min I32_MAX (if 0 \<le> q then \<lfloor>q\<rfloor> else - \<lfloor>- q\<rfloor>)))"
| "as_i32 (Infinite pos) = word_of_int (if pos then I32_MAX else I32_MIN)"
| "as_i32 NaN = 0"

definition as_i64 :: "f64 \<Rightarrow> int" where
  "as_i64 x = (case x of
       Finite q \<Rightarrow> max (- (2 ^ 63)) (min (2 ^ 63 - 1) (if 0 \<le> q then \<lfloor>q\<rfloor> else - \<lfloor>- q\<rfloor>))
     | Infinite pos \<Rightarrow> if pos then 2 ^ 63 - 1 else - (2 ^ 63)
     | NaN \<Rightarrow> 0)"

lemma round_away_nearest: "\<bar>of_int (round_away q) - q\<bar> \<le> 1/2"
proof -
  have "of_int \<lfloor>q + 1/2\<rfloor> \<le> q + 1/2 \<and> q + 1/2 < of_int \<lfloor>q + 1/2\<rfloor> + 1"
    "of_int \<lfloor>1/2 - q\<rfloor> \<le> 1/2 - q \<and> 1/2 - q < of_int \<lfloor>1/2 - q\<rfloor> + 1"
    using floor_correct [of "q + 1/2"] floor_correct [of "1/2 - q"] by simp_all
  then show ?thesis unfolding round_away_def abs_le_iff by (simp only: of_int_minus split: if_split, linarith)
qed

end
