(* ===== verification/Hf_Wayland_Input.thy ===== *)
theory Hf_Wayland_Input
  imports Hf_Session Hf_Float
begin

text \<open>
  Injection of keyboard and pointer input: \<^verbatim>\<open>wayland/src/input.rs\<close>, which obeys the virtual keyboard and
  virtual pointer protocols on a connection of its own, \<^verbatim>\<open>wayland/src/portal_ei.rs\<close>, which goes through
  the RemoteDesktop portal, and the error type of \<^verbatim>\<open>wayland/src/error.rs\<close>.

  The requests a client issues are a list in the order of issue; objects are numbered in the order of
  their creation.  libxkbcommon is a parameter: a keymap is the keycodes in the order of
  the library with their symbols on level 0 of layout 0, and a text; the state that tracks modifiers is of
  any type, with the operations the code calls on it.  What the surroundings answer to one call, the clock, the
  file system and the connection, is the environment of that call.  Off Wayland the crate compiles
  stand-ins whose every operation fails; they have no behaviour to model.
\<close>

datatype wl_error =
    WlIo string
  | WlUnsupported string
  | WlProtocolMissing string
  | WlOther string

fun wl_error_text :: "wl_error \<Rightarrow> string" where
  "wl_error_text (WlIo e) = ''io: '' @ e"
| "wl_error_text (WlUnsupported e) = ''unsupported on this platform/session: '' @ e"
| "wl_error_text (WlProtocolMissing e) = ''compositor refused or lacks protocol: '' @ e"
| "wl_error_text (WlOther e) = e"

section \<open>Numbers\<close>

text \<open>The wheel notches of one scroll call, or none when they round to zero; both back ends compute them alike.\<close>

definition discrete_notches :: "f64 \<Rightarrow> 32 word option" where
  "discrete_notches steps = (let notches = f64_round steps in
     if notches = Finite 0 then None else Some (as_i32 (f64_clamp (of_int I32_MIN) (of_int I32_MAX) notches)))"

fun hex_u :: "nat \<Rightarrow> string" where
  "hex_u n = (if n < 16 then [hex_digit n] else hex_u (n div 16) @ [hex_digit (n mod 16)])"

definition show_hex :: "u32 \<Rightarrow> string" where
  "show_hex v = ''0x'' @ hex_u (unat v)"

section \<open>The keyboard library and the wire\<close>

record xkb_keymap =
  km_keys :: "(u32 \<times> u32 list) list"
  km_text :: bytes

record 'st xkb =
  state_new :: "xkb_keymap \<Rightarrow> 'st"
  update_key :: "u32 \<Rightarrow> bool \<Rightarrow> 'st \<Rightarrow> 'st"
  mods_depressed :: "'st \<Rightarrow> u32"
  mods_latched :: "'st \<Rightarrow> u32"
  mods_locked :: "'st \<Rightarrow> u32"
  layout_effective :: "'st \<Rightarrow> u32"

type_synonym object = nat

datatype wl_request =
    BindGlobal object u32 string u32
  | CreateKeyboard object object object
  | Keymap object u32 bytes u32
  | Key object u32 u32 u32
  | Modifiers object u32 u32 u32 u32
  | CreatePointer object object "object option"
  | Motion object u32 f64 f64
  | Button object u32 u32 bool
  | AxisSourceWheel object
  | Axis object u32 bool f64
  | AxisDiscrete object u32 bool f64 "32 word"
  | PointerFrame object
  | DestroyKeyboard object
  | DestroyPointer object
  | DestroyPointerManager object

datatype registry_event = Global u32 string u32 | GlobalRemove u32

definition KEYMAP_FORMAT_XKB_V1 :: u32 where "KEYMAP_FORMAT_XKB_V1 = 1"
definition KEY_STATE_RELEASED :: u32 where "KEY_STATE_RELEASED = 0"
definition KEY_STATE_PRESSED :: u32 where "KEY_STATE_PRESSED = 1"
definition WHEEL_STEP_UNITS :: rat where "WHEEL_STEP_UNITS = 10"
definition SEAT_MAX_VERSION :: u32 where "SEAT_MAX_VERSION = 8"
definition KEYBOARD_MANAGER_MAX_VERSION :: u32 where "KEYBOARD_MANAGER_MAX_VERSION = 1"
definition POINTER_MANAGER_MAX_VERSION :: u32 where "POINTER_MANAGER_MAX_VERSION = 2"

record 'st virtual_input =
  vi_sent :: "wl_request list"
  vi_next :: object
  seat :: "object option"
  keyboard_manager :: "object option"
  pointer_manager :: "object option"
  keyboard :: "object option"
  pointer :: "object option"
  keymap :: "xkb_keymap option"
  key_state :: "'st option"
  keysym_cache :: "(u32 \<times> u32 option) list"

text \<open>
  What one call finds: the milliseconds since the connection was opened, the keymap the library
  compiles, the error of the temporary file if it cannot be written, a protocol error on the
  connection and the error of flushing it.
\<close>

record input_env =
  ie_elapsed :: nat
  ie_compile :: "xkb_keymap option"
  ie_tempfile :: "string option"
  ie_protocol_error :: "string option"
  ie_flush :: "string option"

type_synonym ('st, 'a) input_result = "(wl_error + 'a) \<times> 'st virtual_input"

definition issue :: "wl_request list \<Rightarrow> 'st virtual_input \<Rightarrow> 'st virtual_input" where
  "issue rs st = st\<lparr>vi_sent := vi_sent st @ rs\<rparr>"

section \<open>Connecting\<close>

definition has_wayland_env :: "environment \<Rightarrow> bool" where
  "has_wayland_env env = list_ex (\<lambda>k. case env k of Some v \<Rightarrow> v \<noteq> [] | None \<Rightarrow> False) [''WAYLAND_DISPLAY'', ''WAYLAND_SOCKET'']"

text \<open>Binding a global creates an object; the later of two globals of one interface wins.\<close>

definition vi_registry :: "registry_event \<Rightarrow> 'st virtual_input \<Rightarrow> 'st virtual_input" where
  "vi_registry ev st = (case ev of
       GlobalRemove _ \<Rightarrow> st
     | Global name interface version \<Rightarrow>
         (let obj = vi_next st;
              bind = (\<lambda>limit. (issue [BindGlobal obj name interface (min version limit)] st)\<lparr>vi_next := Suc obj\<rparr>)
          in if interface = ''wl_seat'' then (bind SEAT_MAX_VERSION)\<lparr>seat := Some obj\<rparr>
             else if interface = ''zwp_virtual_keyboard_manager_v1'' then
               (bind KEYBOARD_MANAGER_MAX_VERSION)\<lparr>keyboard_manager := Some obj\<rparr>
             else if interface = ''zwlr_virtual_pointer_manager_v1'' then
               (bind POINTER_MANAGER_MAX_VERSION)\<lparr>pointer_manager := Some obj\<rparr>
             else st))"

definition vi_new :: "'st virtual_input" where
  "vi_new = \<lparr>vi_sent = [], vi_next = 0, seat = None, keyboard_manager = None, pointer_manager = None,
     keyboard = None, pointer = None, keymap = None, key_state = None, keysym_cache = []\<rparr>"

text \<open>The registry events of a round trip, and its error.\<close>

type_synonym roundtrip = "registry_event list \<times> string option"

definition vi_connect :: "environment \<Rightarrow> string option \<Rightarrow> roundtrip \<Rightarrow> roundtrip \<Rightarrow> wl_error + 'st virtual_input" where
  "vi_connect env conn first second =
     (if \<not> has_wayland_env env then
        Err (WlUnsupported ''virtual input requires a Wayland session (WAYLAND_DISPLAY/WAYLAND_SOCKET unset)'')
      else case conn of Some e \<Rightarrow> Err (WlOther (''wayland connect: '' @ e)) | None \<Rightarrow>
        (case snd first of Some e \<Rightarrow> Err (WlOther (''wayland registry roundtrip: '' @ e)) | None \<Rightarrow>
          (case snd second of Some e \<Rightarrow> Err (WlOther (''wayland bind roundtrip: '' @ e)) | None \<Rightarrow>
            (let st = fold vi_registry (fst first @ fst second) vi_new in
              if keyboard_manager st = None \<and> pointer_manager st = None then
                Err (WlProtocolMissing ''zwp_virtual_keyboard_manager_v1, zwlr_virtual_pointer_manager_v1'')
              else Ok st))))"

section \<open>Keyboard\<close>

definition now_ms :: "input_env \<Rightarrow> u32" where
  "now_ms env = of_nat (min (ie_elapsed env) (2 ^ 32 - 1))"

definition ensure_keymap :: "'st xkb \<Rightarrow> input_env \<Rightarrow> 'st virtual_input \<Rightarrow> ('st, xkb_keymap) input_result" where
  "ensure_keymap X env st = (case keymap st of
       Some km \<Rightarrow> (Ok km, st)
     | None \<Rightarrow> (case ie_compile env of
           None \<Rightarrow> (Err (WlOther ''failed to compile US-qwerty XKB keymap''), st)
         | Some km \<Rightarrow> (Ok km, st\<lparr>key_state := Some (state_new X km), keymap := Some km\<rparr>)))"

text \<open>The first keycode, in the order of the library, whose level-0 symbols contain the keysym.\<close>

definition first_keycode :: "xkb_keymap \<Rightarrow> u32 \<Rightarrow> u32 option" where
  "first_keycode km ks = map_option fst (find (\<lambda>(_, syms). contains syms ks) (km_keys km))"

definition keycode_for_keysym :: "'st xkb \<Rightarrow> input_env \<Rightarrow> u32 \<Rightarrow> 'st virtual_input \<Rightarrow> ('st, u32 option) input_result" where
  "keycode_for_keysym X env ks st = (case map_of (keysym_cache st) ks of
       Some cached \<Rightarrow> (Ok cached, st)
     | None \<Rightarrow> (case ensure_keymap X env st of
           (Inl e, st1) \<Rightarrow> (Err e, st1)
         | (Inr km, st1) \<Rightarrow> (let resolved = first_keycode km ks in
             (Ok resolved, st1\<lparr>keysym_cache := AList.update ks resolved (keysym_cache st1)\<rparr>))))"

definition ensure_keyboard :: "'st xkb \<Rightarrow> input_env \<Rightarrow> 'st virtual_input \<Rightarrow> ('st, object) input_result" where
  "ensure_keyboard X env st = (case keyboard st of
       Some kb \<Rightarrow> (Ok kb, st)
     | None \<Rightarrow> (case keyboard_manager st of
           None \<Rightarrow> (Err (WlProtocolMissing ''zwp_virtual_keyboard_manager_v1''), st)
         | Some mg \<Rightarrow> (case seat st of
               None \<Rightarrow> (Err (WlProtocolMissing ''wl_seat (required to attach a virtual keyboard)''), st)
             | Some se \<Rightarrow> (case ensure_keymap X env st of
                   (Inl e, st1) \<Rightarrow> (Err e, st1)
                 | (Inr km, st1) \<Rightarrow> (case ie_tempfile env of
                       Some e \<Rightarrow> (Err (WlIo e), st1)
                     | None \<Rightarrow> (let kb = vi_next st1 in
                         (Ok kb, (issue [CreateKeyboard kb mg se,
                                         Keymap kb KEYMAP_FORMAT_XKB_V1 (km_text km) (of_nat (length (km_text km)))] st1)
                            \<lparr>vi_next := Suc kb, keyboard := Some kb\<rparr>)))))))"

definition vi_key :: "'st xkb \<Rightarrow> input_env \<Rightarrow> u32 \<Rightarrow> bool \<Rightarrow> 'st virtual_input \<Rightarrow> ('st, unit) input_result" where
  "vi_key X env ks press st = (case keycode_for_keysym X env ks st of
       (Inl e, st1) \<Rightarrow> (Err e, st1)
     | (Inr None, st1) \<Rightarrow>
         (Err (WlOther (''keysym '' @ show_hex ks @ '' not present in the injected US-qwerty keymap'')), st1)
     | (Inr (Some code), st1) \<Rightarrow> (case key_state st1 of
           None \<Rightarrow> (Err (WlOther ''xkb state missing after keyboard init''), st1)
         | Some xs \<Rightarrow> (let xs' = update_key X code press xs in
             case ensure_keyboard X env (st1\<lparr>key_state := Some xs'\<rparr>) of
               (Inl e, st2) \<Rightarrow> (Err e, st2)
             | (Inr kb, st2) \<Rightarrow>
                 (Ok (), issue [Key kb (now_ms env) code (if press then KEY_STATE_PRESSED else KEY_STATE_RELEASED),
                    Modifiers kb (mods_depressed X xs') (mods_latched X xs') (mods_locked X xs') (layout_effective X xs')] st2))))"

section \<open>Pointer\<close>

definition ensure_pointer :: "'st virtual_input \<Rightarrow> ('st, object) input_result" where
  "ensure_pointer st = (case pointer st of
       Some p \<Rightarrow> (Ok p, st)
     | None \<Rightarrow> (case pointer_manager st of
           None \<Rightarrow> (Err (WlProtocolMissing ''zwlr_virtual_pointer_manager_v1''), st)
         | Some mg \<Rightarrow> (let p = vi_next st in
             (Ok p, (issue [CreatePointer p mg (seat st)] st)\<lparr>vi_next := Suc p, pointer := Some p\<rparr>))))"

text \<open>Every pointer operation is a group of requests on the pointer.\<close>

definition on_pointer :: "(object \<Rightarrow> wl_request list) \<Rightarrow> 'st virtual_input \<Rightarrow> ('st, unit) input_result" where
  "on_pointer rs st = (case ensure_pointer st of
       (Inl e, st1) \<Rightarrow> (Err e, st1)
     | (Inr p, st1) \<Rightarrow> (Ok (), issue (rs p) st1))"

definition vi_move :: "input_env \<Rightarrow> f64 \<Rightarrow> f64 \<Rightarrow> 'st virtual_input \<Rightarrow> ('st, unit) input_result" where
  "vi_move env dx dy = on_pointer (\<lambda>p. [Motion p (now_ms env) dx dy, PointerFrame p])"

definition vi_button :: "input_env \<Rightarrow> u32 \<Rightarrow> bool \<Rightarrow> 'st virtual_input \<Rightarrow> ('st, unit) input_result" where
  "vi_button env b press = on_pointer (\<lambda>p. [Button p (now_ms env) b press, PointerFrame p])"

definition vi_axis :: "input_env \<Rightarrow> bool \<Rightarrow> f64 \<Rightarrow> 'st virtual_input \<Rightarrow> ('st, unit) input_result" where
  "vi_axis env vertical steps st = (case discrete_notches steps of
       None \<Rightarrow> (Ok (), st)
     | Some discrete \<Rightarrow> (let val = Finite (of_int (sint discrete) * WHEEL_STEP_UNITS) in
         on_pointer (\<lambda>p. [AxisSourceWheel p, Axis p (now_ms env) vertical val,
                          AxisDiscrete p (now_ms env) vertical val discrete, PointerFrame p]) st))"

section \<open>Connection\<close>

definition mark_dead :: "'st virtual_input \<Rightarrow> 'st virtual_input" where
  "mark_dead st = st\<lparr>keyboard := None, pointer := None\<rparr>"

definition vi_flush :: "input_env \<Rightarrow> 'st virtual_input \<Rightarrow> ('st, unit) input_result" where
  "vi_flush env st = (case ie_protocol_error env of
       Some e \<Rightarrow> (Err (WlOther (''wayland connection dead (protocol error): '' @ e)), mark_dead st)
     | None \<Rightarrow> (case ie_flush env of
           Some e \<Rightarrow> (Err (WlOther (''wayland flush: '' @ e)), st)
         | None \<Rightarrow> (Ok (), st)))"

definition vi_drop :: "'st virtual_input \<Rightarrow> 'st virtual_input" where
  "vi_drop st = issue
     ((case keyboard st of Some k \<Rightarrow> [DestroyKeyboard k] | None \<Rightarrow> []) @
      (case pointer st of Some p \<Rightarrow> [DestroyPointer p] | None \<Rightarrow> []) @
      (case pointer_manager st of Some m \<Rightarrow> [DestroyPointerManager m] | None \<Rightarrow> [])) st"

datatype input_op =
    OpKey u32 bool
  | OpMove f64 f64
  | OpButton u32 bool
  | OpAxis bool f64
  | OpFlush

fun input_call :: "'st xkb \<Rightarrow> input_env \<Rightarrow> input_op \<Rightarrow> 'st virtual_input \<Rightarrow> ('st, unit) input_result" where
  "input_call X env (OpKey ks press) st = vi_key X env ks press st"
| "input_call X env (OpMove dx dy) st = vi_move env dx dy st"
| "input_call X env (OpButton b press) st = vi_button env b press st"
| "input_call X env (OpAxis vertical steps) st = vi_axis env vertical steps st"
| "input_call X env OpFlush st = vi_flush env st"

definition input_step :: "'st xkb \<Rightarrow> input_env \<times> input_op \<Rightarrow> 'st virtual_input \<Rightarrow> 'st virtual_input" where
  "input_step X c st = snd (input_call X (fst c) (snd c) st)"

section \<open>The protocols, as the compositor checks them\<close>

text \<open>
  What the protocols require of the sequence of requests: a request addresses a live object of the right
  interface and new objects have unused numbers; a keyboard has its keymap, in the declared size, before
  its first key; a key is followed at once by the modifiers it results in; and pointer events form
  groups, each on one pointer and closed by a frame, with nothing else in between.
\<close>

record wire =
  wr_objects :: "(object \<times> string) list"
  wr_mapped :: "object list"
  wr_due :: "object option"
  wr_open :: "object option"

definition wire_start :: wire where
  "wire_start = \<lparr>wr_objects = [], wr_mapped = [], wr_due = None, wr_open = None\<rparr>"

definition settled :: "wire \<Rightarrow> bool" where
  "settled w = (wr_due w = None \<and> wr_open w = None)"

definition is_obj :: "string \<Rightarrow> object \<Rightarrow> wire \<Rightarrow> bool" where
  "is_obj i k w = (map_of (wr_objects w) k = Some i)"

definition fresh_obj :: "object \<Rightarrow> wire \<Rightarrow> bool" where
  "fresh_obj k w = (map_of (wr_objects w) k = None)"

definition new_obj :: "string \<Rightarrow> object \<Rightarrow> wire \<Rightarrow> wire" where
  "new_obj i k w = w\<lparr>wr_objects := (k, i) # wr_objects w\<rparr>"

definition gone_obj :: "object \<Rightarrow> wire \<Rightarrow> wire" where
  "gone_obj k w = w\<lparr>wr_objects := AList.delete k (wr_objects w), wr_mapped := removeAll k (wr_mapped w)\<rparr>"

abbreviation "SEAT \<equiv> ''wl_seat''"
abbreviation "KEYBOARD_MANAGER \<equiv> ''zwp_virtual_keyboard_manager_v1''"
abbreviation "POINTER_MANAGER \<equiv> ''zwlr_virtual_pointer_manager_v1''"
abbreviation "KEYBOARD \<equiv> ''zwp_virtual_keyboard_v1''"
abbreviation "POINTER \<equiv> ''zwlr_virtual_pointer_v1''"

definition allow :: "bool \<Rightarrow> wire \<Rightarrow> wire option" where
  "allow b w = (if b then Some w else None)"

definition pointer_event :: "object \<Rightarrow> wire \<Rightarrow> wire option" where
  "pointer_event p w = allow (is_obj POINTER p w \<and> wr_due w = None \<and> wr_open w \<in> {None, Some p}) (w\<lparr>wr_open := Some p\<rparr>)"

fun wire_step :: "wl_request \<Rightarrow> wire \<Rightarrow> wire option" where
  "wire_step (BindGlobal k _ i _) w = allow (settled w \<and> fresh_obj k w) (new_obj i k w)"
| "wire_step (CreateKeyboard k m s) w =
     allow (settled w \<and> fresh_obj k w \<and> is_obj KEYBOARD_MANAGER m w \<and> is_obj SEAT s w) (new_obj KEYBOARD k w)"
| "wire_step (Keymap k f txt n) w =
     allow (settled w \<and> is_obj KEYBOARD k w \<and> f = 1 \<and> n = of_nat (length txt)) (w\<lparr>wr_mapped := k # wr_mapped w\<rparr>)"
| "wire_step (Key k _ _ s) w =
     allow (settled w \<and> is_obj KEYBOARD k w \<and> contains (wr_mapped w) k \<and> (s = 0 \<or> s = 1)) (w\<lparr>wr_due := Some k\<rparr>)"
| "wire_step (Modifiers k _ _ _ _) w = allow (wr_due w = Some k) (w\<lparr>wr_due := None\<rparr>)"
| "wire_step (CreatePointer p m s) w =
     allow (settled w \<and> fresh_obj p w \<and> is_obj POINTER_MANAGER m w \<and> (case s of None \<Rightarrow> True | Some k \<Rightarrow> is_obj SEAT k w))
       (new_obj POINTER p w)"
| "wire_step (Motion p _ _ _) w = pointer_event p w"
| "wire_step (Button p _ _ _) w = pointer_event p w"
| "wire_step (AxisSourceWheel p) w = pointer_event p w"
| "wire_step (Axis p _ _ _) w = pointer_event p w"
| "wire_step (AxisDiscrete p _ _ _ _) w = pointer_event p w"
| "wire_step (PointerFrame p) w = allow (wr_open w = Some p) (w\<lparr>wr_open := None\<rparr>)"
| "wire_step (DestroyKeyboard k) w = allow (settled w \<and> is_obj KEYBOARD k w) (gone_obj k w)"
| "wire_step (DestroyPointer p) w = allow (settled w \<and> is_obj POINTER p w) (gone_obj p w)"
| "wire_step (DestroyPointerManager m) w = allow (settled w \<and> is_obj POINTER_MANAGER m w) (gone_obj m w)"

fun wire_run :: "wl_request list \<Rightarrow> wire \<Rightarrow> wire option" where
  "wire_run [] w = Some w"
| "wire_run (r # rs) w = Option.bind (wire_step r w) (wire_run rs)"

lemma wire_run_append: "wire_run (rs @ rs') w = Option.bind (wire_run rs w) (wire_run rs')"
  by (induction rs arbitrary: w) (auto split: bind_split)

lemma contains_Cons [simp]: "contains (k # ks) k"
  by (simp add: contains_def)

lemma obj_simps [simp]:
  "is_obj i k (new_obj j l w) \<longleftrightarrow> (if k = l then i = j else is_obj i k w)"
  "is_obj i k (gone_obj l w) \<longleftrightarrow> k \<noteq> l \<and> is_obj i k w"
  "is_obj i k (w\<lparr>wr_mapped := ms\<rparr>) \<longleftrightarrow> is_obj i k w"
  "is_obj i k (w\<lparr>wr_due := d\<rparr>) \<longleftrightarrow> is_obj i k w"
  "is_obj i k (w\<lparr>wr_open := d\<rparr>) \<longleftrightarrow> is_obj i k w"
  "settled (new_obj j l w) = settled w" "settled (gone_obj l w) = settled w"
  "settled (w\<lparr>wr_mapped := ms\<rparr>) = settled w"
  "wr_mapped (new_obj j l w) = wr_mapped w"
  by (auto simp: is_obj_def new_obj_def gone_obj_def settled_def delete_conv')

section \<open>The client keeps to the protocols\<close>

text \<open>
  The handle and what the compositor knows: the objects the handle names are live, its keyboard has a
  keymap, and, as long as the connection has not died (\<^verbatim>\<open>tidy\<close>), no other keyboard or pointer exists.
\<close>

definition obeys :: "bool \<Rightarrow> 'st virtual_input \<Rightarrow> wire \<Rightarrow> bool" where
  "obeys tidy st w \<longleftrightarrow>
     wire_run (vi_sent st) wire_start = Some w \<and> settled w \<and>
     (\<forall>i k. is_obj i k w \<longrightarrow> k < vi_next st) \<and>
     (\<forall>k. seat st = Some k \<longrightarrow> is_obj SEAT k w) \<and>
     (\<forall>k. keyboard_manager st = Some k \<longrightarrow> is_obj KEYBOARD_MANAGER k w) \<and>
     (\<forall>k. pointer_manager st = Some k \<longrightarrow> is_obj POINTER_MANAGER k w) \<and>
     (\<forall>k. keyboard st = Some k \<longrightarrow> is_obj KEYBOARD k w \<and> contains (wr_mapped w) k) \<and>
     (\<forall>k. pointer st = Some k \<longrightarrow> is_obj POINTER k w) \<and>
     (tidy \<longrightarrow> (\<forall>k. is_obj KEYBOARD k w = (keyboard st = Some k)) \<and> (\<forall>k. is_obj POINTER k w = (pointer st = Some k)))"

text \<open>The parts of the handle that the wire depends on.\<close>

lemma obeys_cong:
  assumes "vi_sent st' = vi_sent st" "vi_next st' = vi_next st" "seat st' = seat st"
    "keyboard_manager st' = keyboard_manager st" "pointer_manager st' = pointer_manager st"
    "keyboard st' = keyboard st" "pointer st' = pointer st"
  shows "obeys tidy st' w = obeys tidy st w"
  unfolding obeys_def assms ..

lemma obeys_simps [simp]:
  "obeys tidy (st\<lparr>key_state := x\<rparr>) w = obeys tidy st w"
  "obeys tidy (st\<lparr>keymap := y\<rparr>) w = obeys tidy st w"
  "obeys tidy (st\<lparr>keysym_cache := z\<rparr>) w = obeys tidy st w"
  by (rule obeys_cong; simp)+

lemma issue_simps [simp]:
  "vi_sent (issue rs st) = vi_sent st @ rs" "vi_next (issue rs st) = vi_next st"
  "seat (issue rs st) = seat st" "keyboard_manager (issue rs st) = keyboard_manager st"
  "pointer_manager (issue rs st) = pointer_manager st" "keyboard (issue rs st) = keyboard st"
  "pointer (issue rs st) = pointer st" "keymap (issue rs st) = keymap st"
  "key_state (issue rs st) = key_state st" "keysym_cache (issue rs st) = keysym_cache st"
  by (simp_all add: issue_def)

lemma obeys_fresh: "obeys tidy st w \<Longrightarrow> fresh_obj (vi_next st) w"
  unfolding fresh_obj_def obeys_def is_obj_def
  by (cases "map_of (wr_objects w) (vi_next st)") (simp, blast)

text \<open>A group of requests that leaves the objects alone and the wire settled.\<close>

lemma obeys_issue:
  assumes "obeys tidy st w" "wire_run rs w = Some w"
  shows "obeys tidy (issue rs st) w"
  using assms by (simp add: obeys_def wire_run_append)

lemma keyboard_group:
  assumes "settled w" "is_obj KEYBOARD k w" "contains (wr_mapped w) k" "s = 0 \<or> s = 1"
  shows "wire_run [Key k t c s, Modifiers k a b l g] w = Some w"
  using assms by (auto simp: allow_def settled_def)

lemma pointer_group:
  assumes "settled w" "is_obj POINTER p w"
  shows "wire_run [Motion p t dx dy, PointerFrame p] w = Some w"
    "wire_run [Button p t b s, PointerFrame p] w = Some w"
    "wire_run [AxisSourceWheel p, Axis p t v x, AxisDiscrete p t v x d, PointerFrame p] w = Some w"
  using assms by (simp_all add: allow_def settled_def pointer_event_def)

lemma obeys_ensure_keymap:
  "obeys tidy st w \<Longrightarrow> obeys tidy (snd (ensure_keymap X env st)) w"
  by (auto simp: ensure_keymap_def split: option.splits)

lemma obeys_keycode:
  "obeys tidy st w \<Longrightarrow> obeys tidy (snd (keycode_for_keysym X env ks st)) w"
  using obeys_ensure_keymap [of tidy st w X env]
  by (auto simp: keycode_for_keysym_def Let_def split: option.splits sum.splits prod.splits)

lemma keymap_rest:
  assumes "ensure_keymap X env st = (r, st')"
  shows "vi_sent st' = vi_sent st" "vi_next st' = vi_next st" "seat st' = seat st"
    "keyboard_manager st' = keyboard_manager st" "pointer_manager st' = pointer_manager st"
    "keyboard st' = keyboard st" "pointer st' = pointer st" "keysym_cache st' = keysym_cache st"
  using assms by (auto simp: ensure_keymap_def split: option.splits)

lemma obeys_unused: "obeys tidy st w \<Longrightarrow> \<not> is_obj i (vi_next st) w"
  unfolding obeys_def by blast

lemma obeys_create_keyboard:
  assumes "obeys tidy st w" "keyboard st = None" "keyboard_manager st = Some m" "seat st = Some s"
  shows "obeys tidy ((issue [CreateKeyboard (vi_next st) m s, Keymap (vi_next st) KEYMAP_FORMAT_XKB_V1 txt (of_nat (length txt))] st)
      \<lparr>vi_next := Suc (vi_next st), keyboard := Some (vi_next st)\<rparr>)
    ((new_obj KEYBOARD (vi_next st) w)\<lparr>wr_mapped := vi_next st # wr_mapped w\<rparr>)"
  using assms obeys_fresh [OF assms(1)] obeys_unused [OF assms(1)]
  by (auto simp: obeys_def wire_run_append allow_def KEYMAP_FORMAT_XKB_V1_def less_Suc_eq)

lemma obeys_create_pointer:
  assumes "obeys tidy st w" "pointer st = None" "pointer_manager st = Some m"
  shows "obeys tidy ((issue [CreatePointer (vi_next st) m (seat st)] st)
      \<lparr>vi_next := Suc (vi_next st), pointer := Some (vi_next st)\<rparr>) (new_obj POINTER (vi_next st) w)"
  using assms obeys_fresh [OF assms(1)] obeys_unused [OF assms(1)]
  by (auto simp: obeys_def wire_run_append allow_def less_Suc_eq split: option.splits)

lemma obeys_ensure_keyboard:
  assumes "obeys tidy st w" "ensure_keyboard X env st = (r, st')"
  shows "\<exists>w'. obeys tidy st' w' \<and> (\<forall>k. r = Ok k \<longrightarrow> keyboard st' = Some k)"
proof (cases "keyboard st")
  case Some
  then show ?thesis using assms by (auto simp: ensure_keyboard_def)
next
  case None
  note km = keymap_rest [of X env st]
  show ?thesis
    using assms(2) None assms(1) obeys_ensure_keymap [OF assms(1), of X env]
    by (auto simp: ensure_keyboard_def Let_def km split: option.splits sum.splits prod.splits
        intro!: exI obeys_create_keyboard simp flip: km)
qed

lemma obeys_on_pointer:
  assumes "obeys tidy st w" "\<And>w p. settled w \<Longrightarrow> is_obj POINTER p w \<Longrightarrow> wire_run (rs p) w = Some w"
  shows "\<exists>w'. obeys tidy (snd (on_pointer rs st)) w'"
proof -
  have *: "\<exists>w'. obeys tidy (snd (ensure_pointer st)) w' \<and> (\<forall>p. fst (ensure_pointer st) = Ok p \<longrightarrow> pointer (snd (ensure_pointer st)) = Some p)"
    using assms(1) obeys_create_pointer [OF assms(1)]
    by (auto simp: ensure_pointer_def Let_def split: option.splits)
  then obtain w' where w': "obeys tidy (snd (ensure_pointer st)) w'"
    "\<forall>p. fst (ensure_pointer st) = Ok p \<longrightarrow> pointer (snd (ensure_pointer st)) = Some p" by blast
  show ?thesis
  proof (cases "fst (ensure_pointer st)")
    case (Inl e)
    then show ?thesis using w' by (auto simp: on_pointer_def split: prod.splits)
  next
    case (Inr p)
    then have "settled w'" "is_obj POINTER p w'" using w' by (auto simp: obeys_def)
    then have "obeys tidy (issue (rs p) (snd (ensure_pointer st))) w'"
      by (intro obeys_issue w'(1) assms(2))
    then show ?thesis using Inr by (auto simp: on_pointer_def split: prod.splits)
  qed
qed

lemma obeys_key:
  assumes "obeys tidy st w"
  shows "\<exists>w'. obeys tidy (snd (vi_key X env ks press st)) w'"
proof -
  obtain r st1 where kc: "keycode_for_keysym X env ks st = (r, st1)" by fastforce
  have s1: "obeys tidy st1 w" using obeys_keycode [OF assms, of X env ks] kc by simp
  have "snd (vi_key X env ks press st) = st1 \<or> (\<exists>code xs. r = Ok (Some code) \<and> key_state st1 = Some xs)"
    using kc by (simp add: vi_key_def split: sum.splits option.splits)
  then consider (stop) "snd (vi_key X env ks press st) = st1"
    | (go) code xs where "r = Ok (Some code)" "key_state st1 = Some xs" by blast
  then show ?thesis
  proof cases
    case stop
    then show ?thesis using s1 by auto
  next
    case go
    let ?st = "st1\<lparr>key_state := Some (update_key X code press xs)\<rparr>"
    obtain r2 st2 where ek: "ensure_keyboard X env ?st = (r2, st2)" by fastforce
    obtain w' where w': "obeys tidy st2 w'" "\<forall>k. r2 = Ok k \<longrightarrow> keyboard st2 = Some k"
      using obeys_ensure_keyboard [OF _ ek, of tidy w] s1 by auto
    show ?thesis
    proof (cases r2)
      case (Inl e)
      then show ?thesis using go kc ek w'(1) by (auto simp: vi_key_def Let_def)
    next
      case (Inr k)
      then have "settled w'" "is_obj KEYBOARD k w'" "contains (wr_mapped w') k" using w' by (auto simp: obeys_def)
      then have "obeys tidy (snd (vi_key X env ks press st)) w'"
        using go kc ek Inr w'(1)
        by (auto simp: vi_key_def Let_def KEY_STATE_PRESSED_def KEY_STATE_RELEASED_def
            intro!: obeys_issue keyboard_group)
      then show ?thesis ..
    qed
  qed
qed

lemma obeys_mark_dead: "obeys tidy st w \<Longrightarrow> obeys False (mark_dead st) w"
  by (auto simp: obeys_def mark_dead_def)

lemma obeys_step:
  assumes "obeys tidy st w" "tidy \<longrightarrow> ie_protocol_error (fst c) = None"
  shows "\<exists>w'. obeys tidy (input_step X c st) w'"
proof -
  obtain env op where c: "c = (env, op)" by fastforce
  have "\<exists>w'. obeys tidy (snd (input_call X env op st)) w'"
  proof (cases op)
    case OpKey
    then show ?thesis using obeys_key [OF assms(1)] by simp
  next
    case OpMove
    then show ?thesis using obeys_on_pointer [OF assms(1) pointer_group(1)] by (simp add: vi_move_def)
  next
    case OpButton
    then show ?thesis using obeys_on_pointer [OF assms(1) pointer_group(2)] by (simp add: vi_button_def)
  next
    case OpAxis
    then show ?thesis using obeys_on_pointer [OF assms(1) pointer_group(3)] assms(1)
      by (auto simp: vi_axis_def Let_def split: option.splits)
  next
    case OpFlush
    then show ?thesis using assms c obeys_mark_dead [OF assms(1)]
      by (auto simp: vi_flush_def split: option.splits)
  qed
  then show ?thesis by (simp add: input_step_def c)
qed

interpretation vinput: guarded_system "input_step X" "\<lambda>c _. tidy \<longrightarrow> ie_protocol_error (fst c) = None"
  "\<lambda>st. \<exists>w. obeys tidy st w"
  by unfold_locales (blast intro: obeys_step)

lemma obeys_registry:
  assumes "obeys tidy st w"
  shows "\<exists>w'. obeys tidy (vi_registry ev st) w'"
proof (cases ev)
  case (Global name i version)
  have "obeys tidy (vi_registry ev st) (if i \<in> {SEAT, KEYBOARD_MANAGER, POINTER_MANAGER} then new_obj i (vi_next st) w else w)"
    using assms obeys_fresh [OF assms] obeys_unused [OF assms]
    by (auto simp: Global vi_registry_def Let_def obeys_def wire_run_append allow_def less_Suc_eq)
  then show ?thesis ..
qed (use assms in \<open>auto simp: vi_registry_def\<close>)

lemma obeys_connected:
  assumes "vi_connect env conn r1 r2 = Ok st"
  shows "\<exists>w. obeys tidy st w"
proof -
  have "obeys tidy vi_new wire_start"
    by (simp add: obeys_def vi_new_def wire_start_def settled_def is_obj_def)
  then have "\<exists>w. obeys tidy (fold vi_registry evs vi_new) w" for evs
    by (induction evs rule: rev_induct) (auto intro: obeys_registry)
  from this [of "fst r1 @ fst r2"] show ?thesis
    using assms by (force simp: vi_connect_def Let_def split: if_splits option.splits)
qed

text \<open>Dropping the handle destroys its objects, in an order the protocols allow.\<close>

lemma obeys_drop:
  assumes "obeys tidy st w"
  shows "\<exists>w'. wire_run (vi_sent (vi_drop st)) wire_start = Some w' \<and> settled w' \<and>
     (tidy \<longrightarrow> (\<forall>k. \<not> is_obj KEYBOARD k w' \<and> \<not> is_obj POINTER k w'))"
proof -
  have d: "is_obj i k w \<Longrightarrow> is_obj j k w \<Longrightarrow> i = j" for i j k by (simp add: is_obj_def)
  have "keyboard st = Some k \<Longrightarrow> pointer st \<noteq> Some k" "pointer_manager st = Some k \<Longrightarrow> keyboard st \<noteq> Some k"
    "pointer_manager st = Some k \<Longrightarrow> pointer st \<noteq> Some k" for k
    using assms d [of KEYBOARD k POINTER] d [of KEYBOARD k POINTER_MANAGER] d [of POINTER k POINTER_MANAGER]
    by (auto simp: obeys_def)
  then show ?thesis
    using assms by (cases "keyboard st"; cases "pointer st"; cases "pointer_manager st")
      (simp_all add: obeys_def vi_drop_def wire_run_append allow_def, blast+)
qed

text \<open>C34. Virtual input keeps to the Wayland protocols: after every sequence of key, pointer, scroll and
  flush calls on a connected handle, whatever fails in between, and dropping the handle at the end, the
  compositor has received only requests the protocols allow in that order: on live objects of the right
  interface, a keymap before the first key of a keyboard, the modifiers after every key, every group of
  pointer events closed by its frame.  If the connection did not die, no keyboard and no pointer is left.\<close>

theorem virtual_input_keeps_protocol:
  assumes "vi_connect env conn r1 r2 = Ok st"
  shows "\<exists>w. wire_run (vi_sent (vi_drop (fold (input_step X) cs st))) wire_start = Some w \<and> settled w \<and>
     (list_all (\<lambda>c. ie_protocol_error (fst c) = None) cs \<longrightarrow>
        (\<forall>k. \<not> is_obj KEYBOARD k w \<and> \<not> is_obj POINTER k w))"
proof -
  let ?tidy = "list_all (\<lambda>c. ie_protocol_error (fst c) = None) cs"
  have "guarded (input_step X) (\<lambda>c _. ?tidy \<longrightarrow> ie_protocol_error (fst c) = None) cs st"
    by (rule guarded_all) (simp add: list_all_iff)
  then obtain w where "obeys ?tidy (fold (input_step X) cs st) w"
    using vinput.run_inv [OF obeys_connected [OF assms]] by blast
  from obeys_drop [OF this] show ?thesis .
qed

section \<open>What is typed is what arrives\<close>

text \<open>
  The keyboard events on the wire, and what a sequence of calls ought to put there: for every keysym of
  the keymap its first keycode and then the modifiers of a keyboard that has seen the same keys.
\<close>

datatype kbd_event = KeyEvent u32 u32 u32 | ModsEvent u32 u32 u32 u32

definition keyboard_view :: "wl_request list \<Rightarrow> kbd_event list" where
  "keyboard_view rs = concat (map (\<lambda>r. case r of Key _ t c s \<Rightarrow> [KeyEvent t c s] | Modifiers _ d l k g \<Rightarrow> [ModsEvent d l k g] | _ \<Rightarrow> []) rs)"

definition pressed_code :: "xkb_keymap \<Rightarrow> input_op \<Rightarrow> (u32 \<times> bool) option" where
  "pressed_code km op = (case op of OpKey ks press \<Rightarrow> map_option (\<lambda>code. (code, press)) (first_keycode km ks) | _ \<Rightarrow> None)"

definition track :: "'st xkb \<Rightarrow> xkb_keymap \<Rightarrow> input_env \<times> input_op \<Rightarrow> 'st \<Rightarrow> 'st" where
  "track X km c xs = (case pressed_code km (snd c) of None \<Rightarrow> xs | Some (code, press) \<Rightarrow> update_key X code press xs)"

definition typed :: "'st xkb \<Rightarrow> xkb_keymap \<Rightarrow> input_env \<times> input_op \<Rightarrow> 'st \<Rightarrow> kbd_event list" where
  "typed X km c xs = (case pressed_code km (snd c) of None \<Rightarrow> [] | Some (code, press) \<Rightarrow>
     (let xs' = update_key X code press xs in
       [KeyEvent (now_ms (fst c)) code (if press then 1 else 0),
        ModsEvent (mods_depressed X xs') (mods_latched X xs') (mods_locked X xs') (layout_effective X xs')]))"

fun typed_all :: "'st xkb \<Rightarrow> xkb_keymap \<Rightarrow> (input_env \<times> input_op) list \<Rightarrow> 'st \<Rightarrow> kbd_event list" where
  "typed_all X km [] xs = []"
| "typed_all X km (c # cs) xs = typed X km c xs @ typed_all X km cs (track X km c xs)"

lemma keyboard_view_simps [simp]:
  "keyboard_view [] = []"
  "keyboard_view (rs @ rs') = keyboard_view rs @ keyboard_view rs'"
  "keyboard_view (Key k t c s # rs) = KeyEvent t c s # keyboard_view rs"
  "keyboard_view (Modifiers k d l m g # rs) = ModsEvent d l m g # keyboard_view rs"
  "keyboard_view (CreateKeyboard k m' s' # rs) = keyboard_view rs"
  "keyboard_view (Keymap k f txt n # rs) = keyboard_view rs"
  "keyboard_view (CreatePointer p m' s'' # rs) = keyboard_view rs"
  "keyboard_view (Motion p t dx dy # rs) = keyboard_view rs"
  "keyboard_view (Button p t b on # rs) = keyboard_view rs"
  "keyboard_view (AxisSourceWheel p # rs) = keyboard_view rs"
  "keyboard_view (Axis p t v x # rs) = keyboard_view rs"
  "keyboard_view (AxisDiscrete p t v x n' # rs) = keyboard_view rs"
  "keyboard_view (PointerFrame p # rs) = keyboard_view rs"
  "keyboard_view (BindGlobal k n'' i v' # rs) = keyboard_view rs"
  by (simp_all add: keyboard_view_def)

definition usable :: "xkb_keymap \<Rightarrow> input_env \<Rightarrow> bool" where
  "usable km env = (ie_compile env = Some km \<and> ie_tempfile env = None)"

text \<open>
  The handle and a keyboard in state \<^verbatim>\<open>xs\<close>: before its first use there is neither keymap nor memo; later the
  tracked state is that of the keyboard and the memo agrees with the keymap.
\<close>

definition synced :: "'st xkb \<Rightarrow> xkb_keymap \<Rightarrow> 'st \<Rightarrow> 'st virtual_input \<Rightarrow> bool" where
  "synced X km xs st \<longleftrightarrow> keyboard_manager st \<noteq> None \<and> seat st \<noteq> None \<and>
     (keymap st = None \<and> keysym_cache st = [] \<and> xs = state_new X km \<or> keymap st = Some km \<and> key_state st = Some xs) \<and>
     (\<forall>ks r. map_of (keysym_cache st) ks = Some r \<longrightarrow> r = first_keycode km ks)"

lemma synced_issue [simp]: "synced X km xs (issue rs st) = synced X km xs st"
  by (simp add: synced_def)

lemma synced_keymap:
  assumes "synced X km xs st" "usable km env"
  shows "ensure_keymap X env st = (Ok km, st\<lparr>keymap := Some km, key_state := Some xs\<rparr>)"
  using assms by (auto simp: synced_def usable_def ensure_keymap_def)

lemma synced_keycode:
  assumes "synced X km xs st" "usable km env"
  shows "\<exists>cache. keycode_for_keysym X env ks st =
      (Ok (first_keycode km ks), st\<lparr>keymap := Some km, key_state := Some xs, keysym_cache := cache\<rparr>) \<and>
    synced X km xs (st\<lparr>keymap := Some km, key_state := Some xs, keysym_cache := cache\<rparr>)"
proof (cases "map_of (keysym_cache st) ks")
  case None
  let ?cache = "AList.update ks (first_keycode km ks) (keysym_cache st)"
  have "synced X km xs (st\<lparr>keymap := Some km, key_state := Some xs, keysym_cache := ?cache\<rparr>)"
    using assms by (simp add: synced_def update_conv')
  moreover have "keycode_for_keysym X env ks st =
      (Ok (first_keycode km ks), st\<lparr>keymap := Some km, key_state := Some xs, keysym_cache := ?cache\<rparr>)"
    using None by (simp add: keycode_for_keysym_def Let_def synced_keymap [OF assms])
  ultimately show ?thesis by blast
next
  case (Some r)
  then have known: "keymap st = Some km" "key_state st = Some xs" "r = first_keycode km ks"
    using assms by (auto simp: synced_def)
  then have "st\<lparr>keymap := Some km, key_state := Some xs, keysym_cache := keysym_cache st\<rparr> = st" by (cases st) simp
  moreover have "keycode_for_keysym X env ks st = (Ok (first_keycode km ks), st)"
    using Some known by (simp add: keycode_for_keysym_def)
  ultimately show ?thesis using assms(1) by metis
qed

lemma synced_keyboard:
  assumes "synced X km xs st" "usable km env"
  shows "\<exists>k st'. ensure_keyboard X env st = (Ok k, st') \<and> synced X km xs st' \<and>
     keyboard_view (vi_sent st') = keyboard_view (vi_sent st)"
  using assms synced_keymap [OF assms]
  by (auto simp: ensure_keyboard_def synced_def usable_def Let_def split: option.splits)

lemma synced_track:
  assumes "synced X km xs st" "keymap st = Some km"
  shows "synced X km xs' (st\<lparr>key_state := Some xs'\<rparr>)"
  using assms by (auto simp: synced_def)

lemma synced_on_pointer:
  assumes "synced X km xs st" "\<And>p. keyboard_view (rs p) = []"
  shows "synced X km xs (snd (on_pointer rs st)) \<and> keyboard_view (vi_sent (snd (on_pointer rs st))) = keyboard_view (vi_sent st)"
  using assms by (auto simp: on_pointer_def ensure_pointer_def Let_def synced_def split: option.splits)

lemma synced_key:
  assumes "synced X km xs st" "usable km env"
  shows "synced X km (track X km (env, OpKey ks press) xs) (snd (vi_key X env ks press st)) \<and>
    keyboard_view (vi_sent (snd (vi_key X env ks press st))) =
      keyboard_view (vi_sent st) @ typed X km (env, OpKey ks press) xs"
proof -
  obtain cache where kc: "keycode_for_keysym X env ks st =
      (Ok (first_keycode km ks), st\<lparr>keymap := Some km, key_state := Some xs, keysym_cache := cache\<rparr>)"
    and s1: "synced X km xs (st\<lparr>keymap := Some km, key_state := Some xs, keysym_cache := cache\<rparr>)"
    using synced_keycode [OF assms] by blast
  show ?thesis
  proof (cases "first_keycode km ks")
    case None
    then show ?thesis using kc s1 by (simp add: vi_key_def track_def typed_def pressed_code_def)
  next
    case (Some code)
    let ?xs = "update_key X code press xs"
    let ?st = "st\<lparr>keymap := Some km, key_state := Some xs, keysym_cache := cache\<rparr>\<lparr>key_state := Some ?xs\<rparr>"
    have "synced X km ?xs ?st" by (rule synced_track [OF s1]) simp
    then obtain k st' where "ensure_keyboard X env ?st = (Ok k, st')" "synced X km ?xs st'"
      "keyboard_view (vi_sent st') = keyboard_view (vi_sent st)"
      using synced_keyboard [OF _ assms(2), of X ?xs ?st] by auto
    then show ?thesis using kc Some
      by (simp add: vi_key_def Let_def track_def typed_def pressed_code_def KEY_STATE_PRESSED_def KEY_STATE_RELEASED_def)
  qed
qed

lemma synced_step:
  assumes "synced X km xs st" "usable km (fst c)"
  shows "synced X km (track X km c xs) (input_step X c st) \<and>
    keyboard_view (vi_sent (input_step X c st)) = keyboard_view (vi_sent st) @ typed X km c xs"
proof -
  obtain env op where c: "c = (env, op)" by fastforce
  show ?thesis
  proof (cases op)
    case OpKey
    then show ?thesis using synced_key [OF assms(1)] assms(2) by (simp add: input_step_def c)
  next
    case OpFlush
    then show ?thesis using assms(1)
      by (auto simp: input_step_def c vi_flush_def mark_dead_def track_def typed_def pressed_code_def synced_def split: option.splits)
  qed (use synced_on_pointer [OF assms(1)] assms(1) in
      \<open>auto simp: input_step_def c vi_move_def vi_button_def vi_axis_def Let_def track_def typed_def pressed_code_def split: option.splits\<close>)
qed

lemma synced_run:
  assumes "synced X km xs st" "list_all (\<lambda>c. usable km (fst c)) cs"
  shows "keyboard_view (vi_sent (fold (input_step X) cs st)) = keyboard_view (vi_sent st) @ typed_all X km cs xs"
  using assms
proof (induction cs arbitrary: st xs)
  case (Cons c cs)
  then have "synced X km (track X km c xs) (input_step X c st)"
    "keyboard_view (vi_sent (input_step X c st)) = keyboard_view (vi_sent st) @ typed X km c xs"
    using synced_step [of X km xs st c] by simp_all
  then show ?case using Cons.IH [of "track X km c xs" "input_step X c st"] Cons.prems by simp
qed simp

lemma registry_rest:
  "keymap (fold vi_registry evs st) = keymap st \<and> keysym_cache (fold vi_registry evs st) = keysym_cache st \<and>
   keyboard_view (vi_sent (fold vi_registry evs st)) = keyboard_view (vi_sent st)"
  by (induction evs arbitrary: st) (auto simp: vi_registry_def Let_def split: registry_event.splits)

text \<open>A session with two keys: the first changes the modifiers, the second is reached by a memoised lookup later.\<close>

definition demo_keymap :: xkb_keymap where
  "demo_keymap = \<lparr>km_keys = [(50, [65505]), (38, [97]), (39, [115, 97])], km_text = [120, 107, 98]\<rparr>"

definition demo_xkb :: "u32 xkb" where
  "demo_xkb = \<lparr>state_new = (\<lambda>_. 0), update_key = (\<lambda>code press m. if code = 50 then (if press then 1 else 0) else m),
     mods_depressed = (\<lambda>m. m), mods_latched = (\<lambda>_. 0), mods_locked = (\<lambda>_. 0), layout_effective = (\<lambda>_. 0)\<rparr>"

definition demo_ie :: "nat \<Rightarrow> input_env" where
  "demo_ie t = \<lparr>ie_elapsed = t, ie_compile = Some demo_keymap, ie_tempfile = None, ie_protocol_error = None, ie_flush = None\<rparr>"

definition demo_calls :: "(input_env \<times> input_op) list" where
  "demo_calls = [(demo_ie 1, OpKey 65505 True), (demo_ie 2, OpKey 97 True), (demo_ie 3, OpMove (Finite 3) NaN),
     (demo_ie 4, OpKey 5 True), (demo_ie 5, OpKey 97 False), (demo_ie 6, OpAxis True (Finite (5/2))), (demo_ie 7, OpFlush)]"

definition demo_globals :: "registry_event list" where
  "demo_globals = [Global 1 SEAT 9, Global 2 KEYBOARD_MANAGER 1, GlobalRemove 3, Global 4 POINTER_MANAGER 2]"

definition demo_handle :: "u32 virtual_input" where
  "demo_handle = fold vi_registry demo_globals vi_new"

lemma demo_connected:
  "vi_connect (\<lambda>k. if k = ''WAYLAND_DISPLAY'' then Some ''wayland-0'' else None) None (demo_globals, None) ([], None) =
     Ok demo_handle"
  by (simp add: vi_connect_def has_wayland_env_def demo_handle_def demo_globals_def vi_registry_def vi_new_def issue_def Let_def)

theorem virtual_input_keeps_protocol_witness:
  "\<exists>w. wire_run (vi_sent (vi_drop (fold (input_step demo_xkb) demo_calls demo_handle))) wire_start = Some w \<and> settled w \<and>
     (\<forall>k. \<not> is_obj KEYBOARD k w \<and> \<not> is_obj POINTER k w)"
  using virtual_input_keeps_protocol [OF demo_connected, of demo_xkb demo_calls]
  by (simp add: demo_calls_def demo_ie_def)


text \<open>
  The tracked modifiers change before the keyboard is there: a key that fails for want of a keyboard
  still counts as pressed for every later key.
\<close>

lemma failed_key_changes_modifiers:
  assumes "keyboard_manager st = None" "keyboard st = None" "keymap st = Some km" "key_state st = Some xs"
    "keysym_cache st = []" "first_keycode km ks = Some code"
  shows "fst (vi_key X env ks press st) = Err (WlProtocolMissing ''zwp_virtual_keyboard_manager_v1'')"
    "key_state (snd (vi_key X env ks press st)) = Some (update_key X code press xs)"
  using assms by (simp_all add: vi_key_def keycode_for_keysym_def ensure_keymap_def ensure_keyboard_def Let_def)

text \<open>After a fatal error of the connection the calls succeed again, on new objects of the dead connection.\<close>

lemma dead_connection_accepts_input:
  assumes "ie_protocol_error env = Some e" "pointer_manager st \<noteq> None"
  shows "fst (vi_flush env st) \<noteq> Ok ()" "fst (vi_move env dx dy (snd (vi_flush env st))) = Ok ()"
  using assms by (auto simp: vi_flush_def vi_move_def on_pointer_def ensure_pointer_def mark_dead_def Let_def)

section \<open>Scrolling\<close>

text \<open>A scroll call sends between one and the limits of an \<^verbatim>\<open>i32\<close> in notches, the nearest integer inside them.\<close>

lemma notches_finite:
  "discrete_notches (Finite q) =
     (if round_away q = 0 then None else Some (word_of_int (max I32_MIN (min I32_MAX (round_away q)))))"
proof -
  have trunc: "(if 0 \<le> q' then \<lfloor>q'\<rfloor> else - \<lfloor>- q'\<rfloor>) = n" if "q' = of_int n" for q' :: rat and n
    using that by (simp flip: of_int_minus)
  have clamp: "max (of_int a) (min (of_int b) (of_int c)) = (of_int (max a (min b c)) :: rat)" for a b c
    by (simp add: of_int_max of_int_min)
  show ?thesis
    unfolding discrete_notches_def Let_def f64_round.simps f64_clamp.simps as_i32.simps clamp trunc [OF refl]
    by (auto simp: I32_MIN_def I32_MAX_def)
qed

section \<open>Input through the portal\<close>

text \<open>
  \<^verbatim>\<open>PortalInput\<close>: every call goes to the portal and is answered before the method returns.  The answer of
  the portal to a call is an argument: the error, if any.  The log holds the calls in order.
\<close>

datatype portal_call =
    CreateSession
  | SelectDevices bool bool
  | StartSession
  | NotifyKeysym "32 word" bool
  | NotifyMotion f64 f64
  | NotifyButton "32 word" bool
  | NotifyAxisDiscrete bool "32 word"
  | CloseSession

record portal_input =
  pi_log :: "portal_call list"
  pi_session :: bool
  pi_keyboard :: bool
  pi_pointer :: bool

definition PORTAL :: string where
  "PORTAL = ''org.freedesktop.portal.RemoteDesktop''"

definition portal_err :: "string \<Rightarrow> string \<Rightarrow> wl_error" where
  "portal_err stage e = WlOther (''remote-desktop portal '' @ stage @ '': '' @ e)"

text \<open>The bus connection: it stands, it is refused, or five seconds pass.\<close>

datatype bus_answer = BusOk | BusError string | BusTimeout

definition probe :: "bus_answer \<Rightarrow> wl_error + bool" where
  "probe bus = Ok (bus = BusOk)"

record portal_env =
  pe_bus :: bus_answer
  pe_create :: "string option"
  pe_select :: "string option"
  pe_start :: "string option"
  pe_response :: "string + bool \<times> bool"

definition portal_connect :: "portal_env \<Rightarrow> (wl_error + portal_input) \<times> portal_call list" where
  "portal_connect env = (case pe_bus env of
       BusError _ \<Rightarrow> (Err (WlProtocolMissing PORTAL), [])
     | BusTimeout \<Rightarrow> (Err (WlOther (PORTAL @ '' connect timed out (no session bus?)'')), [])
     | BusOk \<Rightarrow> (case pe_create env of Some e \<Rightarrow> (Err (portal_err ''CreateSession'' e), [CreateSession]) | None \<Rightarrow>
         (let calls = [CreateSession, SelectDevices True True] in
          case pe_select env of Some e \<Rightarrow> (Err (portal_err ''SelectDevices'' e), calls) | None \<Rightarrow>
         (case pe_start env of Some e \<Rightarrow> (Err (portal_err ''Start'' e), calls @ [StartSession]) | None \<Rightarrow>
         (case pe_response env of Inl e \<Rightarrow> (Err (portal_err ''start response'' e), calls @ [StartSession])
          | Inr (kb, pt) \<Rightarrow>
              (Ok \<lparr>pi_log = calls @ [StartSession], pi_session = True, pi_keyboard = kb, pi_pointer = pt\<rparr>, calls @ [StartSession]))))))"

definition require_device :: "bool \<Rightarrow> string \<Rightarrow> wl_error + unit" where
  "require_device granted what = (if granted then Ok ()
     else Err (WlProtocolMissing (PORTAL @ '': '' @ what @ '' access not granted in the Start response'')))"

definition active_session :: "portal_input \<Rightarrow> wl_error + unit" where
  "active_session p = (if pi_session p then Ok () else Err (WlOther ''internal: remote-desktop session already closed''))"

definition narrow_i32 :: "u32 \<Rightarrow> string \<Rightarrow> wl_error + 32 word" where
  "narrow_i32 v what = (if unat v < 2 ^ 31 then Ok v
     else Err (WlOther (what @ '' '' @ show_hex v @ '' exceeds the portal's i32 range'')))"

text \<open>One notification: it reaches the portal if the session is active, and the answer becomes the result.\<close>

definition notify :: "portal_call \<Rightarrow> string \<Rightarrow> string option \<Rightarrow> portal_input \<Rightarrow> (wl_error + unit) \<times> portal_input" where
  "notify call stage answer p = (case active_session p of Inl e \<Rightarrow> (Err e, p) | Inr _ \<Rightarrow>
     ((case answer of Some e \<Rightarrow> Err (portal_err stage e) | None \<Rightarrow> Ok ()), p\<lparr>pi_log := pi_log p @ [call]\<rparr>))"

definition portal_key :: "string option \<Rightarrow> u32 \<Rightarrow> bool \<Rightarrow> portal_input \<Rightarrow> (wl_error + unit) \<times> portal_input" where
  "portal_key answer ks press p = (case require_device (pi_keyboard p) ''keyboard'' of Inl e \<Rightarrow> (Err e, p) | Inr _ \<Rightarrow>
     (case narrow_i32 ks ''keysym'' of Inl e \<Rightarrow> (Err e, p) | Inr k \<Rightarrow>
        notify (NotifyKeysym k press) ''NotifyKeyboardKeysym'' answer p))"

definition portal_move :: "string option \<Rightarrow> f64 \<Rightarrow> f64 \<Rightarrow> portal_input \<Rightarrow> (wl_error + unit) \<times> portal_input" where
  "portal_move answer dx dy p = (case require_device (pi_pointer p) ''pointer'' of Inl e \<Rightarrow> (Err e, p) | Inr _ \<Rightarrow>
     notify (NotifyMotion dx dy) ''NotifyPointerMotion'' answer p)"

definition portal_button :: "string option \<Rightarrow> u32 \<Rightarrow> bool \<Rightarrow> portal_input \<Rightarrow> (wl_error + unit) \<times> portal_input" where
  "portal_button answer b press p = (case require_device (pi_pointer p) ''pointer'' of Inl e \<Rightarrow> (Err e, p) | Inr _ \<Rightarrow>
     (case narrow_i32 b ''button code'' of Inl e \<Rightarrow> (Err e, p) | Inr k \<Rightarrow>
        notify (NotifyButton k press) ''NotifyPointerButton'' answer p))"

definition portal_axis :: "string option \<Rightarrow> bool \<Rightarrow> f64 \<Rightarrow> portal_input \<Rightarrow> (wl_error + unit) \<times> portal_input" where
  "portal_axis answer vertical steps p = (case require_device (pi_pointer p) ''pointer'' of Inl e \<Rightarrow> (Err e, p) | Inr _ \<Rightarrow>
     (case discrete_notches steps of None \<Rightarrow> (Ok (), p) | Some n \<Rightarrow>
        notify (NotifyAxisDiscrete vertical n) ''NotifyPointerAxisDiscrete'' answer p))"

definition portal_flush :: "portal_input \<Rightarrow> (wl_error + unit) \<times> portal_input" where
  "portal_flush p = (Ok (), p)"

text \<open>Dropping the handle closes the session if a runtime is there to do it.\<close>

definition portal_drop :: "bool \<Rightarrow> portal_input \<Rightarrow> portal_input" where
  "portal_drop runtime p = (if pi_session p
     then p\<lparr>pi_session := False, pi_log := pi_log p @ (if runtime then [CloseSession] else [])\<rparr> else p)"

fun portal_do :: "string option \<Rightarrow> input_op \<Rightarrow> portal_input \<Rightarrow> (wl_error + unit) \<times> portal_input" where
  "portal_do answer (OpKey ks press) p = portal_key answer ks press p"
| "portal_do answer (OpMove dx dy) p = portal_move answer dx dy p"
| "portal_do answer (OpButton b press) p = portal_button answer b press p"
| "portal_do answer (OpAxis vertical steps) p = portal_axis answer vertical steps p"
| "portal_do answer OpFlush p = portal_flush p"

definition portal_step :: "string option \<times> input_op \<Rightarrow> portal_input \<Rightarrow> portal_input" where
  "portal_step c p = snd (portal_do (fst c) (snd c) p)"

text \<open>
  What one call sends: nothing without the grant, nothing for a code outside the range of the wire
  type, nothing for a scroll of zero notches.
\<close>

definition portal_event :: "bool \<Rightarrow> bool \<Rightarrow> input_op \<Rightarrow> portal_call list" where
  "portal_event kb pt op = (case op of
       OpKey ks press \<Rightarrow> if kb \<and> unat ks < 2 ^ 31 then [NotifyKeysym ks press] else []
     | OpMove dx dy \<Rightarrow> if pt then [NotifyMotion dx dy] else []
     | OpButton b press \<Rightarrow> if pt \<and> unat b < 2 ^ 31 then [NotifyButton b press] else []
     | OpAxis vertical steps \<Rightarrow> (case discrete_notches steps of Some n \<Rightarrow> if pt then [NotifyAxisDiscrete vertical n] else [] | None \<Rightarrow> [])
     | OpFlush \<Rightarrow> [])"

lemma notify_active:
  "pi_session p \<Longrightarrow> snd (notify call stage answer p) = p\<lparr>pi_log := pi_log p @ [call]\<rparr>"
  by (simp add: notify_def active_session_def)

lemma portal_step_event:
  assumes "pi_session p"
  shows "portal_step c p = p\<lparr>pi_log := pi_log p @ portal_event (pi_keyboard p) (pi_pointer p) (snd c)\<rparr>"
  using assms by (cases c; cases "snd c")
    (simp_all add: portal_step_def portal_event_def portal_key_def portal_move_def portal_button_def portal_axis_def
      portal_flush_def require_device_def narrow_i32_def notify_active split: option.splits)

lemma portal_run_log:
  assumes "pi_session p"
  shows "fold portal_step cs p =
    p\<lparr>pi_log := pi_log p @ concat (map (\<lambda>c. portal_event (pi_keyboard p) (pi_pointer p) (snd c)) cs)\<rparr>"
  using assms by (induction cs arbitrary: p) (simp_all add: portal_step_event)

text \<open>C32. Only what the user granted is injected: the calls of a portal session, from its creation to the drop of
  its handle, are the handshake (session, both device classes, start) and then exactly the events of the
  granted device classes, in the order of the calls and whatever the portal answers, and the close.\<close>

theorem portal_injects_only_granted:
  assumes "portal_connect env = (Ok p, calls)"
  shows "\<exists>kb pt. pe_response env = Ok (kb, pt) \<and>
     pi_log (portal_drop True (fold portal_step cs p)) =
       [CreateSession, SelectDevices True True, StartSession] @
       concat (map (portal_event kb pt \<circ> snd) cs) @ [CloseSession]"
proof -
  obtain kb pt where "pe_response env = Ok (kb, pt)"
    and p: "p = \<lparr>pi_log = [CreateSession, SelectDevices True True, StartSession], pi_session = True, pi_keyboard = kb, pi_pointer = pt\<rparr>"
    using assms by (auto simp: portal_connect_def Let_def split: bus_answer.splits option.splits sum.splits)
  then show ?thesis using portal_run_log [of p cs] by (simp add: portal_drop_def comp_def)
qed

theorem portal_injects_only_granted_witness:
  "pi_log (portal_drop True (fold portal_step [(None, OpKey 97 True), (Some ''gone'', OpButton 272 True), (None, OpAxis True (Finite 2)), (None, OpKey 4294967295 True)]
      \<lparr>pi_log = [CreateSession, SelectDevices True True, StartSession], pi_session = True, pi_keyboard = True, pi_pointer = False\<rparr>)) =
     [CreateSession, SelectDevices True True, StartSession, NotifyKeysym 97 True, CloseSession]"
proof -
  let ?env = "\<lparr>pe_bus = BusOk, pe_create = None, pe_select = None, pe_start = None, pe_response = Ok (True, False)\<rparr>"
  let ?p = "\<lparr>pi_log = [CreateSession, SelectDevices True True, StartSession], pi_session = True, pi_keyboard = True, pi_pointer = False\<rparr>"
  have "portal_connect ?env = (Ok ?p, [CreateSession, SelectDevices True True, StartSession])"
    by (simp add: portal_connect_def)
  from portal_injects_only_granted [OF this, of "[(None, OpKey 97 True), (Some ''gone'', OpButton 272 True), (None, OpAxis True (Finite 2)), (None, OpKey 4294967295 True)]"]
  show ?thesis by (auto simp: portal_event_def split: option.splits)
qed

text \<open>
  The portal handle sends the scroll of the direct one, in the same notches; the direct handle sends the
  event of a scroll that is not a number, with zero notches.
\<close>

lemma scroll_of_nan: "discrete_notches NaN = Some 0"
  by (simp add: discrete_notches_def)

end
