(* ===== verification/Hf_Desktop.thy ===== *)
theory Hf_Desktop
  imports Hf_Wayland_Input
begin

text \<open>
  The clipboard (\<^verbatim>\<open>wayland/src/clipboard.rs\<close>) and idle inhibition (\<^verbatim>\<open>wayland/src/idle.rs\<close>).

  The library wl-clipboard-rs is a parameter: its answer to a read or a write is an argument.  The watcher
  is its loop over round trips, each with the events it dispatches and the answers to the reads after it.
  The idle inhibitor issues requests to the compositor and calls to the session bus; both are logs.
\<close>

section \<open>Reading and writing the clipboard\<close>

text \<open>
  The answer to a read: the text of the selection or the error of its pipe, one of the three conditions
  that count as an empty clipboard, or any other failure.
\<close>

datatype paste_answer =
    Pasted "string + string"
  | NoSeats
  | ClipboardEmpty
  | NoMimeType
  | PasteFailed string

fun read_clipboard :: "paste_answer \<Rightarrow> wl_error + string option" where
  "read_clipboard (Pasted (Inr t)) = Ok (Some t)"
| "read_clipboard (Pasted (Inl e)) = Err (WlOther e)"
| "read_clipboard NoSeats = Ok None"
| "read_clipboard ClipboardEmpty = Ok None"
| "read_clipboard NoMimeType = Ok None"
| "read_clipboard (PasteFailed e) = Err (WlOther e)"

definition get_text :: "paste_answer \<Rightarrow> wl_error + string option" where
  "get_text a = (case read_clipboard a of
       Inl e \<Rightarrow> Err (WlOther (''clipboard paste: '' @ wl_error_text e))
     | Inr t \<Rightarrow> Ok t)"

definition set_text :: "string option \<Rightarrow> wl_error + unit" where
  "set_text failure = (case failure of Some e \<Rightarrow> Err (WlOther (''clipboard copy: '' @ e)) | None \<Rightarrow> Ok ())"

section \<open>Watching the clipboard\<close>

record watch_core =
  last_regular :: "string option"
  last_primary :: "string option"

text \<open>One slot of \<^verbatim>\<open>emit_changes\<close>: the new memory of the slot and what is forwarded.\<close>

definition emit_slot :: "wl_error + string option \<Rightarrow> string option \<Rightarrow> string option \<times> string list" where
  "emit_slot answer slot = (case answer of
       Inr (Some t) \<Rightarrow> (Some t, if slot = Some t then [] else [t])
     | Inr None \<Rightarrow> (None, [])
     | Inl _ \<Rightarrow> (slot, []))"

definition emit_changes :: "paste_answer \<Rightarrow> paste_answer \<Rightarrow> watch_core \<Rightarrow> watch_core \<times> string list" where
  "emit_changes reg prim c =
     (let (r, out1) = emit_slot (read_clipboard reg) (last_regular c);
          (p, out2) = emit_slot (read_clipboard prim) (last_primary c)
      in (\<lparr>last_regular = r, last_primary = p\<rparr>, out1 @ out2))"

definition ensure_wayland_env :: "environment \<Rightarrow> wl_error + unit" where
  "ensure_wayland_env env = (if has_wayland_env env then Ok () else Err (WlUnsupported
     ''clipboard watching requires a Wayland session (WAYLAND_DISPLAY/WAYLAND_SOCKET unset)''))"

definition WATCHER_MANAGER_MAX_VERSION :: u32 where
  "WATCHER_MANAGER_MAX_VERSION = 2"

text \<open>
  The state of the watcher: the globals it bound (name and version), the seats it has a device for,
  whether a selection changed, and the texts its receiver got.
\<close>

record watcher =
  wa_core :: watch_core
  wa_manager :: "(u32 \<times> u32) option"
  wa_seats :: "(u32 \<times> u32) list"
  wa_devices :: "(u32 \<times> u32) list"
  wa_dirty :: bool
  wa_out :: "string list"
  wa_running :: bool

definition watcher_new :: watcher where
  "watcher_new = \<lparr>wa_core = \<lparr>last_regular = None, last_primary = None\<rparr>, wa_manager = None, wa_seats = [],
     wa_devices = [], wa_dirty = False, wa_out = [], wa_running = True\<rparr>"

datatype watch_event =
    WRegistry registry_event
  | WSelection
  | WPrimarySelection
  | WOtherEvent

fun watch_dispatch :: "watch_event \<Rightarrow> watcher \<Rightarrow> watcher" where
  "watch_dispatch (WRegistry (Global name interface version)) st =
     (if interface = ''wl_seat'' then st\<lparr>wa_seats := wa_seats st @ [(name, min version SEAT_MAX_VERSION)]\<rparr>
      else if interface = ''zwlr_data_control_manager_v1'' then
        st\<lparr>wa_manager := Some (name, min version WATCHER_MANAGER_MAX_VERSION)\<rparr>
      else st)"
| "watch_dispatch (WRegistry (GlobalRemove _)) st = st"
| "watch_dispatch WSelection st = st\<lparr>wa_dirty := True\<rparr>"
| "watch_dispatch WPrimarySelection st = st\<lparr>wa_dirty := True\<rparr>"
| "watch_dispatch WOtherEvent st = st"

type_synonym watch_trip = "watch_event list \<times> string option"

definition watcher_start :: "environment \<Rightarrow> string option \<Rightarrow> watch_trip \<Rightarrow> watch_trip \<Rightarrow> wl_error + watcher" where
  "watcher_start env conn first second = (case ensure_wayland_env env of Inl e \<Rightarrow> Err e | Inr _ \<Rightarrow>
     (case conn of Some e \<Rightarrow> Err (WlOther (''wayland connect: '' @ e)) | None \<Rightarrow>
     (case snd first of Some e \<Rightarrow> Err (WlOther (''wayland registry roundtrip: '' @ e)) | None \<Rightarrow>
     (case snd second of Some e \<Rightarrow> Err (WlOther (''wayland bind roundtrip: '' @ e)) | None \<Rightarrow>
       (let st = fold watch_dispatch (fst first @ fst second) watcher_new in
          if wa_manager st = None then Err (WlProtocolMissing ''zwlr_data_control_manager_v1'')
          else if wa_seats st = [] then Err (WlProtocolMissing ''wl_seat'')
          else Ok st)))))"

definition attach_devices :: "watcher \<Rightarrow> watcher" where
  "attach_devices st = (case wa_manager st of None \<Rightarrow> st | Some _ \<Rightarrow> st\<lparr>wa_devices := wa_devices st @ wa_seats st\<rparr>)"

text \<open>One turn of the loop: whether the receiver is gone, the round trip, the answers to the reads.\<close>

record watch_turn =
  wt_gone :: bool
  wt_trip :: watch_trip
  wt_regular :: paste_answer
  wt_primary :: paste_answer
  wt_lost :: bool

definition flush_changes :: "watch_turn \<Rightarrow> watcher \<Rightarrow> watcher" where
  "flush_changes t st =
     (if \<not> wa_dirty st then st
      else let (c, out) = emit_changes (wt_regular t) (wt_primary t) (wa_core st)
           in st\<lparr>wa_dirty := False, wa_core := c, wa_out := wa_out st @ (if wt_lost t then [] else out)\<rparr>)"

definition watch_turn_step :: "watch_turn \<Rightarrow> watcher \<Rightarrow> watcher" where
  "watch_turn_step t st =
     (if \<not> wa_running st then st
      else if wt_gone t then st\<lparr>wa_running := False\<rparr>
      else let st1 = fold watch_dispatch (fst (wt_trip t)) st in
        (case snd (wt_trip t) of Some _ \<Rightarrow> st1\<lparr>wa_running := False\<rparr> | None \<Rightarrow> flush_changes t st1))"

definition read_ok :: "paste_answer \<Rightarrow> string option" where
  "read_ok a = (case read_clipboard a of Inr t \<Rightarrow> t | Inl _ \<Rightarrow> None)"

definition watch_run :: "paste_answer \<Rightarrow> paste_answer \<Rightarrow> watch_turn list \<Rightarrow> watcher \<Rightarrow> watcher" where
  "watch_run reg prim turns st =
     fold watch_turn_step turns (attach_devices (st\<lparr>wa_core := \<lparr>last_regular = read_ok reg, last_primary = read_ok prim\<rparr>\<rparr>))"

text \<open>\<^verbatim>\<open>watch_text\<close>: the watcher its thread runs, unless the session, the compositor or the system refuses it.\<close>

definition spawn_watcher :: "environment \<Rightarrow> string option \<Rightarrow> watch_trip \<Rightarrow> watch_trip \<Rightarrow> string option \<Rightarrow>
    paste_answer \<Rightarrow> paste_answer \<Rightarrow> watch_turn list \<Rightarrow> wl_error + watcher" where
  "spawn_watcher env conn first second thread reg prim turns =
     (case ensure_wayland_env env of Inl e \<Rightarrow> Err e | Inr _ \<Rightarrow>
     (case watcher_start env conn first second of Inl e \<Rightarrow> Err e | Inr st \<Rightarrow>
     (case thread of Some e \<Rightarrow> Err (WlIo e) | None \<Rightarrow> Ok (watch_run reg prim turns st))))"

section \<open>What the watcher forwards\<close>

text \<open>
  The reference: a reader that looks at one clipboard at a time.  A failed read tells it nothing; a text
  other than the one it knows is news.
\<close>

fun news :: "string option \<Rightarrow> (wl_error + string option) list \<Rightarrow> string list list" where
  "news known [] = []"
| "news known (Inl _ # rs) = [] # news known rs"
| "news known (Inr None # rs) = [] # news None rs"
| "news known (Inr (Some t) # rs) = (if known = Some t then [] else [t]) # news (Some t) rs"

text \<open>The turns that read: those that ran and dispatched a selection event.\<close>

definition selects :: "watch_turn \<Rightarrow> bool" where
  "selects t = list_ex (\<lambda>ev. ev = WSelection \<or> ev = WPrimarySelection) (fst (wt_trip t))"

definition quiet_turn :: "watch_turn \<Rightarrow> bool" where
  "quiet_turn t = (\<not> wt_gone t \<and> \<not> wt_lost t \<and> snd (wt_trip t) = None)"

lemma dispatch_fields [simp]:
  "wa_core (fold watch_dispatch evs st) = wa_core st"
  "wa_out (fold watch_dispatch evs st) = wa_out st"
  "wa_running (fold watch_dispatch evs st) = wa_running st"
  "wa_devices (fold watch_dispatch evs st) = wa_devices st"
  by (induction evs arbitrary: st; simp; case_tac "(a, st)" rule: watch_dispatch.cases; simp)+

lemma dispatch_dirty:
  "wa_dirty (fold watch_dispatch evs st) \<longleftrightarrow> wa_dirty st \<or> list_ex (\<lambda>ev. ev = WSelection \<or> ev = WPrimarySelection) evs"
  by (induction evs arbitrary: st; simp; case_tac "(a, st)" rule: watch_dispatch.cases; auto)

lemma emit_slot_news:
  "news slot (a # rs) = snd (emit_slot a slot) # news (fst (emit_slot a slot)) rs"
  by (cases a; cases "projr a") (auto simp: emit_slot_def split: option.splits)

lemma quiet_step:
  assumes "quiet_turn t" "wa_running st" "\<not> wa_dirty st"
  shows "\<exists>st'. watch_turn_step t st = st' \<and> wa_running st' \<and> \<not> wa_dirty st' \<and>
    (if selects t then
       wa_core st' = fst (emit_changes (wt_regular t) (wt_primary t) (wa_core st)) \<and>
       wa_out st' = wa_out st @ snd (emit_changes (wt_regular t) (wt_primary t) (wa_core st))
     else wa_core st' = wa_core st \<and> wa_out st' = wa_out st)"
  using assms
  by (auto simp: watch_turn_step_def quiet_turn_def flush_changes_def selects_def dispatch_dirty Let_def split: prod.splits)

lemma quiet_run:
  assumes "list_all quiet_turn turns" "wa_running st" "\<not> wa_dirty st"
  shows "wa_out (fold watch_turn_step turns st) = wa_out st @
    concat (map2 (@)
      (news (last_regular (wa_core st)) (map (read_clipboard \<circ> wt_regular) (filter selects turns)))
      (news (last_primary (wa_core st)) (map (read_clipboard \<circ> wt_primary) (filter selects turns))))"
  using assms
proof (induction turns arbitrary: st)
  case (Cons t turns)
  then have t: "quiet_turn t" and ts: "list_all quiet_turn turns" by simp_all
  let ?st = "watch_turn_step t st"
  have st: "wa_running ?st" "\<not> wa_dirty ?st"
    and eff: "if selects t then
       wa_core ?st = fst (emit_changes (wt_regular t) (wt_primary t) (wa_core st)) \<and>
       wa_out ?st = wa_out st @ snd (emit_changes (wt_regular t) (wt_primary t) (wa_core st))
     else wa_core ?st = wa_core st \<and> wa_out ?st = wa_out st"
    using quiet_step [OF t Cons.prems(2,3)] by blast+
  note IH = Cons.IH [OF ts st]
  show ?case
  proof (cases "selects t")
    case True
    then show ?thesis using eff IH
      by (simp add: emit_slot_news emit_changes_def split: prod.splits)
  next
    case False
    then show ?thesis using eff IH by simp
  qed
qed simp

text \<open>C35. The watcher forwards exactly the news: while its receiver listens and its connection lives, the texts
  it delivers are, turn by turn, those a separate reader of each clipboard would report, the regular one
  first: a text other than the last one seen there, never the text present at the start, nothing for a
  selection that was cleared or could not be read, and nothing in turns without a selection event.\<close>

theorem watcher_forwards_news:
  assumes "spawn_watcher env conn first second thread reg prim turns = Ok st" "list_all quiet_turn turns"
    and "\<not> list_ex (\<lambda>ev. ev = WSelection \<or> ev = WPrimarySelection) (fst first @ fst second)"
  shows "wa_out st = concat (map2 (@)
      (news (read_ok reg) (map (read_clipboard \<circ> wt_regular) (filter selects turns)))
      (news (read_ok prim) (map (read_clipboard \<circ> wt_primary) (filter selects turns))))"
proof -
  obtain st0 where start: "watcher_start env conn first second = Ok st0" and st: "st = watch_run reg prim turns st0"
    using assms(1) by (auto simp: spawn_watcher_def split: sum.splits option.splits)
  have st0: "st0 = fold watch_dispatch (fst first @ fst second) watcher_new"
    using start by (auto simp: watcher_start_def Let_def split: sum.splits option.splits if_splits)
  have "wa_running st0" "\<not> wa_dirty st0" "wa_out st0 = []"
    using assms(3) unfolding st0 by (simp_all add: dispatch_dirty watcher_new_def del: fold_append)
  then show ?thesis
    unfolding st watch_run_def by (subst quiet_run [OF assms(2)]) (simp_all add: attach_devices_def split: option.splits)
qed

definition demo_turn :: "watch_event list \<Rightarrow> paste_answer \<Rightarrow> watch_turn" where
  "demo_turn evs reg = \<lparr>wt_gone = False, wt_trip = (evs, None), wt_regular = reg, wt_primary = NoSeats, wt_lost = False\<rparr>"

definition demo_turns :: "watch_turn list" where
  "demo_turns = [demo_turn [WSelection] (Pasted (Inr ''a'')), demo_turn [WOtherEvent] (Pasted (Inr ''x'')),
     demo_turn [WSelection] (Pasted (Inr ''b'')), demo_turn [WPrimarySelection] (PasteFailed ''e''),
     demo_turn [WSelection] ClipboardEmpty, demo_turn [WSelection] (Pasted (Inr ''b''))]"

theorem watcher_forwards_news_witness:
  "\<exists>st. spawn_watcher (\<lambda>k. Some ''wayland-0'') None
      ([WRegistry (Global 1 ''wl_seat'' 7), WRegistry (Global 2 ''zwlr_data_control_manager_v1'' 5)], None) ([], None) None
      (Pasted (Inr ''a'')) NoSeats demo_turns = Ok st \<and> wa_out st = [''b'', ''b'']"
proof -
  let ?globals = "([WRegistry (Global 1 ''wl_seat'' 7), WRegistry (Global 2 ''zwlr_data_control_manager_v1'' 5)], None)"
  obtain st where st: "spawn_watcher (\<lambda>k. Some ''wayland-0'') None ?globals ([], None) None (Pasted (Inr ''a'')) NoSeats demo_turns = Ok st"
    by (simp add: spawn_watcher_def watcher_start_def ensure_wayland_env_def has_wayland_env_def watcher_new_def SEAT_MAX_VERSION_def
        WATCHER_MANAGER_MAX_VERSION_def Let_def)
  have "wa_out st = [''b'', ''b'']"
    by (subst watcher_forwards_news [OF st])
       (simp_all add: demo_turns_def demo_turn_def quiet_turn_def selects_def read_ok_def)
  then show ?thesis using st by blast
qed

text \<open>A seat that appears after the start is recorded but never watched.\<close>

lemma later_seats_not_watched:
  "wa_devices (watch_run reg prim turns st) = wa_devices (attach_devices st)"
proof -
  have "wa_devices (watch_turn_step t s) = wa_devices s" for t s
    by (auto simp: watch_turn_step_def flush_changes_def Let_def split: prod.splits option.splits)
  then have "wa_devices (fold watch_turn_step turns s) = wa_devices s" for s
    by (induction turns arbitrary: s) simp_all
  then show ?thesis by (simp add: watch_run_def attach_devices_def split: option.splits)
qed

section \<open>Idle inhibition\<close>

text \<open>
  Two strategies: an inhibitor on a hidden surface of an own Wayland connection, and a cookie of the
  ScreenSaver service.  The world is what the compositor and the service were asked, in order.
\<close>

datatype idle_request =
    IdleCreatePool nat
  | IdleCreateBuffer
  | IdleCreateSurface
  | IdleAttach
  | IdleDamageBuffer
  | IdleDamage
  | IdleCommit
  | CreateInhibitor
  | DestroyInhibitor
  | DestroySurface
  | DestroyBuffer
  | DestroyPool

datatype saver_call = Inhibit string string u32 | UnInhibit u32

record idle_world =
  iw_wayland :: "idle_request list"
  iw_saver :: "saver_call list"

definition COMPOSITOR_MAX_VERSION :: u32 where
  "COMPOSITOR_MAX_VERSION = 4"

definition PIXEL_BYTES :: nat where
  "PIXEL_BYTES = 4"

record idle_setup =
  is_compositor :: "u32 option"
  is_shm :: "u32 option"
  is_manager :: "u32 option"

text \<open>The versions of the globals that are bound.\<close>

fun setup_registry :: "registry_event \<Rightarrow> idle_setup \<Rightarrow> idle_setup" where
  "setup_registry (Global _ interface version) s =
     (if interface = ''wl_compositor'' then s\<lparr>is_compositor := Some (min version COMPOSITOR_MAX_VERSION)\<rparr>
      else if interface = ''wl_shm'' then s\<lparr>is_shm := Some (min version 1)\<rparr>
      else if interface = ''zwp_idle_inhibit_manager_v1'' then s\<lparr>is_manager := Some (min version 1)\<rparr>
      else s)"
| "setup_registry (GlobalRemove _) s = s"

text \<open>What one acquisition finds outside.\<close>

record idle_env =
  id_environment :: environment
  id_connect :: "string option"
  id_first :: roundtrip
  id_second :: roundtrip
  id_tempfile :: "string option"
  id_flush :: "string option"
  id_dbus_feature :: bool
  id_session :: "string option"
  id_proxy :: "string option"
  id_inhibit :: "string + u32"
  id_app :: string

definition missing_globals :: "idle_setup \<Rightarrow> string list" where
  "missing_globals s =
     (if is_compositor s = None then [''wl_compositor''] else []) @
     (if is_shm s = None then [''wl_shm''] else []) @
     (if is_manager s = None then [''zwp_idle_inhibit_manager_v1''] else [])"

definition surface_requests :: "u32 \<Rightarrow> idle_request list" where
  "surface_requests version = [IdleCreatePool PIXEL_BYTES, IdleCreateBuffer, IdleCreateSurface, IdleAttach,
     (if 4 \<le> version then IdleDamageBuffer else IdleDamage), IdleCommit, CreateInhibitor]"

text \<open>The requests of an acquisition and whether it succeeds; the requests of one that fails die with its connection.\<close>

definition wayland_acquire :: "idle_env \<Rightarrow> wl_error + idle_request list" where
  "wayland_acquire env =
     (if \<not> has_wayland_env (id_environment env) then Err (WlUnsupported ''native idle inhibition requires a Wayland session'')
      else case id_connect env of Some e \<Rightarrow> Err (WlOther (''wayland connect: '' @ e)) | None \<Rightarrow>
      (case snd (id_first env) of Some e \<Rightarrow> Err (WlOther (''wayland registry roundtrip: '' @ e)) | None \<Rightarrow>
      (case snd (id_second env) of Some e \<Rightarrow> Err (WlOther (''wayland bind roundtrip: '' @ e)) | None \<Rightarrow>
        (let s = fold setup_registry (fst (id_first env) @ fst (id_second env))
                   \<lparr>is_compositor = None, is_shm = None, is_manager = None\<rparr> in
         if missing_globals s \<noteq> [] then Err (WlProtocolMissing (join_with '', '' (missing_globals s)))
         else case id_tempfile env of Some e \<Rightarrow> Err (WlIo e) | None \<Rightarrow>
         (case id_flush env of Some e \<Rightarrow> Err (WlOther (''wayland flush: '' @ e))
          | None \<Rightarrow> Ok (surface_requests (the (is_compositor s))))))))"

definition wayland_release :: "idle_request list" where
  "wayland_release = [DestroyInhibitor, DestroySurface, DestroyBuffer, DestroyPool]"

definition dbus_acquire :: "idle_env \<Rightarrow> wl_error + u32" where
  "dbus_acquire env = (case id_session env of Some e \<Rightarrow> Err (WlOther (''session bus unavailable: '' @ e)) | None \<Rightarrow>
     (case id_proxy env of Some e \<Rightarrow> Err (WlOther (''ScreenSaver proxy: '' @ e)) | None \<Rightarrow>
     (case id_inhibit env of Inl e \<Rightarrow> Err (WlOther (''ScreenSaver.Inhibit: '' @ e)) | Inr cookie \<Rightarrow> Ok cookie)))"

datatype idle_handle = HeldWayland | HeldDbus u32

definition acquire_wayland :: "idle_env \<Rightarrow> idle_world \<Rightarrow> (wl_error + idle_handle) \<times> idle_world" where
  "acquire_wayland env w = (case wayland_acquire env of
       Inl e \<Rightarrow> (Err e, w)
     | Inr rs \<Rightarrow> (Ok HeldWayland, w\<lparr>iw_wayland := iw_wayland w @ rs\<rparr>))"

definition acquire_dbus :: "idle_env \<Rightarrow> string \<Rightarrow> idle_world \<Rightarrow> (wl_error + idle_handle) \<times> idle_world" where
  "acquire_dbus env why w =
     (if \<not> id_dbus_feature env then (Err (WlUnsupported ''ScreenSaver inhibition requires the dbus-idle feature''), w)
      else case dbus_acquire env of
        Inl e \<Rightarrow> (Err e, w)
      | Inr cookie \<Rightarrow> (Ok (HeldDbus cookie), w\<lparr>iw_saver := iw_saver w @ [Inhibit (id_app env) why cookie]\<rparr>))"

text \<open>Dropping a handle.  The proxy for the release may be lost, and then the cookie stays.\<close>

fun release :: "bool \<Rightarrow> idle_handle \<Rightarrow> idle_world \<Rightarrow> idle_world" where
  "release proxy HeldWayland w = w\<lparr>iw_wayland := iw_wayland w @ wayland_release\<rparr>"
| "release proxy (HeldDbus cookie) w = (if proxy then w\<lparr>iw_saver := iw_saver w @ [UnInhibit cookie]\<rparr> else w)"

definition release_result :: "bool \<Rightarrow> wl_error + idle_handle \<Rightarrow> idle_world \<Rightarrow> idle_world" where
  "release_result proxy r w = (case r of Inl _ \<Rightarrow> w | Inr h \<Rightarrow> release proxy h w)"

definition prefer_dbus :: "idle_env \<Rightarrow> bool" where
  "prefer_dbus env = (compositor (detect_session (id_environment env)) \<in> {Some ''GNOME'', Some ''KDE Plasma''})"

abbreviation "SAVER \<equiv> ''org.freedesktop.ScreenSaver''"
abbreviation "NATIVE \<equiv> ''zwp_idle_inhibit_manager_v1''"

text \<open>
  \<^verbatim>\<open>IdleInhibit::acquire\<close>.  Both strategies are evaluated before the first result is looked at; a result that
  is not used is dropped when the function returns.
\<close>

definition idle_acquire :: "bool \<Rightarrow> idle_env \<Rightarrow> string \<Rightarrow> idle_world \<Rightarrow> (wl_error + idle_handle) \<times> idle_world" where
  "idle_acquire proxy env why w =
     (let (first_name, second_name) = (if prefer_dbus env then (SAVER, NATIVE) else (NATIVE, SAVER));
          (first_result, w1) = (if prefer_dbus env then acquire_dbus env why w else acquire_wayland env w);
          (second_result, w2) = (if prefer_dbus env then acquire_wayland env w1 else acquire_dbus env why w1)
      in case first_result of
           Inr h \<Rightarrow> (Ok h, release_result proxy second_result w2)
         | Inl _ \<Rightarrow> (case second_result of
               Inr h \<Rightarrow> (Ok h, w2)
             | Inl _ \<Rightarrow> (Err (WlUnsupported (''no idle inhibition mechanism available ('' @ first_name @ '' and '' @
                 second_name @ '' both failed); see debug logs'')), w2)))"

text \<open>The inhibitors in force: surfaces with an inhibitor, and cookies not given back.\<close>

definition native_held :: "idle_world \<Rightarrow> int" where
  "native_held w = int (length (filter (\<lambda>r. r = CreateInhibitor) (iw_wayland w))) -
     int (length (filter (\<lambda>r. r = DestroyInhibitor) (iw_wayland w)))"

definition saver_held :: "idle_world \<Rightarrow> int" where
  "saver_held w = int (length (filter (\<lambda>c. case c of Inhibit _ _ _ \<Rightarrow> True | UnInhibit _ \<Rightarrow> False) (iw_saver w))) -
     int (length (filter (\<lambda>c. case c of Inhibit _ _ _ \<Rightarrow> False | UnInhibit _ \<Rightarrow> True) (iw_saver w)))"

lemma held_simps [simp]:
  "native_held (w\<lparr>iw_saver := cs\<rparr>) = native_held w"
  "saver_held (w\<lparr>iw_wayland := rs\<rparr>) = saver_held w"
  "native_held (w\<lparr>iw_wayland := iw_wayland w @ surface_requests v\<rparr>) = native_held w + 1"
  "native_held (w\<lparr>iw_wayland := iw_wayland w @ wayland_release\<rparr>) = native_held w - 1"
  "saver_held (w\<lparr>iw_saver := iw_saver w @ [Inhibit a b c]\<rparr>) = saver_held w + 1"
  "saver_held (w\<lparr>iw_saver := iw_saver w @ [UnInhibit c]\<rparr>) = saver_held w - 1"
  by (simp_all add: native_held_def saver_held_def surface_requests_def wayland_release_def)

definition holds :: "idle_handle \<Rightarrow> int \<times> int" where
  "holds h = (case h of HeldWayland \<Rightarrow> (1, 0) | HeldDbus _ \<Rightarrow> (0, 1))"

lemma release_held:
  "native_held (release True h w) = native_held w - fst (holds h)"
  "saver_held (release True h w) = saver_held w - snd (holds h)"
  by (cases h; simp add: holds_def)+

lemma acquire_wayland_held:
  assumes "acquire_wayland env w = (r, w')"
  shows "saver_held w' = saver_held w \<and> native_held w' = native_held w + (if is_ok r then 1 else 0) \<and>
    (\<forall>h. r = Ok h \<longrightarrow> h = HeldWayland)"
  using assms by (auto simp: acquire_wayland_def wayland_acquire_def Let_def split: sum.splits if_splits option.splits)

lemma acquire_dbus_held:
  assumes "acquire_dbus env why w = (r, w')"
  shows "native_held w' = native_held w \<and> saver_held w' = saver_held w + (if is_ok r then 1 else 0) \<and>
    (\<forall>h. r = Ok h \<longrightarrow> (\<exists>c. h = HeldDbus c))"
  using assms by (auto simp: acquire_dbus_def split: sum.splits if_splits)

text \<open>C37. Idle inhibition is balanced: while the ScreenSaver service can be reached for releases, a
  successful acquisition leaves exactly the inhibitor of its handle in force beyond those before, a failed
  one leaves none and is reported as unsupported, and dropping the handle restores the counts.\<close>

theorem idle_inhibition_balanced:
  assumes "idle_acquire True env why w = (r, w')"
  shows "case r of
      Inl e \<Rightarrow> (\<exists>msg. e = WlUnsupported msg) \<and> native_held w' = native_held w \<and> saver_held w' = saver_held w
    | Inr h \<Rightarrow> native_held w' = native_held w + fst (holds h) \<and> saver_held w' = saver_held w + snd (holds h) \<and>
        native_held (release True h w') = native_held w \<and> saver_held (release True h w') = saver_held w"
proof -
  obtain r1 w1 r2 w2 where
    "if prefer_dbus env then acquire_dbus env why w = (r1, w1) \<and> acquire_wayland env w1 = (r2, w2)
     else acquire_wayland env w = (r1, w1) \<and> acquire_dbus env why w1 = (r2, w2)"
    by (cases "prefer_dbus env") (metis surj_pair)+
  then show ?thesis
    using assms acquire_wayland_held [of env w] acquire_wayland_held [of env w1] acquire_dbus_held [of env why w]
      acquire_dbus_held [of env why w1]
    by (cases "prefer_dbus env"; cases r1; cases r2)
       (auto simp: idle_acquire_def Let_def release_result_def release_held holds_def simp del: release.simps)
qed

definition demo_idle :: idle_env where
  "demo_idle = \<lparr>id_environment = (\<lambda>k. if k = ''WAYLAND_DISPLAY'' then Some ''wayland-0'' else if k = ''SWAYSOCK'' then Some ''s'' else None),
     id_connect = None, id_first = ([Global 1 ''wl_compositor'' 6, Global 2 ''wl_shm'' 1, Global 3 NATIVE 1], None),
     id_second = ([], None), id_tempfile = None, id_flush = None, id_dbus_feature = True, id_session = None, id_proxy = None,
     id_inhibit = Inr 7, id_app = ''handfast-wayland''\<rparr>"

lemma demo_idle_acquired:
  "idle_acquire True demo_idle ''media'' \<lparr>iw_wayland = [], iw_saver = []\<rparr> =
     (Ok HeldWayland, \<lparr>iw_wayland = surface_requests 4, iw_saver = [Inhibit ''handfast-wayland'' ''media'' 7, UnInhibit 7]\<rparr>)"
  by (simp add: idle_acquire_def demo_idle_def prefer_dbus_def detect_session_def detect_compositor_def env_set_def trim_str_def
      trim_end_with_def is_whitespace_def acquire_wayland_def wayland_acquire_def has_wayland_env_def missing_globals_def
      acquire_dbus_def dbus_acquire_def release_result_def COMPOSITOR_MAX_VERSION_def Let_def)

theorem idle_inhibition_balanced_witness:
  "native_held \<lparr>iw_wayland = surface_requests 4, iw_saver = [Inhibit ''handfast-wayland'' ''media'' 7, UnInhibit 7]\<rparr> = 1 \<and>
   saver_held \<lparr>iw_wayland = surface_requests 4, iw_saver = [Inhibit ''handfast-wayland'' ''media'' 7, UnInhibit 7]\<rparr> = 0"
  using idle_inhibition_balanced [OF demo_idle_acquired] by (simp add: holds_def native_held_def saver_held_def)

text \<open>
  The fallback is tried even when the preferred strategy succeeded: in the session above the ScreenSaver
  service is asked for a cookie and gets it back at once.  Without a proxy for the release the cookie stays.
\<close>

lemma fallback_always_tried:
  "fst (acquire_wayland demo_idle \<lparr>iw_wayland = [], iw_saver = []\<rparr>) = Ok HeldWayland \<and> \<not> prefer_dbus demo_idle \<and>
   Inhibit ''handfast-wayland'' ''media'' 7 \<in>
     set (iw_saver (snd (idle_acquire True demo_idle ''media'' \<lparr>iw_wayland = [], iw_saver = []\<rparr>)))"
  unfolding demo_idle_acquired
  by (simp add: demo_idle_def prefer_dbus_def detect_session_def detect_compositor_def env_set_def trim_str_def
      trim_end_with_def is_whitespace_def acquire_wayland_def wayland_acquire_def has_wayland_env_def missing_globals_def Let_def)

end
