(* ===== verification/Hf_Main.thy ===== *)
theory Hf_Main
  imports Hf_Registry Hf_Startup Hf_Desktop
begin

text \<open>
  The request handler of the daemon (\<^verbatim>\<open>handle_request\<close> in \<^verbatim>\<open>daemon/src/main.rs\<close>) and the handle it reaches
  the device manager through (\<^verbatim>\<open>ManagerHandle\<close> in \<^verbatim>\<open>daemon/src/device.rs\<close>).

  A request is handled on the state of the manager, which also holds the database both share.  What the
  outside decides (whether the manager still takes commands, what it handles while a pairing waits, faults
  of the database, the answers of the clipboard library) is the record \<^verbatim>\<open>req_env\<close>.
\<close>

section \<open>The manager's handle\<close>

record req_env =
  re_mgr :: mgr_env
  re_up :: bool
  re_later :: "mgr_input list"
  re_kv :: "string option"
  re_environment :: environment
  re_version :: string
  re_clip_get :: "string + paste_answer"
  re_clip_set :: "string + string option"
  re_io_text :: "io_error \<Rightarrow> string"

fun show_core_error :: "(io_error \<Rightarrow> string) \<Rightarrow> core_error \<Rightarrow> string" where
  "show_core_error io_text (CIo e) = ''io: '' @ io_text e"
| "show_core_error io_text (CSqlite s) = ''sqlite: '' @ s"
| "show_core_error io_text (CJson s) = ''json: '' @ s"
| "show_core_error io_text (COther s) = s"

text \<open>What the reply channel \<^verbatim>\<open>rid\<close> was sent between two states.\<close>

definition answer_of :: "nat \<Rightarrow> manager \<Rightarrow> manager \<Rightarrow> answer option" where
  "answer_of rid m m' = map_of (drop (length (answers m)) (answers m')) rid"

definition handle_list_devices :: "req_env \<Rightarrow> nat \<Rightarrow> manager \<Rightarrow> json list \<times> manager" where
  "handle_list_devices env rid m =
     (if \<not> re_up env then ([], m)
      else let m' = mgr_step (re_mgr env) (ListDevices rid) m in
        ((case answer_of rid m m' of Some (ADevices xs) \<Rightarrow> xs | _ \<Rightarrow> []), m'))"

definition handle_transfer_list :: "req_env \<Rightarrow> nat \<Rightarrow> manager \<Rightarrow> json list \<times> manager" where
  "handle_transfer_list env rid m =
     (if \<not> re_up env then ([], m)
      else let m' = mgr_step (re_mgr env) (ListTransfers rid) m in
        ((case answer_of rid m m' of Some (ATransfers xs) \<Rightarrow> xs | _ \<Rightarrow> []), m'))"

text \<open>
  The wait for the answer to a pairing request lasts until the manager has handled \<^verbatim>\<open>re_later\<close>; a channel
  the manager still holds then has timed out, one it let go of was dropped.
\<close>

definition handle_start_pairing :: "req_env \<Rightarrow> string \<Rightarrow> nat \<Rightarrow> manager \<Rightarrow> (core_error + bool) \<times> manager" where
  "handle_start_pairing env d rid m =
     (if \<not> re_up env then (Err (COther ''device manager stopped''), m)
      else let m' = mgr_run (Deliver (re_mgr env) (StartPairing d rid) # re_later env) m in
        ((case answer_of rid m m' of
            Some (APair r) \<Rightarrow> r
          | _ \<Rightarrow> if pending_of m' d = Some rid then Err (COther ''pairing timed out'')
                else Err (COther ''pairing answer channel dropped'')), m'))"

definition handle_unit :: "req_env \<Rightarrow> (nat \<Rightarrow> command) \<Rightarrow> string \<Rightarrow> nat \<Rightarrow> manager \<Rightarrow> (core_error + unit) \<times> manager" where
  "handle_unit env cmd lost rid m =
     (if \<not> re_up env then (Err (COther ''device manager stopped''), m)
      else let m' = mgr_step (re_mgr env) (cmd rid) m in
        ((case answer_of rid m m' of Some (AUnit r) \<Rightarrow> r | _ \<Rightarrow> Err (COther lost)), m'))"

definition handle_unpair :: "req_env \<Rightarrow> string \<Rightarrow> nat \<Rightarrow> manager \<Rightarrow> (core_error + unit) \<times> manager" where
  "handle_unpair env d = handle_unit env (Unpair d) ''unpair channel dropped''"

definition handle_pairing_answer :: "req_env \<Rightarrow> string \<Rightarrow> bool \<Rightarrow> nat \<Rightarrow> manager \<Rightarrow> (core_error + unit) \<times> manager" where
  "handle_pairing_answer env d acc = handle_unit env (PairingAnswer d acc) ''pairing-answer channel dropped''"

definition handle_transfer_cancel :: "req_env \<Rightarrow> string \<Rightarrow> nat \<Rightarrow> manager \<Rightarrow> (core_error + unit) \<times> manager" where
  "handle_transfer_cancel env tid = handle_unit env (CancelTransfer tid) ''cancel channel dropped''"

definition handle_send_file :: "req_env \<Rightarrow> string \<Rightarrow> string \<Rightarrow> nat \<Rightarrow> manager \<Rightarrow> (core_error + string) \<times> manager" where
  "handle_send_file env d p rid m =
     (if \<not> re_up env then (Err (COther ''device manager stopped''), m)
      else let m' = mgr_step (re_mgr env) (SendFile d p rid) m in
        ((case answer_of rid m m' of Some (AId r) \<Rightarrow> r | _ \<Rightarrow> Err (COther ''send-file channel dropped'')), m'))"

section \<open>Requests\<close>

fun show_kind :: "session_kind \<Rightarrow> string" where
  "show_kind Wayland = ''Wayland''"
| "show_kind X11 = ''X11''"
| "show_kind Tty = ''Tty''"
| "show_kind Headless = ''Headless''"
| "show_kind Unknown = ''Unknown''"

definition daemon_info :: "req_env \<Rightarrow> string \<Rightarrow> json" where
  "daemon_info env self = (let s = detect_session (re_environment env) in JObj
     [(''app'', JStr APP_NAME), (''version'', JStr (re_version env)), (''protocol'', JInt (uint PROTO_VERSION)),
      (''ipc'', JInt (uint IPC_VERSION)), (''device_id'', JStr self),
      (''session'', JObj [(''kind'', JStr (show_kind (kind s))), (''compositor'', json_opt (compositor s)),
         (''protocols'', JArr (map JStr (protocols s)))])])"

definition plugin_info :: "plugin \<Rightarrow> json" where
  "plugin_info p = (let meta = plugin_meta_of p in JObj
     [(''name'', JStr (pm_name meta)), (''title'', JStr (pm_title meta)),
      (''default_enabled'', JBool (default_enabled meta)), (''requires_wayland'', JBool (requires_wayland meta)),
      (''requires_dbus'', JBool (requires_dbus meta))])"

definition answer_with :: "req_env \<Rightarrow> ('a \<Rightarrow> json) \<Rightarrow> 32 word \<Rightarrow> (core_error + 'a) \<times> manager \<Rightarrow> response \<times> manager" where
  "answer_with env f code r = (case r of
       (Inr v, m) \<Rightarrow> (ok_json (f v), m)
     | (Inl err, m) \<Rightarrow> (resp_err code (show_core_error (re_io_text env) err), m))"

definition plugin_key :: "string \<Rightarrow> string \<Rightarrow> string" where
  "plugin_key d p = ''plugin:'' @ d @ '':'' @ p"

definition set_plugin :: "req_env \<Rightarrow> string \<Rightarrow> string \<Rightarrow> bool \<Rightarrow> manager \<Rightarrow> (core_error + unit) \<times> manager" where
  "set_plugin env d p b m =
     (let (r, st) = kv_set (re_kv env) (plugin_key d p) (if b then ''1'' else ''0'') (mstore m) in (r, m\<lparr>mstore := st\<rparr>))"

abbreviation "flag k \<equiv> (\<lambda>_ :: unit. JObj [(k, JBool True)])"

fun handle_request :: "req_env \<Rightarrow> string \<Rightarrow> nat \<Rightarrow> request \<Rightarrow> manager \<Rightarrow> response \<times> manager" where
  "handle_request env self rid ReqPing m = (ok_json (JStr ''pong''), m)"
| "handle_request env self rid DaemonInfo m = (ok_json (daemon_info env self), m)"
| "handle_request env self rid DeviceList m =
     (let (xs, m') = handle_list_devices env rid m in (ok_json (JArr xs), m'))"
| "handle_request env self rid (DevicePair d) m =
     answer_with env (\<lambda>b. JObj [(''accepted'', JBool b)]) 2001 (handle_start_pairing env d rid m)"
| "handle_request env self rid (DeviceUnpair d) m = answer_with env (flag ''unpaired'') 2002 (handle_unpair env d rid m)"
| "handle_request env self rid (ReqPairingAnswer d acc) m =
     answer_with env (flag ''answered'') 2003 (handle_pairing_answer env d acc rid m)"
| "handle_request env self rid (PluginList d) m = (ok_json (JArr (map plugin_info registry)), m)"
| "handle_request env self rid (PluginSetEnabled d p b) m = answer_with env (flag ''saved'') 3000 (set_plugin env d p b m)"
| "handle_request env self rid (ReqSendFile d p) m =
     answer_with env (\<lambda>tid. JObj [(''transfer_id'', JStr tid)]) 4001 (handle_send_file env d p rid m)"
| "handle_request env self rid TransferList m =
     (let (xs, m') = handle_transfer_list env rid m in (ok_json (JArr xs), m'))"
| "handle_request env self rid (TransferCancel tid) m =
     answer_with env (flag ''cancelled'') 4002 (handle_transfer_cancel env tid rid m)"
| "handle_request env self rid NotificationList m = (ok_json (JArr []), m)"
| "handle_request env self rid (NotificationDismiss n) m = (ok_json (JObj [(''dismissed'', JBool True)]), m)"
| "handle_request env self rid ClipboardGet m = ((case re_clip_get env of
       Inl join_err \<Rightarrow> resp_err 5000 join_err
     | Inr a \<Rightarrow> (case get_text a of
           Inr text \<Rightarrow> ok_json (JObj [(''text'', json_opt text)])
         | Inl err \<Rightarrow> resp_err 5000 (wl_error_text err))), m)"
| "handle_request env self rid (ClipboardSet text) m = ((case re_clip_set env of
       Inl join_err \<Rightarrow> resp_err 5000 join_err
     | Inr failure \<Rightarrow> (case set_text failure of
           Inr _ \<Rightarrow> ok_json (JObj [(''set'', JBool True)])
         | Inl err \<Rightarrow> resp_err 5000 (wl_error_text err))), m)"
| "handle_request env self rid (RunCommandList d) m = (ok_json (JArr []), m)"
| "handle_request env self rid (RunCommand d name) m =
     (resp_err 6000 (''remote command '' @ quote name @ '' arrives in Phase 4''), m)"
| "handle_request env self rid (SetVolume v) m = (resp_err 7000 ''volume control arrives in Phase 4'', m)"
| "handle_request env self rid GetVolume m = (resp_err 7001 ''volume queries arrive in Phase 4'', m)"
| "handle_request env self rid (request.ShareText d t) m = (resp_err 8000 ''text sharing arrives in Phase 4'', m)"
| "handle_request env self rid (request.ShareUrl d u) m = (resp_err 8001 ''URL sharing arrives in Phase 4'', m)"
| "handle_request env self rid (RequestBattery d) m = (resp_err 9000 ''battery requests arrive in Phase 4'', m)"
| "handle_request env self rid (SendSms d n t) m = (resp_err 9001 ''SMS sending arrives in Phase 4'', m)"

section \<open>What a response says\<close>

lemma answer_of_respond [simp]: "answers m' = answers m \<Longrightarrow> answer_of rid m (respond rid a m') = Some a"
  by (simp add: answer_of_def respond_def)

lemma answers_unpair [simp]: "answers (snd (unpair env d m)) = answers m"
  by (simp add: unpair_def)

lemma answers_answer_incoming [simp]: "answers (snd (answer_incoming_pairing env d acc m)) = answers m"
  by (simp add: answer_incoming_pairing_def Let_def split: option.split)

lemma answers_cancel [simp]: "answers (snd (cancel_transfer tid m)) = answers m"
  by (simp add: cancel_transfer_def split: option.split)

lemma handle_unit_eq:
  assumes "re_up env" "mgr_step (re_mgr env) (cmd rid) m = reply_with rid AUnit r" "answers (snd r) = answers m"
  shows "handle_unit env cmd lost rid m = (fst r, respond rid (AUnit (fst r)) (snd r))"
  using assms by (simp add: handle_unit_def reply_with_def)

text \<open>Each request of the handle to the manager is one of its handlers, with the reply logged.\<close>

lemma handle_ops:
  assumes "re_up env"
  shows "handle_unpair env d rid m =
      (Inr (), respond rid (AUnit (Inr ())) (snd (unpair (re_mgr env) d m)))"
    and "handle_pairing_answer env d acc rid m =
      (let r = answer_incoming_pairing (re_mgr env) d acc m in (fst r, respond rid (AUnit (fst r)) (snd r)))"
    and "handle_transfer_cancel env tid rid m =
      (let r = cancel_transfer tid m in (fst r, respond rid (AUnit (fst r)) (snd r)))"
  by (simp_all add: handle_unpair_def handle_pairing_answer_def handle_transfer_cancel_def Let_def assms
      handle_unit_eq [OF assms, where r = "unpair (re_mgr env) d m"]
      handle_unit_eq [OF assms, where r = "answer_incoming_pairing (re_mgr env) d acc m"]
      handle_unit_eq [OF assms, where r = "cancel_transfer tid m"] unpair_def)

lemma handle_send_file_eq:
  assumes "re_up env" "send_file (re_mgr env) d p m = (r, m')"
  shows "handle_send_file env d p rid m = (r, respond rid (AId r) m')"
  using assms send_file_answers [of "re_mgr env" d p m] by (simp add: handle_send_file_def reply_with_def)

text \<open>What the success of a request promises, about the state before and after.\<close>

fun promised :: "req_env \<Rightarrow> nat \<Rightarrow> request \<Rightarrow> json \<Rightarrow> manager \<Rightarrow> manager \<Rightarrow> bool" where
  "promised env rid (DeviceUnpair d) j m m' = (\<forall>x. trust m' x = (if x = d then None else trust m x))"
| "promised env rid (ReqPairingAnswer d acc) j m m' =
     (live_of m d \<noteq> None \<and> (\<forall>x. trust m' x = (if x = d \<and> acc then live_of m d else trust m x)))"
| "promised env rid (DevicePair d) j m m' =
     (\<exists>b. j = JObj [(''accepted'', JBool b)] \<and> (rid, APair (Inr b)) \<in> set (answers m'))"
| "promised env rid (ReqSendFile d p) j m m' =
     (\<exists>tid r. j = JObj [(''transfer_id'', JStr tid)] \<and> tget tid (transfers m') = Some r \<and> tr_device_id r = d \<and>
        direction r = ''outgoing'' \<and> connected_now m d)"
| "promised env rid (TransferCancel tid) j m m' =
     (\<exists>r. tget tid (transfers m) = Some r \<and> tr_state r = ''active'' \<and> tget tid (transfers m') = Some (r\<lparr>cancel := True\<rparr>))"
| "promised env rid (PluginSetEnabled d p b) j m m' =
     (kv_get None (plugin_key d p) (mstore m') = Inr (Some (if b then ''1'' else ''0'')))"
| "promised env rid DeviceList j m m' = (j = JArr (if re_up env then snapshot m else []) \<and> devices m' = devices m)"
| "promised env rid TransferList j m m' =
     (j = JArr (if re_up env then transfer_snapshot m else []) \<and> transfers m' = transfers m)"
| "promised env rid req j m m' = (m' = m)"

lemma parked_live: "mgr_inv m \<Longrightarrow> thas d (incoming_pairs m) \<Longrightarrow> live_of m d \<noteq> None"
  by (auto simp: mgr_inv_def connected_now_def live_of_def dev_ok_def is_connected_def split: option.splits)

lemma answered_pairing:
  assumes "mgr_inv m" "answer_incoming_pairing env d acc m = (Inr u, m')"
  shows "live_of m d \<noteq> None \<and> (\<forall>x. trust m' x = (if x = d \<and> acc then live_of m d else trust m x))"
proof -
  have live: "live_of m d \<noteq> None"
    using assms by (intro parked_live) (auto simp: answer_incoming_pairing_def thas_def Let_def split: option.splits if_splits)
  then have "live_of (m\<lparr>incoming_pairs := tdel d (incoming_pairs m)\<rparr>) d = live_of m d"
      "trust (m\<lparr>incoming_pairs := tdel d (incoming_pairs m)\<rparr>) x = trust m x" for x
    by (simp_all add: live_of_def trust_def)
  then show ?thesis
    using assms(2) live
    by (auto simp: answer_incoming_pairing_def Let_def persist_trust_trust split: option.splits if_splits)
qed


text \<open>The code a failing request reports, and the requests that have no implementation yet.\<close>

fun error_code :: "request \<Rightarrow> 32 word option" where
  "error_code (DevicePair d) = Some 2001"
| "error_code (DeviceUnpair d) = Some 2002"
| "error_code (ReqPairingAnswer d acc) = Some 2003"
| "error_code (PluginSetEnabled d p b) = Some 3000"
| "error_code (ReqSendFile d p) = Some 4001"
| "error_code (TransferCancel tid) = Some 4002"
| "error_code ClipboardGet = Some 5000"
| "error_code (ClipboardSet t) = Some 5000"
| "error_code (RunCommand d n) = Some 6000"
| "error_code (SetVolume v) = Some 7000"
| "error_code GetVolume = Some 7001"
| "error_code (request.ShareText d t) = Some 8000"
| "error_code (request.ShareUrl d u) = Some 8001"
| "error_code (RequestBattery d) = Some 9000"
| "error_code (SendSms d n t) = Some 9001"
| "error_code req = None"

definition unimplemented :: "request \<Rightarrow> bool" where
  "unimplemented req = (error_code req \<in> Some ` {6000, 7000, 7001, 8000, 8001, 9000, 9001})"

text \<open>Failures are told apart and contained: a request can only fail with the code of its kind, a request without
  implementation always fails and changes nothing, and while the manager is stopped no request changes
  anything but a saved plugin setting, with every request to change a device or transfer failing.\<close>

lemma request_failures_are_contained:
  assumes "handle_request env self rid req m = (resp, m')"
  shows "(case resp of RErr code msg \<Rightarrow> error_code req = Some code | ROk j \<Rightarrow> \<not> unimplemented req) \<and>
    (unimplemented req \<longrightarrow> m' = m) \<and>
    (\<not> re_up env \<longrightarrow> (m' = m \<or> (\<exists>d p b. req = PluginSetEnabled d p b \<and> m' = m\<lparr>mstore := mstore m'\<rparr>)) \<and>
       (error_code req \<in> Some ` {2001, 2002, 2003, 4001, 4002} \<longrightarrow> (\<exists>code. resp = RErr code ''device manager stopped'')))"
  using assms
  by (cases req)
     (auto simp: answer_with_def unimplemented_def ok_json_def resp_err_def handle_list_devices_def handle_transfer_list_def
        handle_start_pairing_def handle_unpair_def handle_pairing_answer_def handle_transfer_cancel_def handle_unit_def
        handle_send_file_def set_plugin_def kv_set_def Let_def
        split: prod.splits sum.splits if_splits option.splits)

section \<open>Concrete requests\<close>

definition demo_req :: req_env where
  "demo_req = \<lparr>re_mgr = calm, re_up = True, re_later = [], re_kv = None, re_environment = (\<lambda>_. None), re_version = ''0.1.0'',
     re_clip_get = Inr NoSeats, re_clip_set = Inr None, re_io_text = (\<lambda>_. ''fault'')\<rparr>"


text \<open>
  A saved plugin setting is only ever read by its own key; the manager hands every packet to every plugin
  whatever is saved.
\<close>

lemma plugin_setting_has_no_effect:
  assumes "handle_request env self rid (PluginSetEnabled d p b) m = (resp, m')"
  shows "dispatch_to_plugins env' x pkt m' =
    map_prod id (\<lambda>m1. m1\<lparr>mstore := mstore m'\<rparr>) (dispatch_to_plugins env' x pkt m)"
  using assms
  by (auto simp: answer_with_def set_plugin_def dispatch_to_plugins_def Let_def case_prod_beta split: option.splits sum.splits)

section \<open>Bus events for the clients\<close>

datatype bus_recv = BusEvent event | BusLagged nat | BusClosed

text \<open>The task that passes bus events on to the clients: what was skipped is not made up for.\<close>

fun event_forwarder :: "bus_recv list \<Rightarrow> server_event list" where
  "event_forwarder (BusEvent ev # rs) = server_event_of ev # event_forwarder rs"
| "event_forwarder (BusLagged n # rs) = event_forwarder rs"
| "event_forwarder (BusClosed # rs) = []"
| "event_forwarder [] = []"

lemma event_forwarder_in_order: "event_forwarder (map BusEvent evs) = map server_event_of evs"
  by (induction evs) simp_all

end
