(* ===== verification/Hf_Tui_Model.thy ===== *)
theory Hf_Tui_Model
  imports Hf_Json
begin

text \<open>
  The data model of the terminal client (\<^verbatim>\<open>tui/src/model.rs\<close>): rows for devices, plugins, transfers and
  notifications, the defensive parsers of the daemon's replies, and the formatting helpers.

  The text of a JSON value is a parameter where the code prints one.  Text that is shortened is a list over
  any alphabet, with the ellipsis as a parameter.
\<close>

section \<open>Rows\<close>

record device_entry =
  en_id :: string
  en_name :: string
  en_kind :: string
  en_paired :: bool
  en_state :: string

definition from_found :: "string \<Rightarrow> string \<Rightarrow> device_entry" where
  "from_found i n = \<lparr>en_id = i, en_name = n, en_kind = ''unknown'', en_paired = False, en_state = ''found''\<rparr>"

definition apply_state :: "string \<Rightarrow> device_entry \<Rightarrow> device_entry" where
  "apply_state s d = d\<lparr>en_state := s, en_paired := (s = ''paired'')\<rparr>"

text \<open>\<^verbatim>\<open>iter_mut().find(..)\<close>: the first element that matches is updated.\<close>

fun update_first :: "('a \<Rightarrow> bool) \<Rightarrow> ('a \<Rightarrow> 'a) \<Rightarrow> 'a list \<Rightarrow> 'a list" where
  "update_first p f [] = []"
| "update_first p f (x # xs) = (if p x then f x # xs else x # update_first p f xs)"

definition upsert_entry :: "device_entry \<Rightarrow> device_entry list \<Rightarrow> device_entry list" where
  "upsert_entry e ds = (if list_ex (\<lambda>d. en_id d = en_id e) ds
     then update_first (\<lambda>d. en_id d = en_id e) (\<lambda>_. e) ds else ds @ [e])"

record plugin_row =
  pr_name :: string
  pr_title :: string
  pr_enabled :: bool

record transfer_entry =
  te_id :: string
  te_name :: string
  te_done :: u64
  te_total :: u64

definition from_added :: "string \<Rightarrow> string \<Rightarrow> u64 \<Rightarrow> transfer_entry" where
  "from_added i n t = \<lparr>te_id = i, te_name = n, te_done = 0, te_total = t\<rparr>"

definition from_progress :: "string \<Rightarrow> u64 \<Rightarrow> u64 \<Rightarrow> transfer_entry" where
  "from_progress i d t = \<lparr>te_id = i, te_name = [], te_done = d, te_total = t\<rparr>"

definition apply_progress :: "u64 \<Rightarrow> u64 \<Rightarrow> transfer_entry \<Rightarrow> transfer_entry" where
  "apply_progress d t e = e\<lparr>te_done := d, te_total := t\<rparr>"

definition mark_finished :: "transfer_entry \<Rightarrow> transfer_entry" where
  "mark_finished e = (if te_total e > 0 then e\<lparr>te_done := te_total e\<rparr> else e)"

definition is_finished :: "transfer_entry \<Rightarrow> bool" where
  "is_finished e = (te_total e > 0 \<and> te_done e \<ge> te_total e)"

definition display_name :: "transfer_entry \<Rightarrow> string" where
  "display_name e = (if te_name e = [] then te_id e else te_name e)"

record notif_row =
  nr_id :: string
  nr_app :: string
  nr_title :: string
  nr_body :: string

section \<open>Parsing replies\<close>

definition field_with :: "(json \<Rightarrow> 'a option) \<Rightarrow> json table \<Rightarrow> string list \<Rightarrow> 'a option" where
  "field_with conv obj ks = (case List.find (\<lambda>k. Option.bind (tget k obj) conv \<noteq> None) ks of
       None \<Rightarrow> None
     | Some k \<Rightarrow> Option.bind (tget k obj) conv)"

definition field_str :: "json table \<Rightarrow> string list \<Rightarrow> string option" where
  "field_str = field_with as_str"

definition field_bool :: "json table \<Rightarrow> string list \<Rightarrow> bool option" where
  "field_bool = field_with as_bool"

definition field_u64 :: "json table \<Rightarrow> string list \<Rightarrow> nat option" where
  "field_u64 = field_with as_u64"

definition list_items :: "json \<Rightarrow> string \<Rightarrow> json list option" where
  "list_items v wrapper = (case as_array v of
       Some items \<Rightarrow> Some items
     | None \<Rightarrow> Option.bind (jget v wrapper) as_array)"

text \<open>\<^verbatim>\<open>filter_map\<close> over the items of a reply; entries that cannot be read are skipped.\<close>

definition parse_list :: "string \<Rightarrow> (json table \<Rightarrow> 'a option) \<Rightarrow> json \<Rightarrow> 'a list" where
  "parse_list wrapper row v = (case list_items v wrapper of
       None \<Rightarrow> []
     | Some items \<Rightarrow> List.map_filter (\<lambda>item. Option.bind (as_object item) row) items)"

definition device_of :: "json table \<Rightarrow> device_entry option" where
  "device_of obj = (case field_str obj [''id'', ''device_id''] of
       None \<Rightarrow> None
     | Some i \<Rightarrow>
         let st = unwrap_or (field_str obj [''state'', ''status'']) ''found'' in
         Some \<lparr>en_id = i, en_name = unwrap_or (field_str obj [''name'', ''device_name'']) i,
               en_kind = unwrap_or (field_str obj [''type'', ''kind'', ''device_type'']) ''unknown'',
               en_paired = unwrap_or (field_bool obj [''paired'']) (st = ''paired''), en_state = st\<rparr>)"

definition parse_devices :: "json \<Rightarrow> device_entry list" where
  "parse_devices = parse_list ''devices'' device_of"

definition plugin_of :: "json table \<Rightarrow> plugin_row option" where
  "plugin_of obj = (case field_str obj [''name'', ''plugin'', ''id''] of
       None \<Rightarrow> None
     | Some n \<Rightarrow> Some \<lparr>pr_name = n, pr_title = unwrap_or (field_str obj [''title'', ''label'']) n,
         pr_enabled = unwrap_or (field_bool obj [''enabled'', ''active'']) False\<rparr>)"

definition parse_plugins :: "json \<Rightarrow> plugin_row list" where
  "parse_plugins = parse_list ''plugins'' plugin_of"

definition notif_of :: "json table \<Rightarrow> notif_row option" where
  "notif_of obj = (case field_str obj [''id'', ''notification_id''] of
       None \<Rightarrow> None
     | Some i \<Rightarrow> Some \<lparr>nr_id = i, nr_app = unwrap_or (field_str obj [''app'', ''application'', ''source'']) [],
         nr_title = unwrap_or (field_str obj [''title'', ''summary'']) [],
         nr_body = unwrap_or (field_str obj [''body'', ''text'', ''message'']) []\<rparr>)"

definition parse_notifications :: "json \<Rightarrow> notif_row list" where
  "parse_notifications = parse_list ''notifications'' notif_of"

definition extract_text :: "(json \<Rightarrow> string) \<Rightarrow> json \<Rightarrow> string" where
  "extract_text json_text v = (case v of
       JStr t \<Rightarrow> t
     | JObj m \<Rightarrow> unwrap_or (Option.bind (tget ''text'' m) as_str) []
     | _ \<Rightarrow> json_text v)"

section \<open>Formatting\<close>

definition short_hash :: "string \<Rightarrow> string" where
  "short_hash s = take 8 s"

definition ellipsize :: "'c \<Rightarrow> 'c list \<Rightarrow> nat \<Rightarrow> 'c list" where
  "ellipsize dots t n = (if length t \<le> n then t
     else if n = 0 then [] else if n = 1 then take 1 t else take (n - 1) t @ [dots])"

definition yes_no :: "bool \<Rightarrow> string" where
  "yes_no b = (if b then ''yes'' else ''no'')"

text \<open>\<^verbatim>\<open>{s:<n}\<close>\<close>

definition pad :: "nat \<Rightarrow> string \<Rightarrow> string" where
  "pad n s = s @ replicate (n - length s) (CHR '' '')"

text \<open>
  Byte counts.  \<^verbatim>\<open>as f64\<close> rounds to 53 significant bits, ties to even; dividing by 1024 is exact;
  \<^verbatim>\<open>{:.1}\<close> rounds the exact value to tenths, ties to even.
\<close>

definition div_even :: "nat \<Rightarrow> nat \<Rightarrow> nat" where
  "div_even a b = (let q = a div b; r = a mod b in
     if 2 * r > b \<or> (2 * r = b \<and> odd q) then Suc q else q)"

fun bit_length :: "nat \<Rightarrow> nat" where
  "bit_length n = (if n = 0 then 0 else Suc (bit_length (n div 2)))"

declare bit_length.simps [simp del]

definition f64_of :: "nat \<Rightarrow> nat" where
  "f64_of n = (let k = bit_length n - 53 in div_even n (2 ^ k) * 2 ^ k)"

definition UNITS :: "string list" where
  "UNITS = [''B'', ''KiB'', ''MiB'', ''GiB'', ''TiB'', ''PiB'']"

text \<open>The value is kept as its numerator over \<open>1024 ^ u\<close>.\<close>

function unit_for :: "nat \<Rightarrow> nat \<Rightarrow> nat" where
  "unit_for v u = (if v \<ge> 1024 * 1024 ^ u \<and> u + 1 < length UNITS then unit_for v (Suc u) else u)"
  by pat_completeness auto
termination by (relation "measure (\<lambda>(v, u). length UNITS - u)") (auto simp: UNITS_def)

declare unit_for.simps [simp del]

definition human_bytes :: "u64 \<Rightarrow> string" where
  "human_bytes bytes = (let v = f64_of (unat bytes); u = unit_for v 0 in
     if u = 0 then show_nat (unat bytes) @ '' B''
     else let tenths = div_even (10 * v) (1024 ^ u) in
       show_nat (tenths div 10) @ ''.'' @ show_nat (tenths mod 10) @ '' '' @ UNITS ! u)"

section \<open>Facts\<close>

lemma length_update_first [simp]: "length (update_first q f xs) = length xs"
  by (induction xs) auto

lemma update_first_Nil [simp]: "update_first q f xs = [] \<longleftrightarrow> xs = []"
  by (cases xs) auto

lemma update_first_ids:
  "map h (update_first (\<lambda>x. h x = k) f xs) = map h xs" if "\<And>x. h x = k \<Longrightarrow> h (f x) = k"
  using that by (induction xs) auto

text \<open>Insert-or-replace keeps identifiers unique and changes no other row.\<close>

lemma upsert_entry_ids:
  "map en_id (upsert_entry e ds) = (if en_id e \<in> set (map en_id ds) then map en_id ds else map en_id ds @ [en_id e])"
  by (auto simp: upsert_entry_def list_ex_iff update_first_ids) (metis image_eqI)

lemma upsert_entry_distinct: "distinct (map en_id ds) \<Longrightarrow> distinct (map en_id (upsert_entry e ds))"
  by (simp add: upsert_entry_ids)

lemma ellipsize_length: "length (ellipsize dots t n) \<le> n"
  by (auto simp: ellipsize_def)

lemma ellipsize_fits: "length t \<le> n \<Longrightarrow> ellipsize dots t n = t"
  by (simp add: ellipsize_def)

lemma mark_finished_finishes: "te_total e > 0 \<Longrightarrow> is_finished (mark_finished e)"
  by (simp add: mark_finished_def is_finished_def)

lemma unit_for_range: "u < length UNITS \<Longrightarrow> unit_for v u < length UNITS"
proof (induction v u rule: unit_for.induct)
  case (1 v u)
  then show ?case by (auto simp: unit_for.simps [of v u])
qed

lemma unit_for_scaled:
  "u < length UNITS \<Longrightarrow> unit_for v u + 1 < length UNITS \<Longrightarrow> v < 1024 * 1024 ^ unit_for v u"
proof (induction v u rule: unit_for.induct)
  case (1 v u)
  then show ?case by (auto simp: unit_for.simps [of v u] split: if_splits)
qed

text \<open>A field is found under the first of its names that holds a value of the right kind.\<close>

lemma field_with_Cons:
  "field_with conv obj (k # ks) = (case Option.bind (tget k obj) conv of Some v \<Rightarrow> Some v | None \<Rightarrow> field_with conv obj ks)"
  by (auto simp: field_with_def split: option.splits)

lemma field_with_Nil: "field_with conv obj [] = None"
  by (simp add: field_with_def)

lemmas field_simps' = field_str_def field_bool_def field_u64_def field_with_Cons field_with_Nil

lemma parse_list_objects:
  assumes "\<And>x. x \<in> set xs \<Longrightarrow> row (obj x) = Some (f x)"
  shows "parse_list wrapper row (JArr (map (\<lambda>x. JObj (obj x)) xs)) = map f xs"
proof -
  have "List.map_filter (\<lambda>item. Option.bind (as_object item) row) (map (\<lambda>x. JObj (obj x)) xs) = map f xs"
    using assms by (induction xs) (simp_all add: List.map_filter_simps as_object_def)
  then show ?thesis by (simp add: parse_list_def list_items_def as_array_def)
qed

end
