(* ===== verification/Hf_Cmd.thy ===== *)
theory Hf_Cmd
  imports Hf_Proto Hf_Tui_Model
begin

text \<open>
  The control client's requests and what it prints (\<^verbatim>\<open>tui/src/error.rs\<close>, \<^verbatim>\<open>tui/src/cmd.rs\<close>).

  A command is a function on what it may change: the other side of the connection, the files, and the two
  output streams as lists of lines.  It returns a value or an error, and the question mark operator is
  \<^verbatim>\<open>bind_c\<close>.  What the outside decides is the record \<^verbatim>\<open>cli_env\<close>: how a request is answered (a response, or
  the text of a transport failure), the text of JSON values and of responses in debug form, the line read
  from the terminal, the events waiting in or arriving on the event feed, the measured round trip.  Writing
  to the output streams does not fail.
\<close>

section \<open>Errors\<close>

datatype tui_error =
    TIpc string
  | TIo string
  | TDaemon "32 word" string
  | TJson string
  | EventStreamUnavailable

definition error_msg :: "string \<Rightarrow> tui_error" where
  "error_msg s = TIo s"

definition show_i32 :: "32 word \<Rightarrow> string" where
  "show_i32 w = (if sint w < 0 then ''-'' @ show_nat (nat (- sint w)) else show_nat (nat (sint w)))"

fun show_error :: "tui_error \<Rightarrow> string" where
  "show_error (TIpc s) = ''ipc: '' @ s"
| "show_error (TIo s) = ''io: '' @ s"
| "show_error (TDaemon code msg) = ''daemon error ['' @ show_i32 code @ '']: '' @ msg"
| "show_error (TJson s) = ''json: '' @ s"
| "show_error EventStreamUnavailable = ''server event stream unavailable''"

definition expect_ok :: "response \<Rightarrow> tui_error + json" where
  "expect_ok r = (case r of ROk v \<Rightarrow> Ok v | RErr code msg \<Rightarrow> Err (TDaemon code msg))"

section \<open>Commands\<close>

record 'w cli_state =
  cl_world :: 'w
  cl_files :: "string \<Rightarrow> string option"
  cl_out :: "string list"
  cl_err :: "string list"

record 'w cli_env =
  ce_rpc :: "request \<Rightarrow> 'w \<Rightarrow> (string + response) \<times> 'w"
  ce_json :: "json \<Rightarrow> string"
  ce_pretty :: "json \<Rightarrow> string option"
  ce_debug :: "response \<Rightarrow> string"
  ce_stdin :: "string + string"
  ce_receiver :: bool
  ce_buffered :: "server_event list"
  ce_window :: "server_event list"
  ce_ping :: "json \<times> string"
  ce_dash :: string

type_synonym ('w, 'a) cmd = "'w cli_state \<Rightarrow> (tui_error + 'a) \<times> 'w cli_state"

definition ok_c :: "'a \<Rightarrow> ('w, 'a) cmd" where
  "ok_c x s = (Ok x, s)"

definition err_c :: "tui_error \<Rightarrow> ('w, 'a) cmd" where
  "err_c e s = (Err e, s)"

definition bind_c :: "('w, 'a) cmd \<Rightarrow> ('a \<Rightarrow> ('w, 'b) cmd) \<Rightarrow> ('w, 'b) cmd" where
  "bind_c m k s = (case m s of (Inr x, s') \<Rightarrow> k x s' | (Inl e, s') \<Rightarrow> (Err e, s'))"

definition of_result :: "tui_error + 'a \<Rightarrow> ('w, 'a) cmd" where
  "of_result r s = (r, s)"

definition println :: "string list \<Rightarrow> ('w, unit) cmd" where
  "println ls s = (Ok (), s\<lparr>cl_out := cl_out s @ ls\<rparr>)"

definition eprintln :: "string list \<Rightarrow> ('w, unit) cmd" where
  "eprintln ls s = (Ok (), s\<lparr>cl_err := cl_err s @ ls\<rparr>)"

text \<open>\<^verbatim>\<open>client.request(..).await?\<close>, alone and with \<^verbatim>\<open>expect_ok\<close>\<close>

definition call_raw :: "'w cli_env \<Rightarrow> request \<Rightarrow> ('w, response) cmd" where
  "call_raw env req s = (case ce_rpc env req (cl_world s) of
       (Inr r, w) \<Rightarrow> (Ok r, s\<lparr>cl_world := w\<rparr>)
     | (Inl e, w) \<Rightarrow> (Err (TIpc e), s\<lparr>cl_world := w\<rparr>))"

definition call_ok :: "'w cli_env \<Rightarrow> request \<Rightarrow> ('w, json) cmd" where
  "call_ok env req = bind_c (call_raw env req) (\<lambda>r. of_result (expect_ok r))"

definition call_unit :: "'w cli_env \<Rightarrow> request \<Rightarrow> ('w, unit) cmd" where
  "call_unit env req = bind_c (call_ok env req) (\<lambda>_. ok_c ())"

section \<open>Requests\<close>

definition fetch_devices :: "'w cli_env \<Rightarrow> ('w, device_entry list) cmd" where
  "fetch_devices env = bind_c (call_ok env DeviceList) (\<lambda>payload. ok_c (parse_devices payload))"

definition fetch_notifications :: "'w cli_env \<Rightarrow> ('w, notif_row list) cmd" where
  "fetch_notifications env = bind_c (call_ok env NotificationList) (\<lambda>payload. ok_c (parse_notifications payload))"

definition fetch_plugins :: "'w cli_env \<Rightarrow> string \<Rightarrow> ('w, plugin_row list) cmd" where
  "fetch_plugins env d = bind_c (call_ok env (PluginList d)) (\<lambda>payload. ok_c (parse_plugins payload))"

definition cmd_pair :: "'w cli_env \<Rightarrow> string \<Rightarrow> ('w, unit) cmd" where
  "cmd_pair env d = call_unit env (DevicePair d)"

definition pair_answer :: "'w cli_env \<Rightarrow> string \<Rightarrow> bool \<Rightarrow> ('w, unit) cmd" where
  "pair_answer env d accept = call_unit env (ReqPairingAnswer d accept)"

definition cmd_unpair :: "'w cli_env \<Rightarrow> string \<Rightarrow> ('w, unit) cmd" where
  "cmd_unpair env d = call_unit env (DeviceUnpair d)"

definition set_plugin_enabled :: "'w cli_env \<Rightarrow> string \<Rightarrow> string \<Rightarrow> bool \<Rightarrow> ('w, unit) cmd" where
  "set_plugin_enabled env d p b = call_unit env (PluginSetEnabled d p b)"

definition cmd_send_file :: "'w cli_env \<Rightarrow> string \<Rightarrow> string \<Rightarrow> ('w, json) cmd" where
  "cmd_send_file env d p = call_ok env (ReqSendFile d p)"

definition dismiss_notification :: "'w cli_env \<Rightarrow> string \<Rightarrow> ('w, unit) cmd" where
  "dismiss_notification env n = call_unit env (NotificationDismiss n)"

definition clipboard_text :: "'w cli_env \<Rightarrow> ('w, string) cmd" where
  "clipboard_text env = bind_c (call_ok env ClipboardGet) (\<lambda>payload. ok_c (extract_text (ce_json env) payload))"

definition store_clipboard :: "'w cli_env \<Rightarrow> string \<Rightarrow> ('w, unit) cmd" where
  "store_clipboard env text = call_unit env (ClipboardSet text)"

section \<open>Tables\<close>

fun widen :: "nat list \<Rightarrow> string list \<Rightarrow> nat list" where
  "widen [] cells = []"
| "widen ws [] = ws"
| "widen (w # ws) (c # cells) = max w (length c) # widen ws cells"

definition table_widths :: "string list \<Rightarrow> string list list \<Rightarrow> nat list" where
  "table_widths headers rows = fold (\<lambda>row ws. widen ws row) rows (map length headers)"

definition get_at :: "'a list \<Rightarrow> nat \<Rightarrow> 'a option" where
  "get_at xs i = (if i < length xs then Some (xs ! i) else None)"

definition table_line :: "nat list \<Rightarrow> string list \<Rightarrow> string" where
  "table_line ws cells = join_with ''  '' (map (\<lambda>i. pad (ws ! i) (unwrap_or (get_at cells i) [])) [0..<length ws])"

definition table_lines :: "string list \<Rightarrow> string list list \<Rightarrow> string list" where
  "table_lines headers rows = (let ws = table_widths headers rows in
     table_line ws headers # replicate (sum_list ws + 2 * (length headers - 1)) (CHR ''-'') # map (table_line ws) rows)"

definition print_table :: "string list \<Rightarrow> string list list \<Rightarrow> ('w, unit) cmd" where
  "print_table headers rows = println (table_lines headers rows)"

section \<open>Subcommands\<close>

fun drain_hello :: "server_event list \<Rightarrow> string option" where
  "drain_hello [] = None"
| "drain_hello (SHello version app pid # evs) =
     Some (app @ '' '' @ [CHR 0xB7] @ '' pid '' @ show_nat (unat pid) @ '' '' @ [CHR 0xB7] @ '' protocol v'' @ show_nat (unat version))"
| "drain_hello (_ # evs) = drain_hello evs"

definition print_status :: "'w cli_env \<Rightarrow> string \<Rightarrow> bool \<Rightarrow> ('w, unit) cmd" where
  "print_status env socket json =
     bind_c (call_ok env DaemonInfo) (\<lambda>info.
     bind_c (call_ok env ReqPing) (\<lambda>_.
       let obj = as_object info;
           name = unwrap_or (Option.bind obj (\<lambda>m. field_str m [''name'', ''app'', ''hostname''])) ''handfast'';
           version = unwrap_or (Option.bind obj (\<lambda>m. field_str m [''version''])) ''unknown'' in
       if json then println [ce_json env (JObj [(''socket'', JStr socket),
           (''daemon'', JObj [(''name'', JStr name), (''version'', JStr version)]),
           (''ping_ms'', fst (ce_ping env)), (''info'', info)])]
       else
         let pid_label = (case Option.bind obj (\<lambda>m. field_u64 m [''pid'']) of
               None \<Rightarrow> ''pid unknown'' | Some pid \<Rightarrow> ''pid '' @ show_nat pid) in
         println [''socket:    '' @ socket,
           ''handshake: '' @ unwrap_or (if ce_receiver env then drain_hello (ce_buffered env) else None) ''<no Hello received>'',
           ''daemon:    '' @ name @ '' '' @ version @ '' '' @ [CHR 0xB7] @ '' '' @ pid_label,
           ''ping:      '' @ snd (ce_ping env) @ '' ms'',
           ''info:      '' @ ce_json env info]))"

definition device_cells :: "device_entry \<Rightarrow> string list" where
  "device_cells e = [en_id e, en_name e, en_kind e, yes_no (en_paired e), en_state e]"

definition print_devices :: "'w cli_env \<Rightarrow> bool \<Rightarrow> ('w, unit) cmd" where
  "print_devices env json =
     (if json then bind_c (call_ok env DeviceList) (\<lambda>payload. println [ce_json env payload])
      else bind_c (fetch_devices env) (\<lambda>entries.
        print_table [''ID'', ''NAME'', ''TYPE'', ''PAIRED'', ''STATE''] (map device_cells entries)))"

definition print_pair :: "'w cli_env \<Rightarrow> string \<Rightarrow> ('w, unit) cmd" where
  "print_pair env d = bind_c (cmd_pair env d) (\<lambda>_. println [''pair requested for '' @ d])"

definition print_unpair :: "'w cli_env \<Rightarrow> string \<Rightarrow> ('w, unit) cmd" where
  "print_unpair env d = bind_c (cmd_unpair env d) (\<lambda>_. println [''unpaired '' @ d])"

datatype plugin_action = PluginsList string | PluginsEnable string string | PluginsDisable string string

fun print_plugins_action :: "'w cli_env \<Rightarrow> plugin_action \<Rightarrow> ('w, unit) cmd" where
  "print_plugins_action env (PluginsList d) = bind_c (fetch_plugins env d) (\<lambda>rows.
     print_table [''PLUGIN'', ''TITLE'', ''ENABLED''] (map (\<lambda>r. [pr_name r, pr_title r, yes_no (pr_enabled r)]) rows))"
| "print_plugins_action env (PluginsEnable d p) =
     bind_c (set_plugin_enabled env d p True) (\<lambda>_. println [p @ '' enabled on '' @ d])"
| "print_plugins_action env (PluginsDisable d p) =
     bind_c (set_plugin_enabled env d p False) (\<lambda>_. println [p @ '' disabled on '' @ d])"

definition chosen :: "device_entry list \<Rightarrow> string \<Rightarrow> tui_error + string" where
  "chosen entries line = (case parse_uint (2 ^ 64) (trim_str line) of
       None \<Rightarrow> Err (error_msg ''invalid selection (expected a number)'')
     | Some choice \<Rightarrow> (case get_at entries (unat (of_nat choice - 1 :: u64)) of
           None \<Rightarrow> Err (error_msg ''selection out of range'')
         | Some e \<Rightarrow> Ok (en_id e)))"

definition picker_lines :: "'w cli_env \<Rightarrow> device_entry list \<Rightarrow> string list" where
  "picker_lines env entries = ''select a device:'' #
     map (\<lambda>(i, e). ''  '' @ show_nat i @ '') '' @ en_name e @ ''  ('' @ en_kind e @ '' '' @ ce_dash env @ '' '' @ en_id e @ '')'')
       (zip [1..<Suc (length entries)] entries)"

definition pick_device :: "'w cli_env \<Rightarrow> ('w, string) cmd" where
  "pick_device env = bind_c (fetch_devices env) (\<lambda>entries.
     if entries = [] then err_c (error_msg (''no devices discovered '' @ ce_dash env @ '' is the daemon running and on the network?''))
     else if length entries = 1 then ok_c (en_id (entries ! 0))
     else bind_c (eprintln (picker_lines env entries)) (\<lambda>_. case ce_stdin env of
         Inl e \<Rightarrow> err_c (TIo e)
       | Inr line \<Rightarrow> of_result (chosen entries line)))"

fun send_all :: "'w cli_env \<Rightarrow> string \<Rightarrow> string list \<Rightarrow> ('w, unit) cmd" where
  "send_all env target [] = ok_c ()"
| "send_all env target (p # ps) = bind_c (cmd_send_file env target p) (\<lambda>payload.
     bind_c (println [case ce_pretty env payload of
         Some text \<Rightarrow> if text \<noteq> ''null'' then text else ''transfer queued''
       | None \<Rightarrow> ''transfer queued'']) (\<lambda>_. send_all env target ps))"

definition print_send :: "'w cli_env \<Rightarrow> string option \<Rightarrow> bool \<Rightarrow> string list \<Rightarrow> ('w, unit) cmd" where
  "print_send env device pick paths =
     (if paths = [] then err_c (error_msg ''no files to send: pass one or more PATH arguments'')
      else bind_c (case (device, pick) of
            (Some d, _) \<Rightarrow> ok_c d
          | (None, True) \<Rightarrow> pick_device env
          | (None, False) \<Rightarrow> err_c (error_msg ''no target device: pass DEVICE_ID or use --pick''))
        (\<lambda>target. send_all env target paths))"

datatype notification_action = NotifList | NotifDismiss string

fun print_notifications_action :: "'w cli_env \<Rightarrow> notification_action \<Rightarrow> ('w, unit) cmd" where
  "print_notifications_action env NotifList = bind_c (fetch_notifications env) (\<lambda>rows.
     print_table [''ID'', ''APP'', ''TITLE'', ''BODY''] (map (\<lambda>r. [nr_id r, nr_app r, nr_title r, nr_body r]) rows))"
| "print_notifications_action env (NotifDismiss n) =
     bind_c (dismiss_notification env n) (\<lambda>_. println [''dismissed '' @ n])"

datatype clipboard_action = ClipGet | ClipSet string

fun print_clipboard_action :: "'w cli_env \<Rightarrow> clipboard_action \<Rightarrow> ('w, unit) cmd" where
  "print_clipboard_action env ClipGet = bind_c (clipboard_text env) (\<lambda>text. println [text])"
| "print_clipboard_action env (ClipSet text) = bind_c (store_clipboard env text)
     (\<lambda>_. println [''clipboard updated ('' @ show_nat (length text) @ '' chars)''])"

fun log_records :: "server_event list \<Rightarrow> string list" where
  "log_records [] = []"
| "log_records (SLogRecord level msg # evs) = (''['' @ pad 5 level @ ''] '' @ msg) # log_records evs"
| "log_records (_ # evs) = log_records evs"

definition print_logs :: "'w cli_env \<Rightarrow> nat \<Rightarrow> ('w, unit) cmd" where
  "print_logs env limit =
     (if \<not> ce_receiver env then err_c EventStreamUnavailable
      else let records = log_records (ce_window env) in
        if records = [] then println [''(no log records arrived within the 2 listen window)'']
        else println (drop (length records - limit) records))"

definition transfer_line :: "json \<Rightarrow> string" where
  "transfer_line t = unwrap_or (Option.bind (jget t ''id'') as_str) ''?'' @ ''  '' @
     unwrap_or (Option.bind (jget t ''file_name'') as_str) ''?'' @ ''  '' @
     show_nat (unwrap_or (Option.bind (jget t ''done'') as_u64) 0) @ ''/'' @
     show_nat (unwrap_or (Option.bind (jget t ''total'') as_u64) 0)"

definition print_transfers :: "'w cli_env \<Rightarrow> response \<Rightarrow> ('w, unit) cmd" where
  "print_transfers env r = (case r of
       ROk result \<Rightarrow> (case as_array result of
           None \<Rightarrow> ok_c ()
         | Some items \<Rightarrow> if items = [] then println [''no active transfers''] else println (map transfer_line items))
     | RErr _ _ \<Rightarrow> println [ce_debug env r])"

section \<open>Facts\<close>

lemma bind_c_simps [simp]:
  "bind_c (ok_c x) k s = k x s"
  "bind_c (err_c e) k s = (Err e, s)"
  "bind_c (of_result (Ok x)) k s = k x s"
  "bind_c (of_result (Err e)) k s = (Err e, s)"
  "bind_c (println ls) k s = k () (s\<lparr>cl_out := cl_out s @ ls\<rparr>)"
  "bind_c (eprintln ls) k s = k () (s\<lparr>cl_err := cl_err s @ ls\<rparr>)"
  by (simp_all add: bind_c_def ok_c_def err_c_def of_result_def println_def eprintln_def)

lemma bind_c_ok: "m s = (Ok x, s') \<Longrightarrow> bind_c m k s = k x s'"
  by (simp add: bind_c_def)

lemma bind_c_err: "m s = (Err e, s') \<Longrightarrow> bind_c m k s = (Err e, s')"
  by (simp add: bind_c_def)

lemma bind_c_assoc: "bind_c (bind_c m k) l = bind_c m (\<lambda>x. bind_c (k x) l)"
  by (rule ext) (auto simp: bind_c_def split: prod.split sum.split)

text \<open>A command succeeds only if every part of it did.\<close>

lemma bind_c_OkE:
  assumes "bind_c m k s = (Ok y, s')"
  obtains x s1 where "m s = (Ok x, s1)" "k x s1 = (Ok y, s')"
  using assms by (auto simp: bind_c_def split: prod.splits sum.splits)

text \<open>A request that demands success returns the payload of a positive answer, and nothing else.\<close>

lemma call_ok_Ok:
  "call_ok env req s = (Ok v, s') \<longleftrightarrow>
     (\<exists>w. ce_rpc env req (cl_world s) = (Ok (ROk v), w) \<and> s' = s\<lparr>cl_world := w\<rparr>)"
  by (auto simp: call_ok_def call_raw_def bind_c_def of_result_def expect_ok_def
      split: prod.splits sum.splits response.splits)

lemma call_unit_Ok:
  "call_unit env req s = (Ok u, s') \<longleftrightarrow>
     (\<exists>v w. ce_rpc env req (cl_world s) = (Ok (ROk v), w) \<and> s' = s\<lparr>cl_world := w\<rparr>)"
  by (auto simp: call_unit_def call_ok_def call_raw_def bind_c_def of_result_def expect_ok_def ok_c_def
      split: prod.splits sum.splits response.splits)

subsection \<open>Tables\<close>

lemma length_pad: "length s \<le> n \<Longrightarrow> length (pad n s) = n"
  by (simp add: pad_def)

lemma length_widen [simp]: "length (widen ws row) = length ws"
  by (induction ws row rule: widen.induct) auto

lemma widen_ge: "i < length ws \<Longrightarrow> ws ! i \<le> widen ws row ! i"
  by (induction ws row arbitrary: i rule: widen.induct) (auto simp: nth_Cons split: nat.split)

lemma widen_cell: "i < length ws \<Longrightarrow> i < length row \<Longrightarrow> length (row ! i) \<le> widen ws row ! i"
  by (induction ws row arbitrary: i rule: widen.induct) (auto simp: nth_Cons split: nat.split)

lemma length_widen_all [simp]: "length (fold (\<lambda>row ws. widen ws row) rows ws) = length ws"
  by (induction rows arbitrary: ws) auto

lemma widen_all_ge: "i < length ws \<Longrightarrow> ws ! i \<le> fold (\<lambda>row ws. widen ws row) rows ws ! i"
proof (induction rows arbitrary: ws)
  case (Cons row rows)
  show ?case using Cons.prems widen_ge [of i ws row] Cons.IH [of "widen ws row"] by simp
qed simp

lemma widen_all_cell:
  "i < length ws \<Longrightarrow> row \<in> set rows \<Longrightarrow> i < length row \<Longrightarrow>
     length (row ! i) \<le> fold (\<lambda>row ws. widen ws row) rows ws ! i"
proof (induction rows arbitrary: ws)
  case (Cons r rows)
  show ?case
  proof (cases "row = r")
    case True
    then show ?thesis using Cons.prems widen_cell [of i ws r] widen_all_ge [of i "widen ws r" rows]
      by simp
  qed (use Cons in auto)
qed simp

lemma length_join_with: "length (join_with sep xs) = sum_list (map length xs) + length sep * (length xs - 1)"
  by (induction sep xs rule: join_with.induct) (auto simp: algebra_simps)

lemma length_table_line:
  assumes "\<And>i. i < length ws \<Longrightarrow> i < length cells \<Longrightarrow> length (cells ! i) \<le> ws ! i"
  shows "length (table_line ws cells) = sum_list ws + 2 * (length ws - 1)"
proof -
  have "map (\<lambda>i. length (pad (ws ! i) (unwrap_or (get_at cells i) []))) [0..<length ws] = map ((!) ws) [0..<length ws]"
    by (rule map_cong) (auto simp: get_at_def unwrap_or_def length_pad assms)
  then show ?thesis by (simp add: table_line_def length_join_with comp_def map_nth)
qed

text \<open>Every line of a table, the rule included, is as wide as the others, whatever rows it is given.\<close>

lemma table_aligned:
  assumes "l \<in> set (table_lines headers rows)"
  shows "length l = sum_list (table_widths headers rows) + 2 * (length headers - 1)"
proof -
  have "length (table_line (table_widths headers rows) headers) = sum_list (table_widths headers rows) + 2 * (length headers - 1)"
    using widen_all_ge [of _ "map length headers" rows]
    by (subst length_table_line) (auto simp: table_widths_def)
  moreover have "length (table_line (table_widths headers rows) row) = sum_list (table_widths headers rows) + 2 * (length headers - 1)"
    if "row \<in> set rows" for row
    using that widen_all_cell [of _ "map length headers" row rows]
    by (subst length_table_line) (auto simp: table_widths_def)
  ultimately show ?thesis using assms by (auto simp: table_lines_def Let_def)
qed

subsection \<open>The device picker\<close>

text \<open>The picker returns a listed device; the number zero is out of range like any other.\<close>

lemma chosen_listed: "chosen entries line = Ok d \<Longrightarrow> d \<in> en_id ` set entries"
  by (auto simp: chosen_def get_at_def simp del: unsigned_of_nat split: option.splits if_splits)

lemma pick_device_listed:
  assumes "pick_device env s = (Ok d, s')"
  obtains entries s1 where "fetch_devices env s = (Ok entries, s1)" "d \<in> en_id ` set entries"
proof -
  obtain entries s1 where f: "fetch_devices env s = (Ok entries, s1)"
    using assms by (auto simp: pick_device_def elim: bind_c_OkE)
  have "d \<in> en_id ` set entries"
    using assms chosen_listed [of entries _ d]
    by (auto simp: pick_device_def bind_c_ok [where m = "fetch_devices env", OF f] ok_c_def err_c_def of_result_def
        split: if_splits sum.splits)
  then show ?thesis using f that by blast
qed

end
