(* ===== verification/Hf_Filemanager.thy ===== *)
theory Hf_Filemanager
  imports Hf_Cmd Hf_Transfer
begin

text \<open>
  The file-manager menus the control client installs, refreshes and removes (\<^verbatim>\<open>tui/src/filemanager.rs\<close>).

  Files are a map from paths to text.  The record \<^verbatim>\<open>fm_env\<close> holds the path of the running program, the home
  directory, what the operating system refuses, and the ellipsis character of the menu labels.
  The device list that the generated extension shows is read by Python code inside the template; that
  function is modelled too.
\<close>

section \<open>Files\<close>

record fm_env =
  fm_exe :: "string option"
  fm_home :: "string option"
  fm_mkdir :: "string \<Rightarrow> string option"
  fm_read :: "string \<Rightarrow> string option"
  fm_write :: "string \<Rightarrow> string option"
  fm_remove :: "string \<Rightarrow> bool"
  fm_absent :: string
  fm_dots :: string

definition create_dir_all :: "fm_env \<Rightarrow> string \<Rightarrow> ('w, unit) cmd" where
  "create_dir_all fe d s = ((case fm_mkdir fe d of None \<Rightarrow> Ok () | Some e \<Rightarrow> Err (TIo e)), s)"

definition read_result :: "fm_env \<Rightarrow> string \<Rightarrow> (string \<Rightarrow> string option) \<Rightarrow> string + string" where
  "read_result fe p files = (case fm_read fe p of
       Some e \<Rightarrow> Err e
     | None \<Rightarrow> (case files p of None \<Rightarrow> Err (fm_absent fe) | Some t \<Rightarrow> Ok t))"

definition read_text :: "fm_env \<Rightarrow> string \<Rightarrow> ('w, string) cmd" where
  "read_text fe p s = ((case read_result fe p (cl_files s) of Inl e \<Rightarrow> Err (TIo e) | Inr t \<Rightarrow> Ok t), s)"

definition write_text :: "fm_env \<Rightarrow> string \<Rightarrow> string \<Rightarrow> ('w, unit) cmd" where
  "write_text fe p t s = (case fm_write fe p of
       Some e \<Rightarrow> (Err (TIo e), s)
     | None \<Rightarrow> (Ok (), s\<lparr>cl_files := (cl_files s)(p := Some t)\<rparr>))"

definition remove_text :: "fm_env \<Rightarrow> string \<Rightarrow> ('w, unit) cmd" where
  "remove_text fe p s = (Ok (), if fm_remove fe p then s\<lparr>cl_files := (cl_files s)(p := None)\<rparr> else s)"

definition write_file_if_changed :: "fm_env \<Rightarrow> string \<Rightarrow> string \<Rightarrow> ('w, unit) cmd" where
  "write_file_if_changed fe p t s =
     (if read_result fe p (cl_files s) = Ok t then (Ok (), s) else write_text fe p t s)"

section \<open>Locations\<close>

definition GOBJECT_FMS :: "(string \<times> string) list" where
  "GOBJECT_FMS = [(''nautilus'', ''Nautilus''), (''nemo'', ''Nemo''), (''caja'', ''Caja'')]"

definition MARKER :: string where "MARKER = ''handfast-send''"

definition hfctl_bin :: "fm_env \<Rightarrow> string" where
  "hfctl_bin fe = unwrap_or (fm_exe fe) ''hfctl''"

definition fm_home_dir :: "fm_env \<Rightarrow> string" where
  "fm_home_dir fe = unwrap_or (fm_home fe) ''/tmp''"

definition gobject_dir :: "fm_env \<Rightarrow> string \<Rightarrow> bool \<Rightarrow> string" where
  "gobject_dir fe fm system = (if system then ''/usr/share/'' @ fm @ ''-python/extensions''
     else join (join (fm_home_dir fe) ''.local/share'') (fm @ ''-python/extensions''))"

definition dolphin_dir :: "fm_env \<Rightarrow> bool \<Rightarrow> string" where
  "dolphin_dir fe system = (if system then ''/usr/share/kio/servicemenus''
     else join (fm_home_dir fe) ''.local/share/kio/servicemenus'')"

definition pcmanfm_dir :: "fm_env \<Rightarrow> bool \<Rightarrow> string" where
  "pcmanfm_dir fe system = (if system then ''/usr/share/file-manager/actions''
     else join (fm_home_dir fe) ''.local/share/file-manager/actions'')"

definition thunar_dir :: "fm_env \<Rightarrow> bool \<Rightarrow> string" where
  "thunar_dir fe system = (if system then ''/etc/xdg/Thunar'' else join (fm_home_dir fe) ''.config/Thunar'')"

definition thunar_path :: "fm_env \<Rightarrow> bool \<Rightarrow> string" where
  "thunar_path fe system = (if system then ''/etc/xdg/Thunar/uca.xml'' else join (fm_home_dir fe) ''.config/Thunar/uca.xml'')"

section \<open>Templates\<close>

abbreviation NL :: string where "NL \<equiv> [CHR 0x0A]"

definition unlines :: "string list \<Rightarrow> string" where
  "unlines ls = concat (map (\<lambda>l. l @ NL) ls)"

definition python_extension :: "fm_env \<Rightarrow> string \<Rightarrow> string" where
  \<open>python_extension fe m = (let bin = hfctl_bin fe;
     (file_sig, background_sig) = (if m = ''Nautilus'' then (''self, files'', ''self, current_folder'')
       else (''self, window, files'', ''self, window, current_folder'')) in unlines
    [''#!/usr/bin/env python3'',
     ''# Handfast "Send to device" context-menu extension for '' @ m @ ''.'',
     ''# Generated by `hfctl filemanager install`; re-run to update.'',
     ''import json'',
     ''import shutil'',
     ''import subprocess'',
     [],
     ''import gi'',
     [],
     ''gi.require_version("Gtk", "3.0")'',
     ''from gi.repository import GObject, Gtk  # noqa: E402'',
     ''from gi.repository import '' @ m @ ''  # noqa: E402'',
     [],
     ''HFCTL = shutil.which("hfctl") or "'' @ bin @ ''"'',
     [],
     [],
     ''def _devices():'',
     ''    try:'',
     ''        proc = subprocess.run('',
     ''            [HFCTL, "devices", "--json"], capture_output=True, text=True, timeout=5'',
     ''        )'',
     ''        rows = json.loads(proc.stdout or "[]")'',
     ''        return ['',
     ''            (row.get("id", ""), row.get("name", row.get("id", "?")))'',
     ''            for row in rows'',
     ''            if row.get("id")'',
     ''        ]'',
     ''    except Exception:'',
     ''        return []'',
     [],
     [],
     ''def _paths(files):'',
     ''    paths = []'',
     ''    for f in files:'',
     ''        loc = f.get_location()'',
     ''        if loc is None:'',
     ''            continue'',
     ''        p = loc.get_path()'',
     ''        if p:'',
     ''            paths.append(p)'',
     ''    return paths'',
     [],
     [],
     ''def _send(device_id, paths):'',
     ''    subprocess.Popen([HFCTL, "send", "-d", device_id] + paths)'',
     [],
     [],
     ''class HandfastSendExtension(GObject.GObject, '' @ m @ ''.MenuProvider):'',
     ''    def __init__(self):'',
     ''        super().__init__()'',
     [],
     ''    def _build(self, paths):'',
     ''        submenu = Gtk.Menu()'',
     ''        devices = _devices()'',
     ''        if not devices:'',
     ''            item = Gtk.MenuItem(label="No devices discovered")'',
     ''            item.set_sensitive(False)'',
     ''            submenu.append(item)'',
     ''        else:'',
     ''            for device_id, name in devices:'',
     ''                item = Gtk.MenuItem(label=name)'',
     ''                item.connect("activate", lambda _w, did=device_id: _send(did, paths))'',
     ''                submenu.append(item)'',
     ''        submenu.show_all()'',
     ''        top = '' @ m @ ''.MenuItem('',
     ''            name="handfast_send",'',
     ''            label="Send via Handfast",'',
     ''            tip="Send to a paired device",'',
     ''            icon="document-send",'',
     ''        )'',
     ''        top.set_submenu(submenu)'',
     ''        return [top]'',
     [],
     ''    def get_file_items('' @ file_sig @ ''):'',
     ''        paths = _paths(files)'',
     ''        return self._build(paths) if paths else []'',
     [],
     ''    def get_background_items('' @ background_sig @ ''):'',
     ''        return []''])\<close>

definition desktop_action :: "string \<Rightarrow> string \<times> string \<Rightarrow> string" where
  "desktop_action bin d = NL @ ''[Desktop Action send_to_'' @ fst d @ '']'' @ NL @ ''Name=Send to '' @ snd d @ NL @
     ''Icon=document-send'' @ NL @ ''Exec='' @ bin @ '' send -d '' @ fst d @ '' %F''"

definition dolphin_servicemenu :: "fm_env \<Rightarrow> (string \<times> string) list \<Rightarrow> string" where
  "dolphin_servicemenu fe devs = (let bin = hfctl_bin fe in
     unlines [''[Desktop Entry]'', ''Type=Service'', ''ServiceTypes=KonqPopupMenu/Plugin'', ''MimeType=all/all;'',
       ''Actions='' @ concat (map (\<lambda>d. ''send_to_'' @ fst d @ '';'') devs) @ ''send_pick;'', ''X-KDE-Priority=TopLevel'', []] @
     ''[Desktop Action send_pick]'' @ NL @ ''Name=Send via Handfast'' @ fm_dots fe @ NL @ ''Icon=document-send'' @ NL @
     ''Exec='' @ bin @ '' send --pick %F'' @ concat (map (desktop_action bin) devs))"

definition pcmanfm_action :: "fm_env \<Rightarrow> string" where
  "pcmanfm_action fe = unlines [''[Desktop Entry]'', ''Type=Action'', ''Name=Send via Handfast'' @ fm_dots fe,
     ''Icon=document-send'', ''Profiles=profile-zero;'', [], ''[X-Action-Profile profile-zero]'', ''MimeTypes=all/all;'',
     ''Exec='' @ hfctl_bin fe @ '' send --pick %F'']"

definition thunar_block :: "string \<Rightarrow> string \<Rightarrow> string" where
  "thunar_block dots bin = unlines
    [''  <action>'',
     ''    <icon>document-send</icon>'',
     ''    <name>Send via Handfast'' @ dots @ ''</name>'',
     ''    <submenu></submenu>'',
     ''    <unique-id>'' @ MARKER @ ''</unique-id>'',
     ''    <command>'' @ bin @ '' send --pick %F</command>'',
     ''    <description>Send the selected files to a paired device</description>'',
     ''    <patterns>*</patterns>'',
     ''    <directories/>'',
     ''    <audio-files/>'',
     ''    <image-files/>'',
     ''    <text-files/>'',
     ''    <video-files/>'',
     ''    <other-files/>'',
     ''  </action>'']"

section \<open>Thunar's action file\<close>

text \<open>\<^verbatim>\<open>str::replace\<close> with a non-empty pattern, and \<^verbatim>\<open>str::rfind\<close>\<close>

function replace_all :: "string \<Rightarrow> string \<Rightarrow> string \<Rightarrow> string" where
  "replace_all pat new s = (case s of
       [] \<Rightarrow> []
     | c # cs \<Rightarrow> if pat \<noteq> [] \<and> prefix pat s then new @ replace_all pat new (drop (length pat) s)
         else c # replace_all pat new cs)"
  by pat_completeness auto
termination by (relation "measure (\<lambda>(_, _, s). length s)") auto

declare replace_all.simps [simp del]

definition rfind_sub :: "string \<Rightarrow> string \<Rightarrow> nat option" where
  "rfind_sub pat s = map_option (\<lambda>k. length s - (k + length pat)) (find_sub (rev pat) (rev s))"

definition strip_action_block :: "string \<Rightarrow> string" where
  "strip_action_block content =
     (case find_sub (''<unique-id>'' @ MARKER @ ''</unique-id>'') content of
        None \<Rightarrow> content
      | Some marker_pos \<Rightarrow> (case rfind_sub ''<action>'' (take marker_pos content) of
          None \<Rightarrow> content
        | Some block_start \<Rightarrow> (case find_sub ''</action>'' (drop block_start content) of
            None \<Rightarrow> content
          | Some rel_end \<Rightarrow> take block_start content @ drop (block_start + rel_end + length ''</action>'') content)))"

definition thunar_remove :: "fm_env \<Rightarrow> bool \<Rightarrow> ('w, unit) cmd" where
  "thunar_remove fe system s = (let p = thunar_path fe system in
     if cl_files s p = None then (Ok (), s)
     else bind_c (read_text fe p) (\<lambda>content.
       let updated = strip_action_block content in
       if updated \<noteq> content then write_text fe p updated else ok_c ()) s)"

definition thunar_install :: "fm_env \<Rightarrow> bool \<Rightarrow> ('w, unit) cmd" where
  "thunar_install fe system s = (let p = thunar_path fe system; block = thunar_block (fm_dots fe) (hfctl_bin fe) in
     if cl_files s p = None then
       bind_c (create_dir_all fe (thunar_dir fe system)) (\<lambda>_. write_text fe p
         (''<?xml version='' @ [CHR 0x22] @ ''1.0'' @ [CHR 0x22] @ '' encoding='' @ [CHR 0x22] @ ''UTF-8'' @ [CHR 0x22] @ ''?>'' @
          NL @ ''<actions>'' @ NL @ block @ ''</actions>'' @ NL)) s
     else bind_c (read_text fe p) (\<lambda>content.
       if sublist MARKER content then ok_c ()
       else let updated = replace_all ''</actions>'' (block @ ''</actions>'') content in
         if updated = content then err_c (error_msg (p @ '': no </actions> closing tag found; refusing to guess''))
         else write_text fe p updated) s)"

definition thunar_merge :: "fm_env \<Rightarrow> bool \<Rightarrow> bool \<Rightarrow> ('w, unit) cmd" where
  "thunar_merge fe system remove = (if remove then thunar_remove fe system else thunar_install fe system)"

section \<open>Install, update, remove\<close>

definition py_path :: "fm_env \<Rightarrow> bool \<Rightarrow> string \<Rightarrow> string" where
  "py_path fe system fm = join (gobject_dir fe fm system) ''handfast_send.py''"

definition dolphin_path :: "fm_env \<Rightarrow> bool \<Rightarrow> string" where
  "dolphin_path fe system = join (dolphin_dir fe system) ''handfast-send.desktop''"

definition pcmanfm_path :: "fm_env \<Rightarrow> bool \<Rightarrow> string" where
  "pcmanfm_path fe system = join (pcmanfm_dir fe system) ''handfast-send.desktop''"

text \<open>The loop over the three managers with Python extensions; it returns the lines for the summary.\<close>

fun write_extensions :: "fm_env \<Rightarrow> bool \<Rightarrow> (string \<times> string) list \<Rightarrow> ('w, string list) cmd" where
  "write_extensions fe system [] = ok_c []"
| "write_extensions fe system ((fm, m) # fms) =
     bind_c (create_dir_all fe (gobject_dir fe fm system)) (\<lambda>_.
     bind_c (write_file_if_changed fe (py_path fe system fm) (python_extension fe m)) (\<lambda>_.
     bind_c (write_extensions fe system fms) (\<lambda>ls. ok_c ((fm @ '': '' @ py_path fe system fm) # ls))))"

definition write_dolphin :: "fm_env \<Rightarrow> bool \<Rightarrow> (string \<times> string) list \<Rightarrow> ('w, unit) cmd" where
  "write_dolphin fe system devs = bind_c (create_dir_all fe (dolphin_dir fe system)) (\<lambda>_.
     write_file_if_changed fe (dolphin_path fe system) (dolphin_servicemenu fe devs))"

definition fm_install :: "fm_env \<Rightarrow> bool \<Rightarrow> ('w, unit) cmd" where
  "fm_install fe system =
     bind_c (write_extensions fe system GOBJECT_FMS) (\<lambda>exts.
     bind_c (write_dolphin fe system []) (\<lambda>_.
     bind_c (if system
         then bind_c (println [''  thunar: skipped (Thunar reads only ~/.config/Thunar/uca.xml; run without --system)'']) (\<lambda>_. ok_c [])
         else bind_c (thunar_merge fe False False) (\<lambda>_. ok_c [''thunar: '' @ thunar_path fe False])) (\<lambda>thunar.
     bind_c (create_dir_all fe (pcmanfm_dir fe system)) (\<lambda>_.
     bind_c (write_file_if_changed fe (pcmanfm_path fe system) (pcmanfm_action fe)) (\<lambda>_.
     println (''installed Handfast send menus:'' #
       map (\<lambda>l. ''  '' @ l) (exts @ [''dolphin: '' @ dolphin_path fe system] @ thunar @ [''pcmanfm: '' @ pcmanfm_path fe system]) @
       (if system then [] else [[], ''Restart your file manager (or log out/in) for extensions to load.'',
          ''Re-run `hfctl filemanager update` after pairing changes.''])))))))"

definition menu_device :: "json \<Rightarrow> (string \<times> string) option" where
  "menu_device row = (case (case jget row ''device_id'' of Some v \<Rightarrow> Some v | None \<Rightarrow> jget row ''id'') of
       None \<Rightarrow> None
     | Some v \<Rightarrow> (case as_str v of
           None \<Rightarrow> None
         | Some i \<Rightarrow> Some (i, unwrap_or (Option.bind (jget row ''name'') as_str) i)))"

definition menu_devices :: "json \<Rightarrow> (string \<times> string) list" where
  "menu_devices payload = (case as_array payload of None \<Rightarrow> [] | Some rows \<Rightarrow> List.map_filter menu_device rows)"

text \<open>Failures of the request become local errors, whichever side they come from.\<close>

definition update_list :: "'w cli_env \<Rightarrow> ('w, json) cmd" where
  "update_list env s = (case call_raw env DeviceList s of
       (Inr (ROk v), s') \<Rightarrow> (Ok v, s')
     | (Inr (RErr _ msg), s') \<Rightarrow> (Err (error_msg (''daemon: '' @ msg)), s')
     | (Inl (TIpc e), s') \<Rightarrow> (Err (error_msg (''ipc: '' @ e)), s')
     | (Inl e, s') \<Rightarrow> (Err e, s'))"

definition fm_update :: "'w cli_env \<Rightarrow> fm_env \<Rightarrow> bool \<Rightarrow> ('w, unit) cmd" where
  "fm_update env fe system =
     bind_c (update_list env) (\<lambda>payload. let devs = menu_devices payload in
     bind_c (write_dolphin fe system devs) (\<lambda>_.
     bind_c (write_extensions fe system GOBJECT_FMS) (\<lambda>_.
     println [''refreshed file-manager menus ('' @ show_nat (length devs) @ '' device action(s))''])))"

fun remove_extensions :: "fm_env \<Rightarrow> bool \<Rightarrow> (string \<times> string) list \<Rightarrow> ('w, unit) cmd" where
  "remove_extensions fe system [] = ok_c ()"
| "remove_extensions fe system ((fm, m) # fms) =
     bind_c (remove_text fe (py_path fe system fm)) (\<lambda>_. remove_extensions fe system fms)"

definition fm_remove_all :: "fm_env \<Rightarrow> bool \<Rightarrow> ('w, unit) cmd" where
  "fm_remove_all fe system =
     bind_c (remove_extensions fe system GOBJECT_FMS) (\<lambda>_.
     bind_c (remove_text fe (dolphin_path fe system)) (\<lambda>_.
     bind_c (remove_text fe (pcmanfm_path fe system)) (\<lambda>_.
     bind_c (if system then ok_c () else thunar_merge fe False True) (\<lambda>_.
     println [''removed Handfast file-manager menus'']))))"

datatype file_manager_action = FmInstall bool | FmUpdate bool | FmRemove bool

text \<open>\<^verbatim>\<open>update\<close> needs a connection, the others do without.\<close>

fun fm_run :: "fm_env \<Rightarrow> file_manager_action \<Rightarrow> 'w cli_env option \<Rightarrow> ('w, unit) cmd" where
  "fm_run fe (FmInstall system) client = fm_install fe system"
| "fm_run fe (FmUpdate system) client = (case client of
       None \<Rightarrow> err_c (error_msg ''no daemon connection for update'')
     | Some env \<Rightarrow> fm_update env fe system)"
| "fm_run fe (FmRemove system) client = fm_remove_all fe system"

section \<open>The extension's device list\<close>

text \<open>
  \<^verbatim>\<open>_devices\<close> of the Python template on what \<^verbatim>\<open>hfctl devices --json\<close> prints: rows without a true value under
  \<^verbatim>\<open>id\<close> are skipped, and an exception (a row that is no object) gives no devices.
\<close>

fun truthy :: "json \<Rightarrow> bool" where
  "truthy JNull = False"
| "truthy (JBool b) = b"
| "truthy (JInt i) = (i \<noteq> 0)"
| "truthy (JFloat q) = (q \<noteq> 0)"
| "truthy (JStr s) = (s \<noteq> [])"
| "truthy (JArr xs) = (xs \<noteq> [])"
| "truthy (JObj m) = (m \<noteq> [])"

definition extension_row :: "json table \<Rightarrow> (json \<times> json) option" where
  "extension_row m = (case tget ''id'' m of
       Some i \<Rightarrow> if truthy i then Some (i, unwrap_or (tget ''name'' m) i) else None
     | None \<Rightarrow> None)"

definition extension_devices :: "json \<Rightarrow> (json \<times> json) list" where
  "extension_devices v = (case v of
       JArr rows \<Rightarrow> if list_all (\<lambda>r. as_object r \<noteq> None) rows
         then List.map_filter (\<lambda>r. Option.bind (as_object r) extension_row) rows else []
     | _ \<Rightarrow> [])"

section \<open>Searching text\<close>

lemma find_sub_skip:
  "pat \<noteq> [] \<Longrightarrow> hd pat \<notin> set xs \<Longrightarrow> find_sub pat (xs @ ys) = map_option ((+) (length xs)) (find_sub pat ys)"
proof (induction xs)
  case (Cons x xs)
  then have "\<not> prefix pat (x # xs @ ys)" by (cases pat) auto
  with Cons show ?case by (simp add: option.map_comp comp_def)
qed (cases "find_sub pat ys"; simp)

text \<open>An occurrence cannot run over a character the pattern lacks.\<close>

lemma find_sub_sep:
  "c \<notin> set pat \<Longrightarrow> \<not> sublist pat xs \<Longrightarrow> find_sub pat (xs @ c # ys) = map_option ((+) (length xs)) (find_sub pat (c # ys))"
proof (induction xs)
  case (Cons x xs)
  have "\<not> prefix pat ((x # xs) @ c # ys)"
  proof
    assume "prefix pat ((x # xs) @ c # ys)"
    moreover have "\<not> prefix pat (x # xs)" using Cons.prems(2) by (meson prefix_imp_sublist)
    ultimately obtain us where "pat = (x # xs) @ us" "prefix us (c # ys)" unfolding prefix_append by blast
    moreover have "us \<noteq> []" using calculation \<open>\<not> prefix pat (x # xs)\<close> by auto
    ultimately show False using Cons.prems(1) by (cases us) auto
  qed
  moreover have "\<not> sublist pat xs" using Cons.prems(2) by (simp add: sublist_Cons_right)
  ultimately show ?case using Cons by (simp add: option.map_comp comp_def)
next
  case Nil
  then show ?case by (cases "find_sub pat (c # ys)") simp_all
qed

lemma find_sub_first:
  "pat \<noteq> [] \<Longrightarrow> find_sub pat (a @ butlast pat) = None \<Longrightarrow> find_sub pat (a @ pat @ b) = Some (length a)"
proof (induction a)
  case Nil
  then show ?case by (cases pat) auto
next
  case (Cons x a)
  have "\<not> prefix pat ((x # a) @ pat @ b)"
  proof
    assume "prefix pat ((x # a) @ pat @ b)"
    moreover have "(x # a) @ pat @ b = ((x # a) @ butlast pat) @ [last pat] @ b"
      using append_butlast_last_id [OF Cons.prems(1)] by (metis append.assoc)
    ultimately have "prefix pat (((x # a) @ butlast pat) @ [last pat] @ b)" by metis
    then have "prefix pat ((x # a) @ butlast pat)" using prefix_length_prefix [of pat _ "(x # a) @ butlast pat"] by force
    then show False using Cons.prems(2) by simp
  qed
  moreover have "find_sub pat (a @ butlast pat) = None" using Cons.prems(2) by (simp split: if_splits)
  ultimately show ?case using Cons by simp
qed

lemma rfind_sub_last:
  assumes "pat \<noteq> []" "find_sub (rev pat) (rev b @ butlast (rev pat)) = None"
  shows "rfind_sub pat (a @ pat @ b) = Some (length a)"
  using find_sub_first [of "rev pat" "rev b" "rev a"] assms by (simp add: rfind_sub_def)

lemma replace_all_none: "\<not> sublist pat s \<Longrightarrow> replace_all pat new s = s"
proof (induction s)
  case (Cons c s)
  then show ?case by (simp add: replace_all.simps [of _ _ "c # s"] sublist_Cons_right)
qed (simp add: replace_all.simps)

lemma replace_all_first:
  "pat \<noteq> [] \<Longrightarrow> find_sub pat s = Some n \<Longrightarrow>
     replace_all pat new s = take n s @ new @ replace_all pat new (drop (n + length pat) s)"
proof (induction s arbitrary: n)
  case (Cons c s)
  then show ?case by (auto simp: replace_all.simps [of _ _ "c # s"] split: if_splits)
qed simp

section \<open>The action file\<close>

lemma thunar_block_parts:
  "thunar_block dots bin = ''  '' @ ''<action>'' @
     (NL @ ''    <icon>document-send</icon>'' @ NL @ ''    <name>Send via Handfast'' @ dots @ ''</name>'' @ NL @
      ''    <submenu></submenu>'' @ NL @ ''    '') @
     (''<unique-id>'' @ MARKER @ ''</unique-id>'') @
     (NL @ ''    <command>'' @ bin @ '' send --pick %F</command>'' @ NL @
      ''    <description>Send the selected files to a paired device</description>'' @ NL @ ''    <patterns>*</patterns>'' @ NL @
      ''    <directories/>'' @ NL @ ''    <audio-files/>'' @ NL @ ''    <image-files/>'' @ NL @ ''    <text-files/>'' @ NL @
      ''    <video-files/>'' @ NL @ ''    <other-files/>'' @ NL @ ''  '') @ ''</action>'' @ NL"
  by (simp add: thunar_block_def unlines_def MARKER_def)

lemma strip_block:
  assumes dots: "CHR ''<'' \<notin> set dots" "CHR ''>'' \<notin> set dots" and bin: "CHR ''<'' \<notin> set bin"
    and pre: "\<not> sublist MARKER pre"
  shows "strip_action_block (pre @ thunar_block dots bin @ post) = pre @ ''  '' @ NL @ post"
proof -
  define mid where "mid = NL @ ''    <icon>document-send</icon>'' @ NL @ ''    <name>Send via Handfast'' @ dots @ ''</name>'' @ NL @
      ''    <submenu></submenu>'' @ NL @ ''    ''"
  define rest where "rest = NL @ ''    <command>'' @ bin @ '' send --pick %F</command>'' @ NL @
      ''    <description>Send the selected files to a paired device</description>'' @ NL @ ''    <patterns>*</patterns>'' @ NL @
      ''    <directories/>'' @ NL @ ''    <audio-files/>'' @ NL @ ''    <image-files/>'' @ NL @ ''    <text-files/>'' @ NL @
      ''    <video-files/>'' @ NL @ ''    <other-files/>'' @ NL @ ''  ''"
  define mark where "mark = ''<unique-id>'' @ MARKER @ ''</unique-id>''"
  define whole where "whole = pre @ thunar_block dots bin @ post"
  have whole: "whole = (pre @ ''  '' @ ''<action>'' @ mid) @ mark @ rest @ ''</action>'' @ NL @ post"
    by (simp only: whole_def thunar_block_parts mid_def rest_def mark_def append_assoc)
  have "sublist MARKER mark" unfolding mark_def by (rule sublist_appendI)
  then have "\<not> sublist mark pre" using pre by (meson sublist_order.order_trans)
  then have "find_sub mark ((pre @ ''  '' @ ''<action>'' @ mid) @ butlast mark) = None"
    using find_sub_sep [of "CHR '' ''" mark pre "'' <action>'' @ mid @ butlast mark"] dots
    by (simp add: mark_def MARKER_def mid_def find_sub_skip)
  then have m: "find_sub mark whole = Some (length (pre @ ''  '' @ ''<action>'' @ mid))"
    unfolding whole by (intro find_sub_first) (simp add: mark_def)
  have "find_sub (rev ''<action>'') (rev mid @ butlast (rev ''<action>'')) = None"
    using dots by (simp add: mid_def find_sub_skip)
  then have r: "rfind_sub ''<action>'' ((pre @ ''  '') @ ''<action>'' @ mid) = Some (length (pre @ ''  ''))"
    by (intro rfind_sub_last) simp
  have "find_sub ''</action>'' ((''<action>'' @ mid @ mark @ rest) @ butlast ''</action>'') = None"
    using dots bin by (simp add: mid_def mark_def rest_def MARKER_def find_sub_skip)
  then have e: "find_sub ''</action>'' ((''<action>'' @ mid @ mark @ rest) @ ''</action>'' @ NL @ post) =
      Some (length (''<action>'' @ mid @ mark @ rest))"
    by (intro find_sub_first) simp
  have whole2: "whole = (pre @ ''  '') @ (''<action>'' @ mid @ mark @ rest) @ ''</action>'' @ NL @ post"
    and whole3: "whole = (pre @ ''  '' @ ''<action>'' @ mid @ mark @ rest @ ''</action>'') @ NL @ post"
    by (simp_all only: whole append_assoc)
  have t: "take (length (pre @ ''  '' @ ''<action>'' @ mid)) whole = (pre @ ''  '') @ ''<action>'' @ mid"
    using list_eq_append_take_drop [OF whole] by (simp only: append_assoc)
  have k: "take (length (pre @ ''  '')) whole = pre @ ''  ''"
    and d: "drop (length (pre @ ''  '')) whole = (''<action>'' @ mid @ mark @ rest) @ ''</action>'' @ NL @ post"
    using list_eq_append_take_drop [OF whole2] by (simp_all only:)
  have x: "drop (length (pre @ ''  '') + length (''<action>'' @ mid @ mark @ rest) + length ''</action>'') whole = NL @ post"
    using list_eq_append_take_drop [OF whole3] by (simp add: add.assoc)
  show ?thesis unfolding strip_action_block_def whole_def [symmetric] mark_def [symmetric]
    by (simp only: m t r d e k x option.case) simp
qed

lemma line_sublist: "l \<in> set ls \<Longrightarrow> sublist l (unlines ls)"
proof -
  assume "l \<in> set ls"
  then obtain as bs where "ls = as @ l # bs" by (meson split_list)
  then have "unlines ls = unlines as @ l @ NL @ unlines bs" by (simp add: unlines_def)
  then show ?thesis by (metis sublist_appendI)
qed

lemma marker_in_block: "sublist MARKER (pre @ thunar_block dots bin @ post)"
proof -
  have "sublist (''    <unique-id>'' @ MARKER @ ''</unique-id>'') (thunar_block dots bin)"
    unfolding thunar_block_def by (rule line_sublist) simp
  then show ?thesis by (meson sublist_appendI sublist_order.order_trans)
qed

lemma marker_take: "\<not> sublist MARKER c \<Longrightarrow> \<not> sublist MARKER (take n c)"
  by (meson sublist_order.order_trans sublist_take)

lemma insert_block:
  assumes "pat \<noteq> []" "find_sub pat c = Some n" "\<not> sublist pat (drop (n + length pat) c)"
  shows "replace_all pat (block @ pat) c = take n c @ block @ drop n c"
proof -
  obtain r where r: "drop n c = pat @ r" using find_sub_Some [OF assms(2)] by (auto simp: prefix_def)
  have "drop (n + length pat) c = drop (length pat) (drop n c)" by (simp add: add.commute)
  then have "drop (n + length pat) c = r" using r by simp
  then show ?thesis using replace_all_first [OF assms(1,2)] r replace_all_none assms(3) by simp
qed

text \<open>C27. Installing the Thunar action into a file of the user's own actions (one closing tag, no trace of this
  program), installing again and removing: the first keeps every byte of the user's file and puts the
  action before the closing tag, the second changes nothing, and the third takes out exactly the action,
  so that only the white space around it stays.
\<close>

theorem thunar_actions_survive:
  fixes s :: "'w cli_state"
  assumes "cl_files s (thunar_path fe False) = Some c"
    and "fm_read fe (thunar_path fe False) = None" "fm_write fe (thunar_path fe False) = None"
    and "\<not> sublist MARKER c" "find_sub ''</actions>'' c = Some n" "\<not> sublist ''</actions>'' (drop (n + length ''</actions>'') c)"
    and "CHR ''<'' \<notin> set (fm_dots fe)" "CHR ''>'' \<notin> set (fm_dots fe)" "CHR ''<'' \<notin> set (hfctl_bin fe)"
  shows "thunar_merge fe False False s = (Ok (), s\<lparr>cl_files := (cl_files s)(thunar_path fe False :=
      Some (take n c @ thunar_block (fm_dots fe) (hfctl_bin fe) @ drop n c))\<rparr>) \<and>
    thunar_merge fe False False (snd (thunar_merge fe False False s)) = thunar_merge fe False False s \<and>
    thunar_merge fe False True (snd (thunar_merge fe False False s)) =
      (Ok (), s\<lparr>cl_files := (cl_files s)(thunar_path fe False := Some (take n c @ ''  '' @ NL @ drop n c))\<rparr>)"
proof -
  define p where "p = thunar_path fe False"
  define block where "block = thunar_block (fm_dots fe) (hfctl_bin fe)"
  define merged where "merged = take n c @ block @ drop n c"
  have stored: "cl_files s p = Some c" "fm_read fe p = None" "fm_write fe p = None" using assms(1-3) by (simp_all add: p_def)
  have "block \<noteq> []" by (simp add: block_def thunar_block_parts)
  then have "length merged \<noteq> length c" by (simp add: merged_def) (cases block; simp)
  then have new: "merged \<noteq> c" by auto
  have stripped: "strip_action_block merged = take n c @ ''  '' @ NL @ drop n c"
    using strip_block [OF assms(7-9) marker_take [OF assms(4)]] by (simp add: merged_def block_def)
  then have "length (strip_action_block merged) < length merged"
    by (simp add: merged_def block_def thunar_block_parts)
  then have other: "strip_action_block merged \<noteq> merged" by auto
  define s1 where "s1 = s\<lparr>cl_files := (cl_files s)(p := Some merged)\<rparr>"
  have "replace_all ''</actions>'' (block @ ''</actions>'') c = merged"
    using insert_block [OF _ assms(5,6)] by (simp add: merged_def)
  then have install: "thunar_merge fe False False s = (Ok (), s1)"
    using stored new assms(4)
    by (simp add: thunar_merge_def thunar_install_def Let_def p_def [symmetric] block_def [symmetric] bind_c_def
        read_text_def read_result_def write_text_def s1_def del: append_assoc)
  have again: "thunar_merge fe False False s1 = (Ok (), s1)"
    using stored marker_in_block [of "take n c" "fm_dots fe" "hfctl_bin fe" "drop n c"]
    by (simp add: thunar_merge_def thunar_install_def Let_def p_def [symmetric] bind_c_def
        read_text_def read_result_def s1_def merged_def block_def ok_c_def)
  have remove: "thunar_merge fe False True s1 = (Ok (), s\<lparr>cl_files := (cl_files s)(p := Some (take n c @ ''  '' @ NL @ drop n c))\<rparr>)"
    using stored other stripped
    by (simp add: thunar_merge_def thunar_remove_def Let_def p_def [symmetric] bind_c_def
        read_text_def read_result_def write_text_def s1_def)
  show ?thesis unfolding p_def [symmetric] block_def [symmetric] install snd_conv merged_def [symmetric] again remove
    by (simp add: s1_def)
qed

definition demo_fm :: fm_env where
  "demo_fm = \<lparr>fm_exe = Some ''/usr/bin/hfctl'', fm_home = Some ''/home/u'', fm_mkdir = (\<lambda>_. None), fm_read = (\<lambda>_. None),
     fm_write = (\<lambda>_. None), fm_remove = (\<lambda>_. True), fm_absent = ''absent'', fm_dots = ''...''\<rparr>"

definition demo_cli :: "'w \<Rightarrow> (string \<Rightarrow> string option) \<Rightarrow> 'w cli_state" where
  "demo_cli w files = \<lparr>cl_world = w, cl_files = files, cl_out = [], cl_err = []\<rparr>"

lemma demo_fm_simps [simp]:
  "fm_read demo_fm = (\<lambda>_. None)" "fm_write demo_fm = (\<lambda>_. None)" "fm_dots demo_fm = ''...''"
  "hfctl_bin demo_fm = ''/usr/bin/hfctl''" "thunar_path demo_fm False = ''/home/u/.config/Thunar/uca.xml''"
  by (simp_all add: demo_fm_def hfctl_bin_def thunar_path_def fm_home_dir_def join_def unwrap_or_def)

theorem thunar_actions_survive_witness:
  "snd (thunar_merge demo_fm False True (snd (thunar_merge demo_fm False False
     (demo_cli () [''/home/u/.config/Thunar/uca.xml'' \<mapsto> ''<actions></actions>''])))) =
   demo_cli () [''/home/u/.config/Thunar/uca.xml'' \<mapsto> ''<actions>  '' @ NL @ ''</actions>'']"
  using thunar_actions_survive [of "demo_cli () [''/home/u/.config/Thunar/uca.xml'' \<mapsto> ''<actions></actions>'']" demo_fm
      "''<actions></actions>''" 9]
  by (clarsimp simp: demo_cli_def MARKER_def simp flip: find_sub_None)

end
