(* ===== verification/Hf_Tui.thy ===== *)
theory Hf_Tui
  imports Hf_Cmd
begin

text \<open>
  The interactive terminal interface: the state and its reducers (\<^verbatim>\<open>tui/src/state.rs\<close>), and the loop that
  feeds them and runs their actions (\<^verbatim>\<open>tui/src/app.rs\<close>).

  The loop is a step function.  An input is what one branch of the select yields: an event of the daemon, the
  result of background work, a key; or it is the answer to the request a background task waits for.  Tasks
  run one request at a time, so a task is the request it waits for and what follows the answer.  The frame on
  the screen is the state it was drawn from.
\<close>

section \<open>Tabs and keys\<close>

definition NOTIFICATION_CAP :: nat where "NOTIFICATION_CAP = 200"
definition LOG_CAP :: nat where "LOG_CAP = 1000"

datatype tab = TabDevices | TabTransfers | TabNotifications | TabLogs | TabHelp

definition ALL_TABS :: "tab list" where
  "ALL_TABS = [TabDevices, TabTransfers, TabNotifications, TabLogs, TabHelp]"

fun tab_label :: "tab \<Rightarrow> string" where
  "tab_label TabDevices = ''Devices''"
| "tab_label TabTransfers = ''Transfers''"
| "tab_label TabNotifications = ''Notifications''"
| "tab_label TabLogs = ''Logs''"
| "tab_label TabHelp = ''Help''"

definition tab_index :: "tab \<Rightarrow> nat" where
  "tab_index t = unwrap_or (position (\<lambda>x. x = t) ALL_TABS) 0"

definition tab_next :: "tab \<Rightarrow> tab" where
  "tab_next t = ALL_TABS ! ((tab_index t + 1) mod length ALL_TABS)"

definition tab_previous :: "tab \<Rightarrow> tab" where
  "tab_previous t = ALL_TABS ! ((tab_index t + length ALL_TABS - 1) mod length ALL_TABS)"

text \<open>Key events of the terminal library: the code, whether it is a press, whether control is held.\<close>

datatype key_code = KChar char | KTab | KBackTab | KDown | KUp | KHome | KEnd | KEnter | KEsc | KBackspace | KOther

record key_event =
  k_code :: key_code
  k_press :: bool
  k_control :: bool

section \<open>The state\<close>

record daemon_identity =
  di_version :: u32
  di_app :: string
  di_pid :: u32

datatype action =
    Quit
  | APair string
  | AUnpair string
  | LoadPlugins string
  | TogglePlugin string string bool
  | ReplyToNotification string string

datatype outcome_msg =
    Flash string
  | Devices "device_entry list"
  | Notifications "notif_row list"
  | Plugins string "plugin_row list"

record tui =
  t_tab :: tab
  t_help :: bool
  t_quit :: bool
  t_dirty :: bool
  t_shutdown :: bool
  t_daemon :: "daemon_identity option"
  t_flash :: "string option"
  t_clipboard :: "string option"
  t_devices :: "device_entry list"
  t_device_cursor :: nat
  t_detail_open :: bool
  t_detail_device :: "string option"
  t_plugins :: "plugin_row list"
  t_plugin_cursor :: nat
  t_transfers :: "transfer_entry table"
  t_transfer_cursor :: nat
  t_notifications :: "notif_row list"
  t_notification_cursor :: nat
  t_reply_open :: bool
  t_reply_draft :: string
  t_reply_target :: "string option"
  t_logs :: "string list"

definition tui_new :: tui where
  "tui_new = \<lparr>t_tab = TabDevices, t_help = False, t_quit = False, t_dirty = True, t_shutdown = False,
     t_daemon = None, t_flash = None, t_clipboard = None, t_devices = [], t_device_cursor = 0,
     t_detail_open = False, t_detail_device = None, t_plugins = [], t_plugin_cursor = 0,
     t_transfers = [], t_transfer_cursor = 0, t_notifications = [], t_notification_cursor = 0,
     t_reply_open = False, t_reply_draft = [], t_reply_target = None, t_logs = []\<rparr>"

section \<open>Cursors and buffers\<close>

definition clamp_at :: "nat \<Rightarrow> nat \<Rightarrow> nat" where
  "clamp_at cursor len = (if len = 0 then 0 else min cursor (len - 1))"

definition step_cursor :: "nat \<Rightarrow> bool \<Rightarrow> nat \<Rightarrow> nat" where
  "step_cursor cursor down len = (if len = 0 then 0
     else if down then if cursor < len - 1 then cursor + 1 else len - 1
     else if cursor = 0 then 0 else cursor - 1)"

definition clamp_cursors :: "tui \<Rightarrow> tui" where
  "clamp_cursors u = u\<lparr>t_device_cursor := clamp_at (t_device_cursor u) (length (t_devices u)),
     t_plugin_cursor := clamp_at (t_plugin_cursor u) (length (t_plugins u)),
     t_transfer_cursor := clamp_at (t_transfer_cursor u) (length (t_transfers u)),
     t_notification_cursor := clamp_at (t_notification_cursor u) (length (t_notifications u))\<rparr>"

text \<open>The loop that drops the oldest entries of a buffer beyond its capacity\<close>

fun trim_front :: "nat \<Rightarrow> 'a list \<Rightarrow> 'a list" where
  "trim_front cap [] = []"
| "trim_front cap (x # xs) = (if length (x # xs) > cap then trim_front cap xs else x # xs)"

definition push_log :: "string \<Rightarrow> string \<Rightarrow> tui \<Rightarrow> tui" where
  "push_log level msg u = u\<lparr>t_logs := trim_front LOG_CAP (t_logs u @ [''['' @ pad 5 level @ ''] '' @ msg])\<rparr>"

definition push_notification :: "notif_row \<Rightarrow> tui \<Rightarrow> tui" where
  "push_notification row u = u\<lparr>t_notifications := trim_front NOTIFICATION_CAP (t_notifications u @ [row])\<rparr>"

definition close_detail :: "tui \<Rightarrow> tui" where
  "close_detail u = u\<lparr>t_detail_open := False, t_detail_device := None, t_plugins := [], t_plugin_cursor := 0\<rparr>"

definition cancel_reply :: "tui \<Rightarrow> tui" where
  "cancel_reply u = u\<lparr>t_reply_open := False, t_reply_target := None, t_reply_draft := []\<rparr>"

definition set_flash :: "string \<Rightarrow> tui \<Rightarrow> tui" where
  "set_flash msg u = u\<lparr>t_flash := Some msg, t_dirty := True\<rparr>"

definition selected_device_id :: "tui \<Rightarrow> string option" where
  "selected_device_id u = map_option en_id (get_at (t_devices u) (t_device_cursor u))"

definition selected_notification_id :: "tui \<Rightarrow> string option" where
  "selected_notification_id u = map_option nr_id (get_at (t_notifications u) (t_notification_cursor u))"

definition selected_plugin_index :: "tui \<Rightarrow> nat option" where
  "selected_plugin_index u = (if t_tab u = TabDevices \<and> t_detail_open u
     then map_option (\<lambda>_. t_plugin_cursor u) (get_at (t_plugins u) (t_plugin_cursor u)) else None)"

definition reply_subject :: "tui \<Rightarrow> notif_row option" where
  "reply_subject u = (case t_reply_target u of
       None \<Rightarrow> None
     | Some n \<Rightarrow> List.find (\<lambda>r. nr_id r = n) (t_notifications u))"

definition transfer_rows :: "tui \<Rightarrow> (string \<times> transfer_entry) list" where
  "transfer_rows u = sort_key fst (t_transfers u)"

definition focused_len :: "tui \<Rightarrow> nat" where
  "focused_len u = (case t_tab u of
       TabDevices \<Rightarrow> if t_detail_open u then length (t_plugins u) else length (t_devices u)
     | TabTransfers \<Rightarrow> length (t_transfers u)
     | TabNotifications \<Rightarrow> length (t_notifications u)
     | _ \<Rightarrow> 0)"

text \<open>A change of the cursor of the focused list\<close>

definition with_cursor :: "(nat \<Rightarrow> nat) \<Rightarrow> tui \<Rightarrow> tui" where
  "with_cursor f u = (case (t_tab u, t_detail_open u) of
       (TabDevices, True) \<Rightarrow> u\<lparr>t_plugin_cursor := f (t_plugin_cursor u), t_dirty := True\<rparr>
     | (TabDevices, False) \<Rightarrow> u\<lparr>t_device_cursor := f (t_device_cursor u), t_dirty := True\<rparr>
     | (TabTransfers, _) \<Rightarrow> u\<lparr>t_transfer_cursor := f (t_transfer_cursor u), t_dirty := True\<rparr>
     | (TabNotifications, _) \<Rightarrow> u\<lparr>t_notification_cursor := f (t_notification_cursor u), t_dirty := True\<rparr>
     | (TabLogs, _) \<Rightarrow> u
     | (TabHelp, _) \<Rightarrow> u)"

definition move_cursor :: "bool \<Rightarrow> tui \<Rightarrow> tui" where
  "move_cursor down u = (let len = focused_len u in
     if len = 0 then u else with_cursor (\<lambda>c. step_cursor c down len) u)"

definition jump_cursor :: "bool \<Rightarrow> tui \<Rightarrow> tui" where
  "jump_cursor to_last u = (let len = focused_len u in
     if len = 0 then u else with_cursor (\<lambda>_. if to_last then len - 1 else 0) u)"

section \<open>Events and outcomes\<close>

fun event_change :: "server_event \<Rightarrow> tui \<Rightarrow> tui" where
  "event_change (SHello version app pid) u = u\<lparr>t_daemon := Some \<lparr>di_version = version, di_app = app, di_pid = pid\<rparr>\<rparr>"
| "event_change (SDeviceFound i n) u = u\<lparr>t_devices := upsert_entry (from_found i n) (t_devices u)\<rparr>"
| "event_change (SDeviceLost i) u = (let v = u\<lparr>t_devices := filter (\<lambda>d. en_id d \<noteq> i) (t_devices u)\<rparr> in
     if t_detail_device v = Some i then close_detail v else v)"
| "event_change (SDeviceStateChanged i st) u =
     u\<lparr>t_devices := update_first (\<lambda>d. en_id d = i) (apply_state st) (t_devices u)\<rparr>"
| "event_change (STransferAdded i d dir fname tot) u = u\<lparr>t_transfers := tput i (from_added i fname tot) (t_transfers u)\<rparr>"
| "event_change (STransferProgress i dn tot) u = u\<lparr>t_transfers := (case tget i (t_transfers u) of
       Some e \<Rightarrow> tput i (apply_progress dn tot e) (t_transfers u)
     | None \<Rightarrow> tput i (from_progress i dn tot) (t_transfers u))\<rparr>"
| "event_change (STransferFinished i) u = u\<lparr>t_transfers := tmod i mark_finished (t_transfers u)\<rparr>"
| "event_change (SNotificationReceived i app title txt) u =
     push_notification \<lparr>nr_id = i, nr_app = app, nr_title = title, nr_body = txt\<rparr> u"
| "event_change (SClipboardUpdated t) u = u\<lparr>t_clipboard := Some t\<rparr>"
| "event_change (SLogRecord level msg) u = push_log level msg u"
| "event_change SDaemonShutdown u = u\<lparr>t_shutdown := True, t_flash := Some ''daemon is shutting down''\<rparr>"
| "event_change _ u = u"

definition apply_event :: "server_event \<Rightarrow> tui \<Rightarrow> tui" where
  "apply_event e u = (clamp_cursors (event_change e u))\<lparr>t_dirty := True\<rparr>"

fun outcome_change :: "outcome_msg \<Rightarrow> tui \<Rightarrow> tui" where
  "outcome_change (Flash msg) u = u\<lparr>t_flash := Some msg\<rparr>"
| "outcome_change (Devices entries) u = u\<lparr>t_devices := entries\<rparr>"
| "outcome_change (Notifications rows) u = u\<lparr>t_notifications := trim_front NOTIFICATION_CAP rows\<rparr>"
| "outcome_change (Plugins d rows) u = (if t_detail_device u = Some d then u\<lparr>t_plugins := rows\<rparr> else u)"

definition apply_outcome :: "outcome_msg \<Rightarrow> tui \<Rightarrow> tui" where
  "apply_outcome oc u = (clamp_cursors (outcome_change oc u))\<lparr>t_dirty := True\<rparr>"

section \<open>Keys\<close>

definition toggle_detail :: "tui \<Rightarrow> action option \<times> tui" where
  "toggle_detail u = (if t_tab u \<noteq> TabDevices then (None, u)
     else if t_detail_open u then (None, (close_detail u)\<lparr>t_dirty := True\<rparr>)
     else (case selected_device_id u of
         Some d \<Rightarrow> (Some (LoadPlugins d), u\<lparr>t_detail_open := True, t_detail_device := Some d, t_plugin_cursor := 0,
             t_plugins := [], t_dirty := True\<rparr>)
       | None \<Rightarrow> (None, u)))"

definition open_reply :: "tui \<Rightarrow> action option \<times> tui" where
  "open_reply u = (case (if t_tab u = TabNotifications \<and> t_notifications u \<noteq> [] then selected_notification_id u else None) of
       Some n \<Rightarrow> (None, u\<lparr>t_reply_open := True, t_reply_target := Some n, t_reply_draft := [], t_dirty := True\<rparr>)
     | None \<Rightarrow> (None, u))"

definition submit_reply :: "tui \<Rightarrow> action option \<times> tui" where
  "submit_reply u = (let target = t_reply_target u; txt = trim_str (t_reply_draft u);
       v = (cancel_reply u)\<lparr>t_dirty := True\<rparr> in
     case target of
       Some n \<Rightarrow> if txt \<noteq> [] then (Some (ReplyToNotification n txt), v) else (None, v)
     | None \<Rightarrow> (None, v))"

definition handle_reply_key :: "key_code \<Rightarrow> tui \<Rightarrow> action option \<times> tui" where
  "handle_reply_key c u = (case c of
       KEnter \<Rightarrow> submit_reply u
     | KEsc \<Rightarrow> (None, (cancel_reply u)\<lparr>t_dirty := True\<rparr>)
     | KBackspace \<Rightarrow> (None, u\<lparr>t_reply_draft := butlast (t_reply_draft u), t_dirty := True\<rparr>)
     | KChar ch \<Rightarrow> (None, u\<lparr>t_reply_draft := t_reply_draft u @ [ch], t_dirty := True\<rparr>)
     | _ \<Rightarrow> (None, u))"

definition device_action :: "(string \<Rightarrow> action) \<Rightarrow> tui \<Rightarrow> action option" where
  "device_action act u = (if t_tab u = TabDevices \<and> t_devices u \<noteq> [] then map_option act (selected_device_id u) else None)"

definition toggle_action :: "tui \<Rightarrow> action option" where
  "toggle_action u = (case (t_detail_device u, Option.bind (selected_plugin_index u) (get_at (t_plugins u))) of
       (Some d, Some row) \<Rightarrow> Some (TogglePlugin d (pr_name row) (\<not> pr_enabled row))
     | _ \<Rightarrow> None)"

definition escape :: "tui \<Rightarrow> tui" where
  "escape u = (if t_help u then u\<lparr>t_help := False, t_dirty := True\<rparr>
     else if t_detail_open u then (close_detail u)\<lparr>t_dirty := True\<rparr> else u)"

definition switch_tab :: "tab \<Rightarrow> tui \<Rightarrow> tui" where
  "switch_tab t u = (clamp_cursors (u\<lparr>t_tab := t\<rparr>))\<lparr>t_dirty := True\<rparr>"

definition plain_key :: "key_code \<Rightarrow> tui \<Rightarrow> action option \<times> tui" where
  "plain_key c u = (case c of
       KTab \<Rightarrow> (None, switch_tab (tab_next (t_tab u)) u)
     | KBackTab \<Rightarrow> (None, switch_tab (tab_previous (t_tab u)) u)
     | KDown \<Rightarrow> (None, move_cursor True u)
     | KUp \<Rightarrow> (None, move_cursor False u)
     | KHome \<Rightarrow> (None, jump_cursor False u)
     | KEnd \<Rightarrow> (None, jump_cursor True u)
     | KEnter \<Rightarrow> toggle_detail u
     | KEsc \<Rightarrow> (None, escape u)
     | KChar ch \<Rightarrow>
         if ch = CHR ''q'' then (Some Quit, u)
         else if ch = CHR ''?'' then (None, u\<lparr>t_help := \<not> t_help u, t_dirty := True\<rparr>)
         else if ch = CHR ''j'' then (None, move_cursor True u)
         else if ch = CHR ''k'' then (None, move_cursor False u)
         else if ch = CHR ''g'' then (None, jump_cursor False u)
         else if ch = CHR ''G'' then (None, jump_cursor True u)
         else if ch = CHR ''p'' then (device_action APair u, u)
         else if ch = CHR ''u'' then (device_action AUnpair u, u)
         else if ch = CHR ''r'' then open_reply u
         else if ch = CHR '' '' then (toggle_action u, u)
         else (None, u)
     | _ \<Rightarrow> (None, u))"

definition handle_key :: "key_event \<Rightarrow> tui \<Rightarrow> action option \<times> tui" where
  "handle_key k u = (if \<not> k_press k then (None, u)
     else if k_control k then (if k_code k = KChar (CHR ''c'') then Some Quit else None, u)
     else if t_reply_open u then handle_reply_key (k_code k) u
     else plain_key (k_code k) u)"

section \<open>The loop\<close>

text \<open>A background task, named by the request it waits for; the last four run after the first of another\<close>

datatype ui_task =
    BootDevices
  | TaskPair string
  | TaskUnpair string
  | TaskPlugins string
  | TaskToggle string string bool
  | BootNotifications
  | RefreshDevices
  | ResyncPlugins string

fun task_request :: "ui_task \<Rightarrow> request" where
  "task_request BootDevices = DeviceList"
| "task_request (TaskPair d) = DevicePair d"
| "task_request (TaskUnpair d) = DeviceUnpair d"
| "task_request (TaskPlugins d) = PluginList d"
| "task_request (TaskToggle d p b) = PluginSetEnabled d p b"
| "task_request BootNotifications = NotificationList"
| "task_request RefreshDevices = DeviceList"
| "task_request (ResyncPlugins d) = PluginList d"

text \<open>The result of a request helper, from what the connection returned\<close>

definition reply_value :: "string + response \<Rightarrow> tui_error + json" where
  "reply_value r = (case r of Inl e \<Rightarrow> Err (TIpc e) | Inr resp \<Rightarrow> expect_ok resp)"

definition on_reply :: "(json \<Rightarrow> outcome_msg) \<Rightarrow> string \<Rightarrow> string + response \<Rightarrow> outcome_msg list" where
  "on_reply ok_msg failed r = (case reply_value r of
       Inr v \<Rightarrow> [ok_msg v]
     | Inl e \<Rightarrow> [Flash (failed @ show_error e)])"

definition only_ok :: "(json \<Rightarrow> outcome_msg) \<Rightarrow> string + response \<Rightarrow> outcome_msg list" where
  "only_ok ok_msg r = (case reply_value r of Inr v \<Rightarrow> [ok_msg v] | Inl _ \<Rightarrow> [])"

text \<open>What a task sends when its request returns, and what it goes on to\<close>

fun task_done :: "ui_task \<Rightarrow> string + response \<Rightarrow> outcome_msg list \<times> ui_task list" where
  "task_done BootDevices r =
     (on_reply (\<lambda>v. Devices (parse_devices v)) ''devices unavailable: '' r, [BootNotifications])"
| "task_done BootNotifications r =
     (on_reply (\<lambda>v. Notifications (parse_notifications v)) ''notifications unavailable: '' r, [])"
| "task_done (TaskPair d) r = (on_reply (\<lambda>_. Flash (''pair requested for '' @ d)) ''pair failed: '' r, [RefreshDevices])"
| "task_done (TaskUnpair d) r = (on_reply (\<lambda>_. Flash (''unpaired '' @ d)) ''unpair failed: '' r, [RefreshDevices])"
| "task_done (TaskPlugins d) r = (on_reply (\<lambda>v. Plugins d (parse_plugins v)) ''plugin list failed: '' r, [])"
| "task_done (TaskToggle d p b) r = ((case reply_value r of
       Inl e \<Rightarrow> [Flash (''toggle failed: '' @ show_error e)] | Inr _ \<Rightarrow> []), [ResyncPlugins d])"
| "task_done RefreshDevices r = (only_ok (\<lambda>v. Devices (parse_devices v)) r, [])"
| "task_done (ResyncPlugins d) r = (only_ok (\<lambda>v. Plugins d (parse_plugins v)) r, [])"

record app =
  a_ui :: tui
  a_shown :: "tui option"
  a_feed :: bool
  a_keys :: bool
  a_outcomes :: "outcome_msg list"
  a_tasks :: "ui_task list"

definition app_start :: app where
  "app_start = \<lparr>a_ui = tui_new, a_shown = None, a_feed = True, a_keys = True, a_outcomes = [], a_tasks = [BootDevices]\<rparr>"

definition apply_optimistic_toggle :: "string \<Rightarrow> bool \<Rightarrow> tui \<Rightarrow> tui" where
  "apply_optimistic_toggle p b u = (if list_ex (\<lambda>r. pr_name r = p) (t_plugins u)
     then u\<lparr>t_plugins := update_first (\<lambda>r. pr_name r = p) (\<lambda>r. r\<lparr>pr_enabled := b\<rparr>) (t_plugins u), t_dirty := True\<rparr> else u)"

definition background :: "ui_task \<Rightarrow> app \<Rightarrow> app" where
  "background t a = a\<lparr>a_tasks := a_tasks a @ [t]\<rparr>"

fun perform :: "string \<Rightarrow> action \<Rightarrow> app \<Rightarrow> app" where
  "perform dots Quit a = a\<lparr>a_ui := (a_ui a)\<lparr>t_quit := True\<rparr>\<rparr>"
| "perform dots (APair d) a =
     background (TaskPair d) (a\<lparr>a_ui := set_flash (''pairing '' @ short_hash d @ dots) (a_ui a)\<rparr>)"
| "perform dots (AUnpair d) a =
     background (TaskUnpair d) (a\<lparr>a_ui := set_flash (''unpairing '' @ short_hash d @ dots) (a_ui a)\<rparr>)"
| "perform dots (LoadPlugins d) a = background (TaskPlugins d) a"
| "perform dots (TogglePlugin d p b) a = background (TaskToggle d p b)
     (a\<lparr>a_ui := set_flash ((if b then ''enabling'' else ''disabling'') @ '' '' @ p @ dots) (apply_optimistic_toggle p b (a_ui a))\<rparr>)"
| "perform dots (ReplyToNotification n txt) a =
     a\<lparr>a_outcomes := a_outcomes a @ [Flash ''notification replies arrive in Phase 3'']\<rparr>"

definition draw :: "app \<Rightarrow> app" where
  "draw a = (if t_dirty (a_ui a) then let u = (a_ui a)\<lparr>t_dirty := False\<rparr> in a\<lparr>a_ui := u, a_shown := Some u\<rparr> else a)"

datatype app_input =
    InEvent "server_event option"
  | InOutcome
  | InKey key_event
  | InResize
  | InOther
  | InError string
  | InEnd
  | InTick
  | InReply nat "string + response"

definition press_key :: "string \<Rightarrow> key_event \<Rightarrow> app \<Rightarrow> app" where
  "press_key dots k a = (case handle_key k (a_ui a) of
       (Some act, u) \<Rightarrow> perform dots act (a\<lparr>a_ui := u\<rparr>)
     | (None, u) \<Rightarrow> a\<lparr>a_ui := u\<rparr>)"

fun app_branch :: "string \<Rightarrow> app_input \<Rightarrow> app \<Rightarrow> app" where
  "app_branch dots (InEvent (Some e)) a = a\<lparr>a_ui := apply_event e (a_ui a)\<rparr>"
| "app_branch dots (InEvent None) a = a\<lparr>a_feed := False, a_ui := set_flash ''daemon disconnected'' (a_ui a)\<rparr>"
| "app_branch dots InOutcome a = (case a_outcomes a of
       [] \<Rightarrow> a
     | oc # ocs \<Rightarrow> a\<lparr>a_outcomes := ocs, a_ui := apply_outcome oc (a_ui a)\<rparr>)"
| "app_branch dots (InKey k) a = press_key dots k a"
| "app_branch dots InResize a = a\<lparr>a_ui := (a_ui a)\<lparr>t_dirty := True\<rparr>\<rparr>"
| "app_branch dots InOther a = a"
| "app_branch dots (InError e) a = a\<lparr>a_ui := set_flash (''input error: '' @ e) (a_ui a)\<rparr>"
| "app_branch dots InEnd a = a\<lparr>a_keys := False\<rparr>"
| "app_branch dots InTick a = a"
| "app_branch dots (InReply i r) a = a"

definition finish_request :: "nat \<Rightarrow> string + response \<Rightarrow> app \<Rightarrow> app" where
  "finish_request i r a = (let (ocs, ts) = task_done (a_tasks a ! i) r in
     a\<lparr>a_outcomes := a_outcomes a @ ocs, a_tasks := take i (a_tasks a) @ ts @ drop (Suc i) (a_tasks a)\<rparr>)"

definition app_step :: "string \<Rightarrow> app_input \<Rightarrow> app \<Rightarrow> app" where
  "app_step dots inp a = (case inp of
       InReply i r \<Rightarrow> finish_request i r a
     | _ \<Rightarrow> app_branch dots inp (draw a))"

text \<open>What can happen: a branch is ready only while its source is there, and the loop runs until the user quits.\<close>

fun app_can :: "app_input \<Rightarrow> app \<Rightarrow> bool" where
  "app_can (InEvent _) a = (\<not> t_quit (a_ui a) \<and> a_feed a)"
| "app_can InOutcome a = (\<not> t_quit (a_ui a) \<and> a_outcomes a \<noteq> [])"
| "app_can (InKey _) a = (\<not> t_quit (a_ui a) \<and> a_keys a)"
| "app_can InResize a = (\<not> t_quit (a_ui a) \<and> a_keys a)"
| "app_can InOther a = (\<not> t_quit (a_ui a) \<and> a_keys a)"
| "app_can (InError _) a = (\<not> t_quit (a_ui a) \<and> a_keys a)"
| "app_can InEnd a = (\<not> t_quit (a_ui a) \<and> a_keys a)"
| "app_can InTick a = (\<not> t_quit (a_ui a))"
| "app_can (InReply i _) a = (i < length (a_tasks a))"

abbreviation app_run :: "string \<Rightarrow> app_input list \<Rightarrow> app \<Rightarrow> app" where
  "app_run dots \<equiv> fold (app_step dots)"

section \<open>Well-formed states\<close>

definition in_range :: "nat \<Rightarrow> nat \<Rightarrow> bool" where
  "in_range cursor len = (cursor < len \<or> cursor = 0 \<and> len = 0)"

definition cursors_ok :: "tui \<Rightarrow> bool" where
  "cursors_ok u = (in_range (t_device_cursor u) (length (t_devices u)) \<and>
     in_range (t_plugin_cursor u) (length (t_plugins u)) \<and>
     in_range (t_transfer_cursor u) (length (t_transfers u)) \<and>
     in_range (t_notification_cursor u) (length (t_notifications u)))"

definition buffers_ok :: "tui \<Rightarrow> bool" where
  "buffers_ok u = (length (t_notifications u) \<le> NOTIFICATION_CAP \<and> length (t_logs u) \<le> LOG_CAP \<and>
     distinct (keys (t_transfers u)) \<and> list_all (\<lambda>(i, e). te_id e = i) (t_transfers u))"

text \<open>A panel is open exactly when it has a subject, and holds nothing when it is closed.\<close>

definition panel_ok :: "bool \<Rightarrow> string option \<Rightarrow> 'a list \<Rightarrow> bool" where
  "panel_ok shown subject content = (shown = (subject \<noteq> None) \<and> (shown \<or> content = []))"

definition panels_ok :: "tui \<Rightarrow> bool" where
  "panels_ok u = (panel_ok (t_detail_open u) (t_detail_device u) (t_plugins u) \<and>
     panel_ok (t_reply_open u) (t_reply_target u) (t_reply_draft u))"

definition tui_ok :: "tui \<Rightarrow> bool" where
  "tui_ok u = (cursors_ok u \<and> buffers_ok u \<and> panels_ok u)"

lemma in_range_simps [simp]:
  "in_range 0 n" "in_range (clamp_at c n) n" "0 < n \<Longrightarrow> in_range (n - Suc 0) n"
  by (auto simp: in_range_def clamp_at_def)

lemma panel_ok_simps [simp]:
  "panel_ok False None []" "panel_ok True (Some d) xs" "\<not> panel_ok True None xs"
  by (simp_all add: panel_ok_def)

lemma in_range_step: "in_range c n \<Longrightarrow> in_range (step_cursor c down n) n"
  by (auto simp: in_range_def step_cursor_def)

lemma trim_front_drop: "trim_front cap xs = drop (length xs - cap) xs"
proof (induction xs)
  case (Cons x xs)
  then show ?case by (cases "length (x # xs) > cap") (simp_all add: Suc_diff_le)
qed simp

lemma length_trim_front [simp]: "length (trim_front cap xs) \<le> cap"
  by (simp add: trim_front_drop)

lemma transfers_tput:
  "list_all (\<lambda>(i, e). te_id e = i) t \<Longrightarrow> te_id e = i \<Longrightarrow> list_all (\<lambda>(i, e). te_id e = i) (tput i e t)"
  by (induction t) (auto simp: tput_def)

lemma transfers_tmod:
  assumes "list_all (\<lambda>(i, e). te_id e = i) t" "\<And>e. te_id (f e) = te_id e"
  shows "list_all (\<lambda>(i, e). te_id e = i) (tmod i f t)"
proof (cases "tget i t")
  case (Some e)
  then have "(i, e) \<in> set t" by (metis tget_def map_of_SomeD)
  then have "te_id e = i" using assms(1) by (auto simp: list_all_iff)
  with Some show ?thesis using assms by (simp add: tmod_def transfers_tput)
qed (simp add: tmod_def assms)

lemma tget_transfer_id: "list_all (\<lambda>(i, e). te_id e = i) t \<Longrightarrow> tget i t = Some e \<Longrightarrow> te_id e = i"
  by (induction t) (auto split: if_splits)

lemma te_id_simps [simp]:
  "te_id (mark_finished e) = te_id e" "te_id (apply_progress d t e) = te_id e"
  "te_id (from_added i n t) = i" "te_id (from_progress i d t) = i"
  by (simp_all add: mark_finished_def apply_progress_def from_added_def from_progress_def)

lemma clamped [simp]:
  "cursors_ok (clamp_cursors u)" "buffers_ok (clamp_cursors u) = buffers_ok u" "panels_ok (clamp_cursors u) = panels_ok u"
  by (simp_all add: cursors_ok_def buffers_ok_def panels_ok_def clamp_cursors_def)

lemma ok_dirty [simp]: "tui_ok (u\<lparr>t_dirty := b\<rparr>) = tui_ok u" "tui_ok (u\<lparr>t_quit := b\<rparr>) = tui_ok u"
  "tui_ok (u\<lparr>t_flash := f\<rparr>) = tui_ok u" "tui_ok (u\<lparr>t_help := b\<rparr>) = tui_ok u"
  by (simp_all add: tui_ok_def cursors_ok_def buffers_ok_def panels_ok_def)

lemma event_change_ok:
  assumes "buffers_ok u" "panels_ok u"
  shows "buffers_ok (event_change e u) \<and> panels_ok (event_change e u)"
proof (cases e)
  case (STransferProgress i dn tot)
  show ?thesis
  proof (cases "tget i (t_transfers u)")
    case (Some x)
    then have "te_id x = i" using assms(1) by (auto simp: buffers_ok_def intro: tget_transfer_id)
    then show ?thesis using assms STransferProgress Some by (simp add: buffers_ok_def panels_ok_def transfers_tput)
  qed (use assms STransferProgress in \<open>simp add: buffers_ok_def panels_ok_def transfers_tput\<close>)
qed (use assms in \<open>simp_all add: buffers_ok_def panels_ok_def push_notification_def push_log_def close_detail_def Let_def
      transfers_tput transfers_tmod\<close>)

lemma outcome_change_ok:
  "buffers_ok u \<Longrightarrow> panels_ok u \<Longrightarrow> buffers_ok (outcome_change oc u) \<and> panels_ok (outcome_change oc u)"
  by (cases oc) (auto simp: buffers_ok_def panels_ok_def panel_ok_def)

lemma apply_ok [simp]: "tui_ok u \<Longrightarrow> tui_ok (apply_event e u)" "tui_ok u \<Longrightarrow> tui_ok (apply_outcome oc u)"
  using event_change_ok [of u e] outcome_change_ok [of u oc]
  by (simp_all add: apply_event_def apply_outcome_def) (simp_all add: tui_ok_def)

lemma switch_tab_ok: "tui_ok u \<Longrightarrow> tui_ok (switch_tab t u)"
  by (simp add: switch_tab_def) (simp add: tui_ok_def cursors_ok_def buffers_ok_def panels_ok_def clamp_cursors_def)

lemma with_cursor_ok:
  assumes "tui_ok u" "\<And>c. in_range c (focused_len u) \<Longrightarrow> in_range (f c) (focused_len u)"
  shows "tui_ok (with_cursor f u)"
  using assms by (cases "t_tab u"; cases "t_detail_open u")
    (simp_all add: with_cursor_def focused_len_def tui_ok_def cursors_ok_def buffers_ok_def panels_ok_def)

lemma move_ok: "tui_ok u \<Longrightarrow> tui_ok (move_cursor down u)" "tui_ok u \<Longrightarrow> tui_ok (jump_cursor l u)"
  by (auto simp: move_cursor_def jump_cursor_def Let_def in_range_step intro!: with_cursor_ok)

lemma close_ok: "tui_ok u \<Longrightarrow> tui_ok (close_detail u)" "tui_ok u \<Longrightarrow> tui_ok (cancel_reply u)"
  by (simp_all add: close_detail_def cancel_reply_def tui_ok_def cursors_ok_def buffers_ok_def panels_ok_def)

lemma toggle_detail_ok: "tui_ok u \<Longrightarrow> tui_ok (snd (toggle_detail u))"
  by (auto simp: toggle_detail_def close_ok split: option.split)
    (simp add: tui_ok_def cursors_ok_def buffers_ok_def panels_ok_def)

lemma open_reply_ok: "tui_ok u \<Longrightarrow> tui_ok (snd (open_reply u))"
  by (auto simp: open_reply_def tui_ok_def cursors_ok_def buffers_ok_def panels_ok_def split: option.split)

lemma draft_ok: "tui_ok u \<Longrightarrow> t_reply_open u \<Longrightarrow> tui_ok (u\<lparr>t_reply_draft := d\<rparr>)"
  by (auto simp: tui_ok_def cursors_ok_def buffers_ok_def panels_ok_def panel_ok_def)

lemma reply_key_ok: "tui_ok u \<Longrightarrow> t_reply_open u \<Longrightarrow> tui_ok (snd (handle_reply_key c u))"
  by (cases c) (simp_all add: handle_reply_key_def submit_reply_def Let_def close_ok draft_ok split: option.split)

lemma plain_key_ok: "tui_ok u \<Longrightarrow> tui_ok (snd (plain_key c u))"
  by (cases c) (simp_all add: plain_key_def switch_tab_ok move_ok toggle_detail_ok open_reply_ok escape_def close_ok)

lemma handle_key_ok: "tui_ok u \<Longrightarrow> tui_ok (snd (handle_key k u))"
  by (simp add: handle_key_def plain_key_ok reply_key_ok)

lemma toggle_ok: "tui_ok u \<Longrightarrow> tui_ok (apply_optimistic_toggle p b u)"
  by (auto simp: apply_optimistic_toggle_def tui_ok_def cursors_ok_def buffers_ok_def panels_ok_def panel_ok_def)

lemma perform_ok: "tui_ok (a_ui a) \<Longrightarrow> tui_ok (a_ui (perform dots act a))"
  by (cases act) (simp_all add: background_def set_flash_def toggle_ok)

lemma app_step_ok: "tui_ok (a_ui a) \<Longrightarrow> tui_ok (a_ui (app_step dots inp a))"
proof -
  assume "tui_ok (a_ui a)"
  then have d: "tui_ok (a_ui (draw a))" by (simp add: draw_def Let_def)
  show ?thesis
  proof (cases inp)
    case (InEvent e)
    then show ?thesis using d by (cases e) (simp_all add: app_step_def set_flash_def)
  next
    case (InKey k)
    have "tui_ok (snd (handle_key k (a_ui (draw a))))" using d by (rule handle_key_ok)
    then show ?thesis using InKey
      by (auto simp: app_step_def press_key_def perform_ok split: prod.split option.split)
  next
    case (InReply i r)
    then show ?thesis using \<open>tui_ok (a_ui a)\<close> by (simp add: app_step_def finish_request_def split: prod.split)
  qed (use d in \<open>simp_all add: app_step_def set_flash_def split: list.split\<close>)
qed

section \<open>What is on the screen\<close>

text \<open>Every reducer asks for a redraw, or leaves the state as it is.\<close>

lemma move_redraws:
  "t_dirty (move_cursor down u) \<or> move_cursor down u = u" "t_dirty (jump_cursor l u) \<or> jump_cursor l u = u"
  by (cases "t_tab u"; cases "t_detail_open u"; simp add: move_cursor_def jump_cursor_def Let_def with_cursor_def)+

lemma toggle_detail_redraws: "t_dirty (snd (toggle_detail u)) \<or> snd (toggle_detail u) = u"
  by (simp add: toggle_detail_def split: option.split)

lemma open_reply_redraws: "t_dirty (snd (open_reply u)) \<or> snd (open_reply u) = u"
  by (simp add: open_reply_def split: option.split)

lemma reply_key_redraws: "t_dirty (snd (handle_reply_key c u)) \<or> snd (handle_reply_key c u) = u"
  by (cases c) (simp_all add: handle_reply_key_def submit_reply_def Let_def split: option.split)

lemma plain_key_redraws: "t_dirty (snd (plain_key c u)) \<or> snd (plain_key c u) = u"
  using move_redraws toggle_detail_redraws open_reply_redraws
  by (cases c) (simp_all add: plain_key_def switch_tab_def escape_def)

lemma handle_key_redraws: "t_dirty (snd (handle_key k u)) \<or> snd (handle_key k u) = u"
  using reply_key_redraws plain_key_redraws by (simp add: handle_key_def)

lemma perform_redraws:
  "t_dirty (a_ui (perform dots act a)) \<or> (a_ui (perform dots act a))\<lparr>t_quit := False\<rparr> = (a_ui a)\<lparr>t_quit := False\<rparr>"
  by (cases act) (simp_all add: background_def set_flash_def)

lemma perform_screen [simp]: "a_shown (perform dots act a) = a_shown a"
  by (cases act) (simp_all add: background_def)

lemma perform_dirty: "t_dirty (a_ui a) \<Longrightarrow> t_dirty (a_ui (perform dots act a))"
  by (cases act) (simp_all add: background_def set_flash_def apply_optimistic_toggle_def)

text \<open>The state differs from the frame on the screen only while a redraw is due (or after the decision to quit).\<close>

definition fresh :: "app \<Rightarrow> bool" where
  "fresh a = (t_dirty (a_ui a) \<or> a_shown a = Some ((a_ui a)\<lparr>t_quit := False\<rparr>))"

lemma draw_current:
  assumes "fresh a" "\<not> t_quit (a_ui a)"
  shows "a_shown (draw a) = Some (a_ui (draw a))" "\<not> t_quit (a_ui (draw a))"
proof -
  have "u\<lparr>t_quit := False\<rparr> = u" if "\<not> t_quit u" for u :: tui using that by (cases u) simp
  then show "a_shown (draw a) = Some (a_ui (draw a))" "\<not> t_quit (a_ui (draw a))"
    using assms by (auto simp: fresh_def draw_def Let_def)
qed

lemma press_key_fresh:
  assumes "a_shown a = Some (a_ui a)" "\<not> t_quit (a_ui a)"
  shows "fresh (press_key dots k a)"
proof -
  obtain act u where h: "handle_key k (a_ui a) = (act, u)" by (cases "handle_key k (a_ui a)")
  have same: "(a_ui a)\<lparr>t_quit := False\<rparr> = a_ui a" using assms(2) by (cases "a_ui a") simp
  have "t_dirty u \<or> u = a_ui a" using handle_key_redraws [of k "a_ui a"] h by simp
  then show ?thesis
  proof
    assume "t_dirty u"
    then show ?thesis using h by (cases act) (simp_all add: press_key_def fresh_def perform_dirty)
  next
    assume "u = a_ui a"
    moreover have "t_dirty (a_ui (perform dots x a)) \<or> (a_ui (perform dots x a))\<lparr>t_quit := False\<rparr> = a_ui a" for x
      using perform_redraws [of dots x a] by (simp only: same)
    ultimately show ?thesis using h assms same by (cases act) (simp_all add: press_key_def fresh_def, metis)
  qed
qed

lemma finish_request_ui [simp]: "a_ui (finish_request i r a) = a_ui a" "a_shown (finish_request i r a) = a_shown a"
  by (simp_all add: finish_request_def split_beta)

lemma step_fresh: "fresh a \<Longrightarrow> app_can inp a \<Longrightarrow> fresh (app_step dots inp a)"
proof -
  assume f: "fresh a" and can: "app_can inp a"
  show ?thesis
  proof (cases "\<exists>i r. inp = InReply i r")
    case True
    then show ?thesis using f by (auto simp: app_step_def fresh_def)
  next
    case False
    then have run: "\<not> t_quit (a_ui a)" using can by (cases inp) auto
    note d = draw_current [OF f run]
    have same: "(a_ui (draw a))\<lparr>t_quit := False\<rparr> = a_ui (draw a)" using d(2) by (cases "a_ui (draw a)") simp
    show ?thesis
    proof (cases inp)
      case (InEvent e)
      then show ?thesis by (cases e) (simp_all add: app_step_def fresh_def set_flash_def apply_event_def)
    next
      case (InKey k)
      then show ?thesis using press_key_fresh [OF d] by (simp add: app_step_def)
    next
      case InOutcome
      then show ?thesis using d same by (simp add: app_step_def fresh_def apply_outcome_def split: list.split)
    qed (use False d same in \<open>auto simp: app_step_def fresh_def set_flash_def\<close>)
  qed
qed

interpretation ui: guarded_system "app_step dots" app_can "\<lambda>a. tui_ok (a_ui a) \<and> fresh a" for dots
  by unfold_locales (simp add: app_step_ok step_fresh)

lemma app_start_ok: "tui_ok (a_ui app_start)" "fresh app_start"
  by (simp_all add: app_start_def tui_new_def tui_ok_def cursors_ok_def buffers_ok_def panels_ok_def fresh_def)

lemma selection_exists:
  assumes "tui_ok u"
  shows "t_devices u \<noteq> [] \<Longrightarrow> selected_device_id u = Some (en_id (t_devices u ! t_device_cursor u))"
    and "t_notifications u \<noteq> [] \<Longrightarrow> selected_notification_id u = Some (nr_id (t_notifications u ! t_notification_cursor u))"
  using assms by (auto simp: tui_ok_def cursors_ok_def in_range_def selected_device_id_def selected_notification_id_def get_at_def)

text \<open>C16. Whatever the daemon sends, the requests return and the user types, the state of the terminal interface
  stays well formed: each cursor is inside its list (zero for an empty list), so a selection exists whenever
  there is a row; the notification and log buffers keep within their capacity; transfers are keyed by their
  identifier; the detail panel and the reply box are open exactly when they have a subject, and empty
  when closed.
\<close>

theorem interface_state_well_formed:
  assumes "guarded (app_step dots) app_can inps app_start"
  defines "u \<equiv> a_ui (app_run dots inps app_start)"
  shows "tui_ok u \<and>
    (t_devices u = [] \<or> selected_device_id u = Some (en_id (t_devices u ! t_device_cursor u))) \<and>
    (t_notifications u = [] \<or> selected_notification_id u = Some (nr_id (t_notifications u ! t_notification_cursor u)))"
proof -
  have "tui_ok u" using ui.run_inv [OF _ assms(1)] app_start_ok by (simp add: u_def)
  then show ?thesis using selection_exists by blast
qed

text \<open>Nothing changes behind the screen: whenever the loop waits for input, the frame on the screen was
  drawn from the state as it is.  No reducer changes the state without asking for a redraw.
\<close>

lemma screen_shows_the_state:
  assumes "guarded (app_step dots) app_can inps app_start"
    and "\<not> t_quit (a_ui (app_run dots inps app_start))"
  shows "a_shown (draw (app_run dots inps app_start)) = Some (a_ui (draw (app_run dots inps app_start)))"
  using ui.run_inv [OF _ assms(1)] app_start_ok draw_current(1) assms(2) by blast

section \<open>Actions\<close>

definition on_selected :: "string \<Rightarrow> tui \<Rightarrow> bool" where
  "on_selected d u = (t_tab u = TabDevices \<and> \<not> t_reply_open u \<and> t_device_cursor u < length (t_devices u) \<and>
     en_id (t_devices u ! t_device_cursor u) = d)"

fun action_justified :: "key_event \<Rightarrow> tui \<Rightarrow> action \<Rightarrow> bool" where
  "action_justified k u Quit = (k_code k = KChar (CHR ''c'') \<and> k_control k \<or> k_code k = KChar (CHR ''q'') \<and> \<not> t_reply_open u)"
| "action_justified k u (APair d) = on_selected d u"
| "action_justified k u (AUnpair d) = on_selected d u"
| "action_justified k u (LoadPlugins d) = on_selected d u"
| "action_justified k u (TogglePlugin d p b) = (t_tab u = TabDevices \<and> \<not> t_reply_open u \<and> t_detail_device u = Some d \<and>
     t_plugin_cursor u < length (t_plugins u) \<and> pr_name (t_plugins u ! t_plugin_cursor u) = p \<and>
     pr_enabled (t_plugins u ! t_plugin_cursor u) = (\<not> b))"
| "action_justified k u (ReplyToNotification n txt) =
     (t_reply_open u \<and> t_reply_target u = Some n \<and> txt = trim_str (t_reply_draft u) \<and> txt \<noteq> [])"

lemma selected_device_on:
  "selected_device_id u = Some d \<Longrightarrow> t_tab u = TabDevices \<Longrightarrow> \<not> t_reply_open u \<Longrightarrow> on_selected d u"
  by (auto simp: selected_device_id_def get_at_def on_selected_def split: if_splits)

lemma plain_key_justified:
  assumes "plain_key c u = (Some act, v)" "\<not> t_reply_open u" "k_code k = c"
  shows "action_justified k u act"
proof (cases c)
  case KEnter
  then show ?thesis using assms selected_device_on
    by (auto simp: plain_key_def toggle_detail_def split: if_splits option.splits)
next
  case (KChar ch)
  then show ?thesis using assms selected_device_on
    by (auto simp: plain_key_def device_action_def open_reply_def toggle_action_def selected_plugin_index_def get_at_def
        split: if_splits option.splits)
qed (use assms in \<open>auto simp: plain_key_def\<close>)

lemma reply_key_justified:
  assumes "handle_reply_key c u = (Some act, v)" "t_reply_open u"
  shows "action_justified k u act"
  using assms by (cases c) (auto simp: handle_reply_key_def submit_reply_def Let_def split: if_splits option.splits)

lemma handle_key_justified: "handle_key k u = (Some act, v) \<Longrightarrow> action_justified k u act"
  by (auto simp: handle_key_def plain_key_justified reply_key_justified split: if_splits)

text \<open>A key never acts on anything but what is selected: in every reachable state, pairing, unpairing and loading
  plugins name the device under the cursor of the device tab, a toggle flips the plugin row under the cursor
  of the device whose panel is open, a reply goes to the notification its box was opened for with the
  trimmed, non-empty draft, and only the two quit keys quit (q not while a reply is typed).  Pressing p with
  a device listed does ask to pair with the one under the cursor.
\<close>

lemma keys_act_on_the_selection:
  assumes "guarded (app_step dots) app_can inps app_start"
  defines "u \<equiv> a_ui (app_run dots inps app_start)"
  shows "(handle_key k u = (Some act, v) \<longrightarrow> action_justified k u act) \<and>
    (t_tab u = TabDevices \<and> t_devices u \<noteq> [] \<and> \<not> t_reply_open u \<longrightarrow>
      handle_key \<lparr>k_code = KChar (CHR ''p''), k_press = True, k_control = False\<rparr> u =
        (Some (APair (en_id (t_devices u ! t_device_cursor u))), u))"
proof -
  have "tui_ok u" using ui.run_inv [OF _ assms(1)] app_start_ok by (simp add: u_def)
  then show ?thesis
    using handle_key_justified [of k u act v] selection_exists(1) [of u]
    by (simp add: handle_key_def plain_key_def device_action_def)
qed

text \<open>While the reply box stays open its notification stays the same, whatever happens to the list.\<close>

lemma reply_target_kept:
  assumes "t_reply_open (a_ui a)" "t_reply_open (a_ui (app_step dots inp a))"
  shows "t_reply_target (a_ui (app_step dots inp a)) = t_reply_target (a_ui a)"
proof -
  have d: "t_reply_open (a_ui (draw a))" "t_reply_target (a_ui (draw a)) = t_reply_target (a_ui a)"
    using assms(1) by (simp_all add: draw_def Let_def)
  show ?thesis
  proof (cases inp)
    case (InEvent e)
    have "t_reply_target (event_change ev u) = t_reply_target u" for ev u
      by (cases ev) (simp_all add: push_notification_def push_log_def close_detail_def Let_def)
    then show ?thesis using InEvent d
      by (cases e) (simp_all add: app_step_def apply_event_def clamp_cursors_def set_flash_def)
  next
    case InOutcome
    have "t_reply_target (outcome_change oc u) = t_reply_target u" for oc u by (cases oc) simp_all
    then show ?thesis using InOutcome d
      by (simp add: app_step_def apply_outcome_def clamp_cursors_def split: list.split)
  next
    case (InKey k)
    have p: "t_reply_target (a_ui (perform dots act b)) = t_reply_target (a_ui b)"
      "t_reply_open (a_ui (perform dots act b)) = t_reply_open (a_ui b)" for act b
      by (cases act; simp add: background_def set_flash_def apply_optimistic_toggle_def)+
    obtain act u where h: "handle_key k (a_ui (draw a)) = (act, u)" by (cases "handle_key k (a_ui (draw a))")
    have "t_reply_open u" using assms(2) InKey h p by (cases act) (simp_all add: app_step_def press_key_def)
    then have "t_reply_target u = t_reply_target (a_ui (draw a))"
      using h d(1) by (cases "k_code k")
        (auto simp: handle_key_def handle_reply_key_def submit_reply_def cancel_reply_def Let_def split: if_splits option.splits)
    then show ?thesis using InKey h d p by (cases act) (simp_all add: app_step_def press_key_def)
  qed (use d in \<open>simp_all add: app_step_def set_flash_def\<close>)
qed

section \<open>Background work\<close>

text \<open>How many requests a task still makes\<close>

fun task_weight :: "ui_task \<Rightarrow> nat" where
  "task_weight BootDevices = 2"
| "task_weight (TaskPair _) = 2"
| "task_weight (TaskUnpair _) = 2"
| "task_weight (TaskToggle _ _ _) = 2"
| "task_weight _ = 1"

definition pending_requests :: "app \<Rightarrow> nat" where
  "pending_requests a = sum_list (map task_weight (a_tasks a))"

fun is_reply :: "app_input \<Rightarrow> bool" where
  "is_reply (InReply _ _) = True"
| "is_reply _ = False"

fun is_press :: "app_input \<Rightarrow> bool" where
  "is_press (InKey k) = k_press k"
| "is_press _ = False"

lemma task_done_weight: "sum_list (map task_weight (snd (task_done t r))) + 1 = task_weight t"
  by (cases t) simp_all

lemma finish_weight:
  assumes "i < length (a_tasks a)"
  shows "pending_requests (finish_request i r a) + 1 = pending_requests a"
proof -
  have "pending_requests a = sum_list (map task_weight (take i (a_tasks a) @ a_tasks a ! i # drop (Suc i) (a_tasks a)))"
    using assms by (simp add: pending_requests_def flip: id_take_nth_drop)
  then show ?thesis using task_done_weight [of "a_tasks a ! i" r]
    by (simp add: finish_request_def split_beta pending_requests_def)
qed

lemma perform_weight: "pending_requests (perform dots act a) \<le> pending_requests a + 2"
  by (cases act) (simp_all add: background_def pending_requests_def)

lemma draw_weight [simp]: "pending_requests (draw a) = pending_requests a"
  by (simp add: draw_def Let_def pending_requests_def)

lemma step_weight:
  assumes "app_can inp a"
  shows "pending_requests (app_step dots inp a) + (if is_reply inp then 1 else 0) \<le>
    pending_requests a + (if is_press inp then 2 else 0)"
proof (cases inp)
  case (InEvent e)
  then show ?thesis by (cases e) (simp_all add: app_step_def pending_requests_def draw_def Let_def)
next
  case (InKey k)
  have w: "pending_requests (b\<lparr>a_ui := u\<rparr>) = pending_requests b" for b u by (simp add: pending_requests_def)
  show ?thesis
  proof (cases "k_press k")
    case True
    then show ?thesis using InKey w perform_weight [of dots _ "(draw a)\<lparr>a_ui := _\<rparr>"]
      by (auto simp: app_step_def press_key_def split: prod.split option.split)
  next
    case False
    then show ?thesis using InKey w by (simp add: app_step_def press_key_def handle_key_def)
  qed
next
  case (InReply i r)
  then show ?thesis using finish_weight [of i a r] assms by (simp add: app_step_def)
qed (simp_all add: app_step_def pending_requests_def draw_def Let_def split: list.split)

text \<open>C23. Background work ends, and nothing polls: of the requests the interface makes there are at most two when it
  starts and two for each key press, however long it runs and whatever the daemon answers; what is still
  outstanding counts towards the same bound.
\<close>

theorem background_work_ends:
  assumes "guarded (app_step dots) app_can inps app_start"
  shows "length (filter is_reply inps) + pending_requests (app_run dots inps app_start) \<le>
    2 + 2 * length (filter is_press inps)"
proof -
  have "length (filter is_reply inps) + pending_requests (app_run dots inps a) \<le>
      pending_requests a + 2 * length (filter is_press inps)" if "guarded (app_step dots) app_can inps a" for a
    using that
  proof (induction inps arbitrary: a)
    case (Cons inp inps)
    then have "app_can inp a" by simp
    note step_weight [OF this, of dots]
    moreover have "length (filter is_reply inps) + pending_requests (app_run dots inps (app_step dots inp a)) \<le>
        pending_requests (app_step dots inp a) + 2 * length (filter is_press inps)"
      using Cons by simp
    ultimately show ?case by (auto split: if_splits)
  qed simp
  from this [OF assms] show ?thesis by (simp add: pending_requests_def app_start_def)
qed

section \<open>An example session\<close>

text \<open>The device list arrives and the user presses p.\<close>

definition press :: "char \<Rightarrow> app_input" where
  "press c = InKey \<lparr>k_code = KChar c, k_press = True, k_control = False\<rparr>"

definition demo_keys :: "app_input list" where
  "demo_keys = [InReply 0 (Ok (ROk (JArr [JObj [(''device_id'', JStr ''d1''), (''paired'', JBool False)]]))), InOutcome, press (CHR ''p'')]"

lemma demo_guard: "guarded (app_step []) app_can demo_keys app_start"
  by code_simp

lemma demo_ui:
  "t_tab (a_ui (app_run [] demo_keys app_start)) = TabDevices"
  "t_devices (a_ui (app_run [] demo_keys app_start)) =
     [\<lparr>en_id = ''d1'', en_name = ''d1'', en_kind = ''unknown'', en_paired = False, en_state = ''found''\<rparr>]"
  "t_device_cursor (a_ui (app_run [] demo_keys app_start)) = 0"
  "\<not> t_reply_open (a_ui (app_run [] demo_keys app_start))"
  "\<not> t_quit (a_ui (app_run [] demo_keys app_start))"
  by code_simp+

theorem interface_state_well_formed_witness:
  "tui_ok (a_ui (app_run [] demo_keys app_start)) \<and> selected_device_id (a_ui (app_run [] demo_keys app_start)) = Some ''d1''"
  using interface_state_well_formed [OF demo_guard] by (simp add: demo_ui)

theorem background_work_ends_witness:
  "length (filter is_reply demo_keys) + pending_requests (app_run [] demo_keys app_start) \<le> 4"
proof -
  have "length (filter is_press demo_keys) = 1" by code_simp
  then show ?thesis using background_work_ends [OF demo_guard] by simp
qed

text \<open>
  A device that pairs, then goes on or off line: the row keeps no memory of the pairing, since any state but
  \<^verbatim>\<open>paired\<close> clears the flag.
\<close>

lemma online_clears_paired:
  assumes "List.find (\<lambda>e. en_id e = d) (t_devices u) \<noteq> None"
  shows "\<exists>e \<in> set (t_devices (apply_event (SDeviceStateChanged d ''online'') u)). en_id e = d \<and> \<not> en_paired e"
proof -
  have "\<exists>e \<in> set (update_first (\<lambda>e. en_id e = d) (apply_state ''online'') ds). en_id e = d \<and> \<not> en_paired e"
    if "List.find (\<lambda>e. en_id e = d) ds \<noteq> None" for ds
    using that by (induction ds) (auto simp: apply_state_def)
  then show ?thesis using assms by (simp add: apply_event_def clamp_cursors_def)
qed

end
