(* ===== verification/Hf_Hfctl.thy ===== *)
theory Hf_Hfctl
  imports Hf_Main Hf_Filemanager Hf_Tui
begin

text \<open>
  The control program as a whole: its command line (\<^verbatim>\<open>tui/src/cli.rs\<close>), the dispatch to subcommands and the
  exit status (\<^verbatim>\<open>tui/src/main.rs\<close>), and the program against the request handler of the daemon.

  Splitting arguments into a command is the argument library's; a parsed command is a value here.  The
  record \<^verbatim>\<open>main_env\<close> adds to the environment of the commands how the connection is opened, what the
  interactive session returns, and the text of completion scripts and error sources.
\<close>

section \<open>The command line\<close>

datatype volume_action = VolumeGet | VolumeSet byte

datatype run_command_action = RunCommandsList string

datatype hf_command =
    CTui
  | CStatus
  | CDevices
  | CPair string
  | CUnpair string
  | CPairAnswer string bool bool
  | CPlugins plugin_action
  | CSend "string list" "string option" bool
  | CFileManager file_manager_action
  | CNotifications notification_action
  | CClipboard clipboard_action
  | CTransfers
  | CTransferCancel string
  | CVolume "volume_action option"
  | CSms string string string
  | CBattery string
  | CRunCommand run_command_action
  | CShareText string string
  | CShareUrl string string
  | CLogs nat
  | CCompletions string

record cli =
  cli_socket :: "string option"
  cli_json :: bool
  cli_command :: "hf_command option"

record 'w main_env =
  me_cli :: "'w cli_env"
  me_fm :: fm_env
  me_connect :: "string \<Rightarrow> 'w \<Rightarrow> (string + unit) \<times> 'w"
  me_runtime_dir :: "string option"
  me_proc_status :: "string option"
  me_session :: "('w, unit) cmd"
  me_completions :: "string \<Rightarrow> string list"
  me_sources :: "tui_error \<Rightarrow> string list"

section \<open>Dispatch\<close>

definition cmd_connect :: "'w main_env \<Rightarrow> string \<Rightarrow> ('w, unit) cmd" where
  "cmd_connect env socket s = (case me_connect env socket (cl_world s) of
       (Inr _, w) \<Rightarrow> (Ok (), s\<lparr>cl_world := w\<rparr>)
     | (Inl e, w) \<Rightarrow> (Err (TIpc e), s\<lparr>cl_world := w\<rparr>))"

text \<open>Subcommands that print the response as it came, whatever it says\<close>

definition print_raw :: "'w cli_env \<Rightarrow> request \<Rightarrow> ('w, unit) cmd" where
  "print_raw env req = bind_c (call_raw env req) (\<lambda>r. println [ce_debug env r])"

fun dispatch_command :: "'w main_env \<Rightarrow> string \<Rightarrow> bool \<Rightarrow> hf_command \<Rightarrow> ('w, unit) cmd" where
  "dispatch_command env socket json CTui = me_session env"
| "dispatch_command env socket json CStatus = print_status (me_cli env) socket json"
| "dispatch_command env socket json CDevices = print_devices (me_cli env) json"
| "dispatch_command env socket json (CPair d) = print_pair (me_cli env) d"
| "dispatch_command env socket json (CUnpair d) = print_unpair (me_cli env) d"
| "dispatch_command env socket json (CPairAnswer d accept reject) =
     bind_c (pair_answer (me_cli env) d (accept \<and> \<not> reject)) (\<lambda>_.
     println [''pairing request from '' @ d @ '' '' @ (if accept then ''accepted'' else ''declined'')])"
| "dispatch_command env socket json (CPlugins a) = print_plugins_action (me_cli env) a"
| "dispatch_command env socket json (CSend paths d pick) = print_send (me_cli env) d pick paths"
| "dispatch_command env socket json (CFileManager a) = fm_run (me_fm env) a (Some (me_cli env))"
| "dispatch_command env socket json (CNotifications a) = print_notifications_action (me_cli env) a"
| "dispatch_command env socket json (CClipboard a) = print_clipboard_action (me_cli env) a"
| "dispatch_command env socket json (CLogs n) = print_logs (me_cli env) n"
| "dispatch_command env socket json (CCompletions _) = ok_c ()"
| "dispatch_command env socket json CTransfers = bind_c (call_raw (me_cli env) TransferList) (\<lambda>r.
     if json then println [ce_json (me_cli env) (as_json r)] else print_transfers (me_cli env) r)"
| "dispatch_command env socket json (CTransferCancel t) = print_raw (me_cli env) (TransferCancel t)"
| "dispatch_command env socket json (CVolume a) = print_raw (me_cli env) (case a of
       Some (VolumeSet percent) \<Rightarrow> SetVolume percent | _ \<Rightarrow> GetVolume)"
| "dispatch_command env socket json (CSms d number txt) = print_raw (me_cli env) (SendSms d number txt)"
| "dispatch_command env socket json (CBattery d) = print_raw (me_cli env) (RequestBattery d)"
| "dispatch_command env socket json (CRunCommand (RunCommandsList d)) = print_raw (me_cli env) (RunCommandList d)"
| "dispatch_command env socket json (CShareText d txt) = print_raw (me_cli env) (request.ShareText d txt)"
| "dispatch_command env socket json (CShareUrl d url) = print_raw (me_cli env) (request.ShareUrl d url)"

text \<open>Completions and installing or removing the menus work without the daemon.\<close>

fun offline :: "hf_command \<Rightarrow> bool" where
  "offline (CCompletions _) = True"
| "offline (CFileManager (FmUpdate _)) = False"
| "offline (CFileManager _) = True"
| "offline _ = False"

definition hfctl_run :: "'w main_env \<Rightarrow> cli \<Rightarrow> ('w, unit) cmd" where
  "hfctl_run env c =
     (let command = unwrap_or (cli_command c) CTui;
          socket = unwrap_or (cli_socket c) (default_socket_path (me_runtime_dir env) (me_proc_status env)) in
      case command of
        CCompletions sh \<Rightarrow> println (me_completions env sh)
      | CFileManager a \<Rightarrow> if offline command then fm_run (me_fm env) a None
          else bind_c (cmd_connect env socket) (\<lambda>_. dispatch_command env socket (cli_json c) command)
      | _ \<Rightarrow> bind_c (cmd_connect env socket) (\<lambda>_. dispatch_command env socket (cli_json c) command))"

fun error_sources :: "('w, 'z) main_env_scheme \<Rightarrow> tui_error \<Rightarrow> string list" where
  "error_sources env (TDaemon _ _) = []"
| "error_sources env EventStreamUnavailable = []"
| "error_sources env e = me_sources env e"

text \<open>
  The exit status, from the parsed command line or the kind of usage error (true where it goes to the
  error stream).
\<close>

definition hfctl_main :: "'w main_env \<Rightarrow> bool + cli \<Rightarrow> 'w cli_state \<Rightarrow> nat \<times> 'w cli_state" where
  "hfctl_main env parsed s = (case parsed of
       Inl to_stderr \<Rightarrow> (if to_stderr then 2 else 0, s)
     | Inr c \<Rightarrow> (case hfctl_run env c s of
           (Inr _, s') \<Rightarrow> (0, s')
         | (Inl e, s') \<Rightarrow> (1, s'\<lparr>cl_err := cl_err s' @
             [''error: '' @ show_error e @ concat (map (\<lambda>x. '': '' @ x) (error_sources env e))]\<rparr>)))"

section \<open>Exit status\<close>

text \<open>The commands that stand for one request and insist on a positive answer, and those that only print it\<close>

fun strict_request :: "hf_command \<Rightarrow> request option" where
  "strict_request CDevices = Some DeviceList"
| "strict_request (CPair d) = Some (DevicePair d)"
| "strict_request (CUnpair d) = Some (DeviceUnpair d)"
| "strict_request (CPairAnswer d accept reject) = Some (ReqPairingAnswer d (accept \<and> \<not> reject))"
| "strict_request (CPlugins (PluginsList d)) = Some (PluginList d)"
| "strict_request (CPlugins (PluginsEnable d p)) = Some (PluginSetEnabled d p True)"
| "strict_request (CPlugins (PluginsDisable d p)) = Some (PluginSetEnabled d p False)"
| "strict_request (CNotifications NotifList) = Some NotificationList"
| "strict_request (CNotifications (NotifDismiss n)) = Some (NotificationDismiss n)"
| "strict_request (CClipboard ClipGet) = Some ClipboardGet"
| "strict_request (CClipboard (ClipSet t)) = Some (ClipboardSet t)"
| "strict_request _ = None"

fun raw_request :: "hf_command \<Rightarrow> request option" where
  "raw_request CTransfers = Some TransferList"
| "raw_request (CTransferCancel t) = Some (TransferCancel t)"
| "raw_request (CVolume (Some (VolumeSet p))) = Some (SetVolume p)"
| "raw_request (CVolume _) = Some GetVolume"
| "raw_request (CSms d n t) = Some (SendSms d n t)"
| "raw_request (CBattery d) = Some (RequestBattery d)"
| "raw_request (CRunCommand (RunCommandsList d)) = Some (RunCommandList d)"
| "raw_request (CShareText d t) = Some (request.ShareText d t)"
| "raw_request (CShareUrl d u) = Some (request.ShareUrl d u)"
| "raw_request _ = None"

text \<open>A continuation that only prints\<close>

definition only_prints :: "('a \<Rightarrow> ('w, unit) cmd) \<Rightarrow> bool" where
  "only_prints k = (\<forall>v s. is_ok (fst (k v s)) \<and> cl_world (snd (k v s)) = cl_world s)"

lemma only_printsI [simp]:
  "only_prints (\<lambda>v. println (f v))" "only_prints (\<lambda>v. ok_c ())" "only_prints (\<lambda>v. print_table hs (g v))"
  by (simp_all add: only_prints_def println_def ok_c_def print_table_def)

lemma only_prints_transfers [simp]: "only_prints (print_transfers env)"
  by (auto simp: only_prints_def print_transfers_def println_def ok_c_def split: response.split option.split)

lemma only_prints_if [simp]: "only_prints f \<Longrightarrow> only_prints g \<Longrightarrow> only_prints (\<lambda>v. if b then f v else g v)"
  by (simp add: only_prints_def)

lemma call_ok_eq:
  "ce_rpc env req (cl_world s) = (r, w) \<Longrightarrow> call_ok env req s = (reply_value r, s\<lparr>cl_world := w\<rparr>)"
  by (simp add: call_ok_def call_raw_def bind_c_def of_result_def reply_value_def split: sum.split)

lemma call_then_print:
  assumes "only_prints k" "ce_rpc env req (cl_world s) = (r, w)"
  shows "is_ok (fst (bind_c (call_ok env req) k s)) = is_ok (reply_value r)"
    and "cl_world (snd (bind_c (call_ok env req) k s)) = w"
  using assms by (auto simp: bind_c_def call_ok_eq [OF assms(2)] only_prints_def split: sum.split)

lemma raw_then_print:
  assumes "only_prints k" "ce_rpc env req (cl_world s) = (r, w)"
  shows "is_ok (fst (bind_c (call_raw env req) k s)) = is_ok r"
    and "cl_world (snd (bind_c (call_raw env req) k s)) = w"
  using assms by (auto simp: bind_c_def call_raw_def only_prints_def split: sum.split)

lemma call_unit_then:
  "bind_c (call_unit env req) k = bind_c (call_ok env req) (\<lambda>_. k ())"
  by (simp add: call_unit_def bind_c_assoc) (simp add: bind_c_def ok_c_def fun_eq_iff split: prod.split sum.split)

lemma call_fetch_then:
  "bind_c (bind_c m (\<lambda>v. ok_c (f v))) k = bind_c m (\<lambda>v. k (f v))"
  by (simp add: bind_c_assoc) (simp add: bind_c_def ok_c_def fun_eq_iff split: prod.split sum.split)

lemma strict_dispatch:
  assumes "strict_request cmd = Some req" "ce_rpc (me_cli env) req (cl_world s) = (r, w)"
  shows "is_ok (fst (dispatch_command env socket json cmd s)) = is_ok (reply_value r) \<and>
    cl_world (snd (dispatch_command env socket json cmd s)) = w"
proof -
  note one = call_then_print [OF _ assms(2)]
  show ?thesis
    using assms(1) one
    by (cases cmd rule: strict_request.cases)
      (auto simp: print_devices_def print_pair_def cmd_pair_def print_unpair_def cmd_unpair_def pair_answer_def
        set_plugin_enabled_def dismiss_notification_def store_clipboard_def clipboard_text_def fetch_devices_def
        fetch_notifications_def fetch_plugins_def call_unit_then call_fetch_then)
qed

lemma raw_dispatch:
  assumes "raw_request cmd = Some req" "ce_rpc (me_cli env) req (cl_world s) = (r, w)"
  shows "is_ok (fst (dispatch_command env socket json cmd s)) = is_ok r \<and>
    cl_world (snd (dispatch_command env socket json cmd s)) = w"
proof -
  note one = raw_then_print [OF _ assms(2)]
  show ?thesis
    using assms(1) one by (cases cmd rule: raw_request.cases) (auto simp: print_raw_def)
qed

lemma online_run:
  assumes "cli_command c = Some cmd" "strict_request cmd \<noteq> None \<or> raw_request cmd \<noteq> None"
    and "me_connect env (unwrap_or (cli_socket c) (default_socket_path (me_runtime_dir env) (me_proc_status env))) (cl_world s) = (Ok (), w)"
  obtains socket where "hfctl_run env c s = dispatch_command env socket (cli_json c) cmd (s\<lparr>cl_world := w\<rparr>)"
proof -
  define socket where "socket = unwrap_or (cli_socket c) (default_socket_path (me_runtime_dir env) (me_proc_status env))"
  have "hfctl_run env c = bind_c (cmd_connect env socket) (\<lambda>_. dispatch_command env socket (cli_json c) cmd)"
    using assms(1,2) by (cases cmd) (auto simp: hfctl_run_def socket_def unwrap_or_def Let_def)
  moreover have "cmd_connect env socket s = (Ok (), s\<lparr>cl_world := w\<rparr>)"
    using assms(3) by (simp add: cmd_connect_def socket_def)
  ultimately show ?thesis using that by (simp add: bind_c_ok)
qed

text \<open>The exit status of the control program.  A command that stands for one request (listing devices, pairing,
  unpairing, answering a pairing, plugins, notifications, the clipboard) exits with 0 exactly when the daemon
  answered that request positively, and with 1 on a refusal or a failed transport.  The commands that only
  print the response (transfers, volume, messages, battery, remote commands, sharing) exit with 0
  whenever there was a response, a refusal included.  Either way the daemon was asked exactly once.
\<close>

lemma hfctl_exit_status:
  fixes env :: "'w main_env"
  assumes "cli_command c = Some cmd"
    and "me_connect env (unwrap_or (cli_socket c) (default_socket_path (me_runtime_dir env) (me_proc_status env))) (cl_world s) = (Ok (), w)"
    and "ce_rpc (me_cli env) req w = (r, w')"
  shows "(strict_request cmd = Some req \<longrightarrow>
      fst (hfctl_main env (Inr c) s) = (case r of Inr (ROk _) \<Rightarrow> 0 | _ \<Rightarrow> 1) \<and> cl_world (snd (hfctl_main env (Inr c) s)) = w') \<and>
    (raw_request cmd = Some req \<longrightarrow>
      fst (hfctl_main env (Inr c) s) = (case r of Inr _ \<Rightarrow> 0 | Inl _ \<Rightarrow> 1) \<and> cl_world (snd (hfctl_main env (Inr c) s)) = w')"
proof -
  have status: "fst (hfctl_main env (Inr c) s) = (if is_ok (fst (hfctl_run env c s)) then 0 else 1)"
      "cl_world (snd (hfctl_main env (Inr c) s)) = cl_world (snd (hfctl_run env c s))"
    by (auto simp: hfctl_main_def split: prod.split sum.split)
  have call: "ce_rpc (me_cli env) req (cl_world (s\<lparr>cl_world := w\<rparr>)) = (r, w')" using assms(3) by simp
  have ok: "is_ok (reply_value r) = (case r of Inr (ROk _) \<Rightarrow> True | _ \<Rightarrow> False)"
    by (auto simp: reply_value_def expect_ok_def split: sum.split response.split)
  have "fst (hfctl_main env (Inr c) s) = (case r of Inr (ROk _) \<Rightarrow> 0 | _ \<Rightarrow> 1) \<and> cl_world (snd (hfctl_main env (Inr c) s)) = w'"
    if strict: "strict_request cmd = Some req"
  proof -
    obtain socket where "hfctl_run env c s = dispatch_command env socket (cli_json c) cmd (s\<lparr>cl_world := w\<rparr>)"
      using online_run [OF assms(1) _ assms(2)] strict by auto
    then show ?thesis using strict_dispatch [OF strict call] status ok by (simp split: sum.split response.split)
  qed
  moreover have "fst (hfctl_main env (Inr c) s) = (case r of Inr _ \<Rightarrow> 0 | Inl _ \<Rightarrow> 1) \<and> cl_world (snd (hfctl_main env (Inr c) s)) = w'"
    if raw: "raw_request cmd = Some req"
  proof -
    obtain socket where "hfctl_run env c s = dispatch_command env socket (cli_json c) cmd (s\<lparr>cl_world := w\<rparr>)"
      using online_run [OF assms(1) _ assms(2)] raw by auto
    then show ?thesis using raw_dispatch [OF raw call] status by (simp split: sum.split)
  qed
  ultimately show ?thesis by blast
qed

section \<open>The program and the daemon\<close>

text \<open>
  The daemon on the other side of the connection: each request is handled by \<^verbatim>\<open>handle_request\<close>, with a reply
  channel of its own; what the outside decides may differ from one request to the next.
\<close>

definition daemon_rpc :: "(nat \<Rightarrow> req_env) \<Rightarrow> string \<Rightarrow> request \<Rightarrow> nat \<times> manager \<Rightarrow> (string + response) \<times> (nat \<times> manager)" where
  "daemon_rpc envs self req w = (let (n, m) = w; (r, m') = handle_request (envs n) self n req m in (Ok r, (Suc n, m')))"

definition listed_entry :: "string \<times> device_state \<Rightarrow> device_entry" where
  "listed_entry d = \<lparr>en_id = fst d, en_name = device_name (ds_identity (snd d)), en_kind = device_type (ds_identity (snd d)),
     en_paired = (pinned_fingerprint (snd d) \<noteq> None), en_state = ''found''\<rparr>"

text \<open>The client reads the daemon's device list completely: names, types and trust are those of the table.\<close>

lemma parse_snapshot:
  "parse_devices (JArr (snapshot m)) = map listed_entry (sort_key (\<lambda>(d, st). device_name (ds_identity st)) (devices m))"
proof -
  have "device_of (case d of (i, st) \<Rightarrow> [(''device_id'', JStr i), (''name'', JStr (device_name (ds_identity st))),
      (''type'', JStr (device_type (ds_identity st))), (''paired'', JBool (pinned_fingerprint st \<noteq> None)),
      (''online'', JBool (is_connected st)),
      (''capabilities_incoming'', JArr (map JStr (incoming (ds_identity st)))),
      (''capabilities_outgoing'', JArr (map JStr (outgoing (ds_identity st))))]) = Some (listed_entry d)" for d
    by (cases d) (simp add: device_of_def field_simps' listed_entry_def as_str_def as_bool_def unwrap_or_def)
  from parse_list_objects [of _ device_of, OF this] show ?thesis
    by (simp add: parse_devices_def snapshot_def case_prod_beta')
qed

lemma daemon_list:
  assumes "re_up (envs n)"
  shows "daemon_rpc envs self DeviceList (n, m) =
    (Ok (ROk (JArr (snapshot m))), (Suc n, respond n (ADevices (snapshot m)) m))"
  using assms by (simp add: daemon_rpc_def handle_list_devices_def ok_json_def Let_def)

lemma fetch_devices_daemon:
  assumes "ce_rpc env = daemon_rpc envs self" "cl_world s = (n, m)" "re_up (envs n)"
  shows "fetch_devices env s =
    (Ok (map listed_entry (sort_key (\<lambda>(d, st). device_name (ds_identity st)) (devices m))),
     s\<lparr>cl_world := (Suc n, respond n (ADevices (snapshot m)) m)\<rparr>)"
  using assms daemon_list [of envs n self m]
  by (simp add: fetch_devices_def bind_c_def call_ok_eq reply_value_def expect_ok_def ok_c_def parse_snapshot)

lemma daemon_unpair:
  assumes "daemon_rpc envs self (DeviceUnpair d) (n, m) = (Ok (ROk v), w)"
  obtains m' where "w = (Suc n, m')" "re_up (envs n)" "mgr_inv m \<Longrightarrow> mgr_inv m'"
    "\<And>x. trust m' x = (if x = d then None else trust m x)"
proof -
  have up: "re_up (envs n)"
    using assms by (cases "re_up (envs n)")
      (auto simp: daemon_rpc_def answer_with_def handle_unpair_def handle_unit_def resp_err_def)
  define m' where "m' = respond n (AUnit (Ok ())) (snd (unpair (re_mgr (envs n)) d m))"
  have "w = (Suc n, m')"
    using assms by (simp add: daemon_rpc_def answer_with_def handle_ops [OF up] ok_json_def m'_def)
  moreover have "trust m' x = (if x = d then None else trust m x)" for x
    by (simp add: m'_def unpair_trust quiet_views(1) [OF quiet_respond])
  moreover have "mgr_inv m'" if "mgr_inv m" using quiet_inv [OF quiet_respond] unpair_inv [OF that] by (simp add: m'_def)
  ultimately show ?thesis using that up by blast
qed

lemma listed_trust:
  assumes "distinct (keys (devices m))"
  shows "(\<exists>e \<in> set (map listed_entry (sort_key k (devices m))). en_id e = x \<and> en_paired e) \<longleftrightarrow> trust m x \<noteq> None"
    and "distinct (map en_id (map listed_entry (sort_key k (devices m))))"
proof -
  have "(\<exists>e \<in> set (map listed_entry (sort_key k (devices m))). en_id e = x \<and> en_paired e) \<longleftrightarrow>
      (\<exists>st. (x, st) \<in> set (devices m) \<and> pinned_fingerprint st \<noteq> None)"
    by (force simp: listed_entry_def)
  also have "\<dots> \<longleftrightarrow> trust m x \<noteq> None" using tget_set [OF assms, of x] by (auto simp: trust_def bind_eq_Some_conv)
  finally show "(\<exists>e \<in> set (map listed_entry (sort_key k (devices m))). en_id e = x \<and> en_paired e) \<longleftrightarrow> trust m x \<noteq> None" .
  have "map en_id (map listed_entry (sort_key k (devices m))) = map fst (sort_key k (devices m))"
    by (simp add: listed_entry_def)
  moreover have "distinct (map fst (sort_key k (devices m)))"
    using assms by (metis distinct_map distinct_sort set_sort)
  ultimately show "distinct (map en_id (map listed_entry (sort_key k (devices m))))" by metis
qed

text \<open>C15. From the command line to the trust store and back: when \<^verbatim>\<open>hfctl unpair\<close> exits with 0 against the daemon, the
  next device list a client reads shows exactly the devices the daemon trusts, each device once; the
  unpaired one is shown as not paired, and for every other device the flag is what it was.
\<close>

theorem unpair_reaches_every_client:
  assumes "ce_rpc (me_cli env) = daemon_rpc envs self" "cl_world s = (n, m)" "mgr_inv m"
    and "me_connect env (unwrap_or (cli_socket c) (default_socket_path (me_runtime_dir env) (me_proc_status env))) (n, m) = (Ok (), (n, m))"
    and "cli_command c = Some (CUnpair d)" "hfctl_main env (Inr c) s = (0, s')" "re_up (envs (Suc n))"
  shows "\<exists>entries s''. fetch_devices (me_cli env) s' = (Ok entries, s'') \<and> distinct (map en_id entries) \<and>
    (\<forall>x. (\<exists>e \<in> set entries. en_id e = x \<and> en_paired e) \<longleftrightarrow> x \<noteq> d \<and> trust m x \<noteq> None)"
proof -
  obtain socket where run: "hfctl_run env c s = dispatch_command env socket (cli_json c) (CUnpair d) (s\<lparr>cl_world := (n, m)\<rparr>)"
    by (rule online_run [OF assms(5), of env s "(n, m)"]) (simp_all add: assms(2,4))
  have same: "s\<lparr>cl_world := (n, m)\<rparr> = s" using assms(2) by (cases s) simp
  obtain u where "hfctl_run env c s = (Ok u, s')"
    using assms(6) by (auto simp: hfctl_main_def split: prod.splits sum.splits)
  then have "print_unpair (me_cli env) d s = (Ok u, s')" using run same by simp
  then obtain v w where w: "daemon_rpc envs self (DeviceUnpair d) (n, m) = (Ok (ROk v), w)" and s': "cl_world s' = w"
    using assms(1,2) unfolding print_unpair_def cmd_unpair_def
    by (auto elim!: bind_c_OkE simp: call_unit_Ok println_def)
  obtain m' where m': "w = (Suc n, m')" "mgr_inv m'" "\<And>x. trust m' x = (if x = d then None else trust m x)"
    by (rule daemon_unpair [OF w]) (use assms(3) in blast)
  have "distinct (keys (devices m'))" using m'(2) by (simp add: mgr_inv_def)
  note listed = listed_trust [OF this, where k = "\<lambda>(d, st). device_name (ds_identity st)"]
  have "x \<noteq> d \<and> trust m x \<noteq> None \<longleftrightarrow> trust m' x \<noteq> None" for x using m'(3) by simp
  then show ?thesis
    unfolding fetch_devices_daemon [OF assms(1) s' [unfolded m'(1)] assms(7)] using listed by (simp only:) blast
qed

definition demo_env :: "(nat \<times> manager) main_env" where
  "demo_env = \<lparr>me_cli = \<lparr>ce_rpc = daemon_rpc (\<lambda>_. demo_req) ''self'', ce_json = (\<lambda>_. []), ce_pretty = (\<lambda>_. None), ce_debug = (\<lambda>_. []),
       ce_stdin = Ok [], ce_receiver = True, ce_buffered = [], ce_window = [], ce_ping = (JNull, []), ce_dash = []\<rparr>,
     me_fm = demo_fm, me_connect = (\<lambda>_ w. (Ok (), w)), me_runtime_dir = None, me_proc_status = None, me_session = ok_c (),
     me_completions = (\<lambda>_. []), me_sources = (\<lambda>_. [])\<rparr>"

definition demo_call :: "hf_command \<Rightarrow> cli" where
  "demo_call cmd = \<lparr>cli_socket = None, cli_json = False, cli_command = Some cmd\<rparr>"

lemma demo_env_simps [simp]:
  "ce_rpc (me_cli demo_env) = daemon_rpc (\<lambda>_. demo_req) ''self''" "me_connect demo_env p w = (Ok (), w)" "re_up demo_req"
  "cli_command (demo_call cmd) = Some cmd"
  by (simp_all add: demo_env_def demo_req_def demo_call_def)

theorem unpair_reaches_every_client_witness:
  "trust (mgr_run demo_inputs demo_mgr) ''d'' \<noteq> None \<and>
   (\<exists>entries s''. fetch_devices (me_cli demo_env) (snd (hfctl_main demo_env (Inr (demo_call (CUnpair ''d'')))
       (demo_cli (0, mgr_run demo_inputs demo_mgr) (\<lambda>_. None)))) = (Ok entries, s'') \<and>
     \<not> list_ex (\<lambda>e. en_id e = ''d'' \<and> en_paired e) entries)"
proof -
  let ?m = "mgr_run demo_inputs demo_mgr" and ?c = "demo_call (CUnpair ''d'')"
  let ?s = "demo_cli (0, ?m) (\<lambda>_. None)"
  have inv: "mgr_inv ?m"
    using mgr.run_inv [OF demo_mgr_start(1) demo_guards(1)] by (simp add: mgr_run_def)
  obtain code s' where r: "hfctl_main demo_env (Inr ?c) ?s = (code, s')" by fastforce
  have "code = 0"
    using r by (auto simp: hfctl_main_def hfctl_run_def demo_call_def unwrap_or_def cmd_connect_def bind_c_def
        print_unpair_def cmd_unpair_def call_unit_def call_ok_def call_raw_def demo_cli_def daemon_rpc_def answer_with_def
        handle_ops ok_json_def of_result_def expect_ok_def ok_c_def println_def split: prod.splits sum.splits)
  then have "hfctl_main demo_env (Inr ?c) ?s = (0, s')" using r by simp
  then show ?thesis
    using unpair_reaches_every_client [of demo_env "\<lambda>_. demo_req" "''self''" ?s 0 ?m ?c "''d''" s'] inv demo_run_trust
    by (auto simp: demo_cli_def list_ex_iff)
qed

section \<open>The menus\<close>

text \<open>
  The rows of the daemon carry the device under \<^verbatim>\<open>device_id\<close>; the generated extension looks under \<^verbatim>\<open>id\<close> and
  so never has a device to offer.
\<close>

lemma extension_shows_no_device: "extension_devices (JArr (snapshot m)) = []"
proof -
  have "List.map_filter (\<lambda>r. Option.bind (as_object r) extension_row) (map f xs) = []"
    if "\<And>x. Option.bind (as_object (f x)) extension_row = None" for f :: "string \<times> device_state \<Rightarrow> json" and xs
    by (induction xs) (simp_all add: that List.map_filter_simps)
  then show ?thesis by (simp add: extension_devices_def snapshot_def as_object_def extension_row_def case_prod_beta')
qed

text \<open>
  The name a device announces goes into the Dolphin menu as it is: a name with line breaks writes lines of
  its own into the file, among them commands.
\<close>

lemma announced_name_writes_lines:
  assumes "d \<in> set (devices m)" "device_name (ds_identity (snd d)) = a @ NL @ line @ NL @ b"
  shows "sublist (NL @ line @ NL) (dolphin_servicemenu fe (menu_devices (JArr (snapshot m))))"
proof -
  define ds where "ds = sort_key (\<lambda>(d, st). device_name (ds_identity st)) (devices m)"
  have "menu_devices (JArr (snapshot m)) = map (\<lambda>(i, st). (i, device_name (ds_identity st))) ds"
    unfolding menu_devices_def snapshot_def ds_def [symmetric] as_array_def
    by (induction ds) (auto simp: List.map_filter_simps menu_device_def jget_def as_str_def unwrap_or_def)
  moreover have "(\<lambda>(i, st). (i, device_name (ds_identity st))) d \<in> set (map (\<lambda>(i, st). (i, device_name (ds_identity st))) ds)"
    using assms(1) by (simp add: ds_def)
  moreover have "(\<lambda>(i, st). (i, device_name (ds_identity st))) d = (fst d, a @ NL @ line @ NL @ b)"
    using assms(2) by (simp add: case_prod_beta)
  ultimately have "(fst d, a @ NL @ line @ NL @ b) \<in> set (menu_devices (JArr (snapshot m)))" by (simp only:)
  then obtain p q where pq: "menu_devices (JArr (snapshot m)) = p @ (fst d, a @ NL @ line @ NL @ b) # q" by (meson split_list)
  define act where "act = desktop_action (hfctl_bin fe) (fst d, a @ NL @ line @ NL @ b)"
  define acts where "acts = concat (map (desktop_action (hfctl_bin fe)) (menu_devices (JArr (snapshot m))))"
  have "act = (NL @ ''[Desktop Action send_to_'' @ fst d @ '']'' @ NL @ ''Name=Send to '' @ a) @ (NL @ line @ NL) @
      (b @ NL @ ''Icon=document-send'' @ NL @ ''Exec='' @ hfctl_bin fe @ '' send -d '' @ fst d @ '' %F'')"
    by (simp add: act_def desktop_action_def)
  then have "sublist (NL @ line @ NL) act" by (metis sublist_appendI)
  also have "sublist act acts" by (simp add: acts_def act_def pq)
  also have "sublist acts (dolphin_servicemenu fe (menu_devices (JArr (snapshot m))))"
    using sublist_appendI [of acts _ "[]"]
    by (simp only: dolphin_servicemenu_def Let_def acts_def [symmetric] append_assoc [symmetric] append_Nil2)
  finally show ?thesis .
qed

end
