(* ===== verification/Hf_Gui.thy ===== *)
theory Hf_Gui
  imports Hf_Cmd
begin

text \<open>
  The graphical front end: its data model and settings (\<^verbatim>\<open>gui/src/model.rs\<close>), the reducer
  (\<^verbatim>\<open>gui/src/app.rs\<close>), the driver that talks to the daemon (\<^verbatim>\<open>gui/src/bridge.rs\<close>), and the decisions the view
  takes from the state (\<^verbatim>\<open>gui/src/view.rs\<close>).  Layout and drawing belong to the toolkit.

  A command the reducer sends is appended to a queue the driver takes from.  The settings file is kept as the
  last table that was written.  Rows for devices, plugins, transfers and notifications have the same fields as
  those of the terminal client, and its field lookups and row readers are the same code.
\<close>

section \<open>Data model\<close>

datatype conn_state = Disconnected | Connecting | IpcConnected

fun conn_label :: "conn_state \<Rightarrow> string" where
  "conn_label Disconnected = ''disconnected''"
| "conn_label Connecting = ''connecting''"
| "conn_label IpcConnected = ''connected''"

datatype gui_tab = GDevices | GTransfers | GNotifications | GLogs

fun gui_tab_label :: "gui_tab \<Rightarrow> string" where
  "gui_tab_label GDevices = ''Devices''"
| "gui_tab_label GTransfers = ''Transfers''"
| "gui_tab_label GNotifications = ''Notifications''"
| "gui_tab_label GLogs = ''Logs''"

definition gui_from_found :: "string \<Rightarrow> string \<Rightarrow> device_entry" where
  "gui_from_found i n = \<lparr>en_id = i, en_name = n, en_kind = ''unknown'', en_paired = False, en_state = ''found''\<rparr>"

definition gui_apply_state :: "string \<Rightarrow> device_entry \<Rightarrow> device_entry" where
  "gui_apply_state st d = d\<lparr>en_state := st, en_paired := (st = ''paired'')\<rparr>"

definition gui_upsert :: "device_entry \<Rightarrow> device_entry list \<Rightarrow> device_entry list" where
  "gui_upsert e ds = (if list_ex (\<lambda>d. en_id d = en_id e) ds
     then update_first (\<lambda>d. en_id d = en_id e) (\<lambda>_. e) ds else ds @ [e])"

definition row_progress :: "u64 \<Rightarrow> u64 \<Rightarrow> transfer_entry \<Rightarrow> transfer_entry" where
  "row_progress dn tot r = r\<lparr>te_done := dn, te_total := (if tot > 0 \<or> te_total r = 0 then tot else te_total r)\<rparr>"

definition row_finished :: "transfer_entry \<Rightarrow> transfer_entry" where
  "row_finished r = (if te_total r > 0 then r\<lparr>te_done := te_total r\<rparr> else r)"

definition row_upsert :: "transfer_entry \<Rightarrow> transfer_entry list \<Rightarrow> transfer_entry list" where
  "row_upsert r rs = (if list_ex (\<lambda>x. te_id x = te_id r) rs
     then update_first (\<lambda>x. te_id x = te_id r) (\<lambda>_. r) rs else rs @ [r])"

definition gui_parse_devices :: "json \<Rightarrow> device_entry list" where
  "gui_parse_devices = parse_list ''devices'' device_of"

definition gui_parse_plugins :: "json \<Rightarrow> plugin_row list" where
  "gui_parse_plugins = parse_list ''plugins'' plugin_of"

definition gui_parse_notifications :: "json \<Rightarrow> notif_row list" where
  "gui_parse_notifications = parse_list ''notifications'' notif_of"

definition toggle_key :: "string \<Rightarrow> string \<Rightarrow> string" where
  "toggle_key d p = d @ '':'' @ p"

definition split_toggle_key :: "string \<Rightarrow> (string \<times> string) option" where
  "split_toggle_key key = split_once (CHR '':'') key"

definition apply_persisted_toggles :: "string \<Rightarrow> bool table \<Rightarrow> plugin_row list \<Rightarrow> plugin_row list" where
  "apply_persisted_toggles d toggles rows = map (\<lambda>r. case tget (toggle_key d (pr_name r)) toggles of
       Some b \<Rightarrow> r\<lparr>pr_enabled := b\<rparr> | None \<Rightarrow> r) rows"

definition load_plugin_toggles :: "json option \<Rightarrow> bool table" where
  "load_plugin_toggles parsed_file = (case Option.bind parsed_file as_object of
       None \<Rightarrow> []
     | Some entries \<Rightarrow> List.map_filter (\<lambda>(k, v). map_option (\<lambda>b. (k, b)) (as_bool v)) entries)"

definition toggles_json :: "bool table \<Rightarrow> json" where
  "toggles_json toggles = JObj (map (\<lambda>(k, b). (k, JBool b)) toggles)"

section \<open>The reducer\<close>

definition GUI_LOG_CAP :: nat where "GUI_LOG_CAP = 300"
definition NOTIF_CAP :: nat where "NOTIF_CAP = 100"

datatype bridge_in =
    BRefresh
  | BListPlugins string
  | BSetPlugin string string bool
  | BPair string
  | BUnpair string
  | BSendFile string string
  | BDismiss string
  | BClipboard string

datatype gui_message =
    MNothing
  | MTabSelected gui_tab
  | MBannerClosed
  | MIpcStatus conn_state
  | MBridgeReady
  | MConnectionLost string
  | MLoadFailed string
  | MDevicesLoaded "device_entry list"
  | MPluginsLoaded "plugin_row list"
  | MNotificationsLoaded "notif_row list"
  | MPaired "string + unit"
  | MUnpaired "string + unit"
  | MFileQueued "string + unit"
  | MDismissed "string + unit"
  | MPluginSet "string + unit"
  | MClipboardSet "string + unit"
  | MEvent server_event
  | MDeviceSelected nat
  | MPairPressed string
  | MUnpairPressed string
  | MTogglePlugin string bool
  | MSettingsPressed
  | MToggleSavedPlugin string bool
  | MQueueFilePressed
  | MPathChanged string
  | MClipboardChanged string
  | MSendPressed
  | MRefreshPressed
  | MDismissPressed string

record gui =
  g_conn :: conn_state
  g_tab :: gui_tab
  g_devices :: "device_entry list"
  g_selected :: "nat option"
  g_selected_id :: "string option"
  g_plugins :: "plugin_row list"
  g_transfers :: "transfer_entry list"
  g_notifications :: "notif_row list"
  g_logs :: "string list"
  g_banner :: "string option"
  g_bridge :: bool
  g_pair_target :: "string option"
  g_unpair_target :: "string option"
  g_clipboard_draft :: string
  g_clipboard_status :: "string option"
  g_file_path_draft :: string
  g_daemon_version :: "string option"
  g_settings_open :: bool
  g_toggles :: "bool table"
  g_sent :: "bridge_in list"
  g_file :: "bool table"

text \<open>Whether the driver still takes commands, and the failure of a write of the settings\<close>

record gui_env =
  ge_driver :: bool
  ge_save :: "string option"

definition gui_new :: "bool table \<Rightarrow> gui" where
  "gui_new toggles = \<lparr>g_conn = Disconnected, g_tab = GDevices, g_devices = [], g_selected = None, g_selected_id = None,
     g_plugins = [], g_transfers = [], g_notifications = [], g_logs = [''handfast-gui started''], g_banner = None,
     g_bridge = False, g_pair_target = None, g_unpair_target = None, g_clipboard_draft = [], g_clipboard_status = None,
     g_file_path_draft = [], g_daemon_version = None, g_settings_open = False, g_toggles = toggles, g_sent = [], g_file = toggles\<rparr>"

definition gui_log :: "string \<Rightarrow> gui \<Rightarrow> gui" where
  "gui_log line g = g\<lparr>g_logs := (if length (g_logs g) \<ge> GUI_LOG_CAP then tl (g_logs g) else g_logs g) @ [line]\<rparr>"

definition set_banner :: "string \<Rightarrow> gui \<Rightarrow> gui" where
  "set_banner t g = (gui_log (''[error] '' @ t) g)\<lparr>g_banner := Some t\<rparr>"

definition change_device :: "string \<Rightarrow> (device_entry \<Rightarrow> device_entry) \<Rightarrow> gui \<Rightarrow> gui" where
  "change_device i f g = g\<lparr>g_devices := update_first (\<lambda>d. en_id d = i) f (g_devices g)\<rparr>"

definition gui_selected_device :: "gui \<Rightarrow> string option" where
  "gui_selected_device g = map_option en_id (Option.bind (g_selected g) (get_at (g_devices g)))"

definition sync_selection :: "gui \<Rightarrow> gui" where
  "sync_selection g = g\<lparr>g_selected := (case g_selected_id g of
       Some i \<Rightarrow> position (\<lambda>d. en_id d = i) (g_devices g) | None \<Rightarrow> None)\<rparr>"

definition gui_dispatch :: "gui_env \<Rightarrow> bridge_in \<Rightarrow> gui \<Rightarrow> bool \<times> gui" where
  "gui_dispatch env c g = (if g_bridge g \<and> ge_driver env then (True, g\<lparr>g_sent := g_sent g @ [c]\<rparr>) else (False, g))"

definition dispatch_or_banner :: "gui_env \<Rightarrow> bridge_in \<Rightarrow> gui \<Rightarrow> gui" where
  "dispatch_or_banner env c g = (case gui_dispatch env c g of
       (True, g') \<Rightarrow> g' | (False, g') \<Rightarrow> set_banner ''not connected'' g')"

definition record_plugin_toggle :: "gui_env \<Rightarrow> string \<Rightarrow> string \<Rightarrow> bool \<Rightarrow> gui \<Rightarrow> gui" where
  "record_plugin_toggle env d p b g = (let g' = g\<lparr>g_toggles := tput (toggle_key d p) b (g_toggles g)\<rparr> in
     case ge_save env of
       None \<Rightarrow> g'\<lparr>g_file := g_toggles g'\<rparr>
     | Some e \<Rightarrow> gui_log (''[warn] persisting plugin toggles failed: '' @ e) g')"

definition take_target :: "bool \<Rightarrow> gui \<Rightarrow> string option \<times> gui" where
  "take_target unpairing g = (if unpairing then (g_unpair_target g, g\<lparr>g_unpair_target := None\<rparr>)
     else (g_pair_target g, g\<lparr>g_pair_target := None\<rparr>))"

definition finish_pairing :: "string + unit \<Rightarrow> bool \<Rightarrow> gui \<Rightarrow> gui" where
  "finish_pairing r unpairing g0 = (let (target, g) = take_target unpairing g0 in
     case r of
       Inr _ \<Rightarrow> (case target of
           None \<Rightarrow> g
         | Some i \<Rightarrow>
             if unpairing
             then gui_log (''unpaired '' @ i) (change_device i (\<lambda>c. c\<lparr>en_paired := False, en_state := ''found''\<rparr>) g)
             else gui_log (''paired with '' @ i) (change_device i (\<lambda>c. c\<lparr>en_paired := True, en_state := ''paired''\<rparr>) g))
     | Inl e \<Rightarrow> set_banner ((if unpairing then ''unpairing'' else ''pairing'') @ '' failed: '' @ e)
         (case target of
            None \<Rightarrow> g
          | Some i \<Rightarrow> change_device i (\<lambda>c.
              if unpairing \<and> en_state c = ''unpairing'' then c\<lparr>en_state := ''paired''\<rparr>
              else if \<not> unpairing \<and> en_state c = ''pairing'' then c\<lparr>en_state := ''found''\<rparr> else c) g))"

definition clamp_line :: "string \<Rightarrow> nat \<Rightarrow> string" where
  "clamp_line t n = (if length t \<le> n then t else take (n - 3) t @ ''...'')"

definition drop_at :: "nat \<Rightarrow> 'a list \<Rightarrow> 'a list" where
  "drop_at i xs = take i xs @ drop (Suc i) xs"

definition clear_target :: "string \<Rightarrow> string option \<Rightarrow> string option" where
  "clear_target i t = (if t = Some i then None else t)"

definition device_lost :: "string \<Rightarrow> gui \<Rightarrow> gui" where
  "device_lost i g = (let
       g1 = (case position (\<lambda>d. en_id d = i) (g_devices g) of
           Some k \<Rightarrow> g\<lparr>g_devices := drop_at k (g_devices g)\<rparr> | None \<Rightarrow> g);
       g2 = (if g_selected_id g1 = Some i then g1\<lparr>g_selected_id := None, g_plugins := []\<rparr> else g1);
       g3 = sync_selection g2;
       g4 = g3\<lparr>g_pair_target := clear_target i (g_pair_target g3), g_unpair_target := clear_target i (g_unpair_target g3)\<rparr>
     in gui_log (''device lost: '' @ i) g4)"

fun gui_event :: "server_event \<Rightarrow> gui \<Rightarrow> gui" where
  "gui_event (SHello version name pid) g = (let
       g1 = gui_log (''hello: '' @ name @ '' pid '' @ show_nat (unat pid) @ '' (ipc v'' @ show_nat (unat version) @ '')'')
         (g\<lparr>g_daemon_version := Some (show_nat (unat version))\<rparr>) in
     if version \<noteq> IPC_VERSION
     then gui_log (''[warn] protocol mismatch: gui speaks v'' @ show_nat (unat IPC_VERSION) @ '', daemon offers v'' @ show_nat (unat version)) g1
     else g1)"
| "gui_event (SDeviceFound i n) g = (let
       card = unwrap_or (List.find (\<lambda>d. en_id d = i) (g_devices g)) (gui_from_found i n) in
     g\<lparr>g_devices := gui_upsert (card\<lparr>en_name := n\<rparr>) (g_devices g)\<rparr>)"
| "gui_event (SDeviceLost i) g = device_lost i g"
| "gui_event (SDeviceStateChanged i st) g = change_device i (gui_apply_state st) g"
| "gui_event (STransferAdded i d dir fname tot) g = gui_log (''transfer '' @ dir @ '': '' @ fname)
     (g\<lparr>g_transfers := row_upsert \<lparr>te_id = i, te_name = fname, te_done = 0, te_total = tot\<rparr> (g_transfers g)\<rparr>)"
| "gui_event (STransferProgress i dn tot) g = (let
       rows = (if list_ex (\<lambda>r. te_id r = i) (g_transfers g) then g_transfers g
         else g_transfers g @ [\<lparr>te_id = i, te_name = i, te_done = 0, te_total = 0\<rparr>]) in
     g\<lparr>g_transfers := update_first (\<lambda>r. te_id r = i) (row_progress dn tot) rows\<rparr>)"
| "gui_event (STransferFinished i) g = gui_log (''transfer finished: '' @ i)
     (g\<lparr>g_transfers := update_first (\<lambda>r. te_id r = i) row_finished (g_transfers g)\<rparr>)"
| "gui_event (STransferFailed i reason) g = gui_log (''[error] transfer failed: '' @ reason)
     (g\<lparr>g_transfers := filter (\<lambda>r. te_id r \<noteq> i) (g_transfers g)\<rparr>)"
| "gui_event (SNotificationReceived i source title txt) g = (let
       rows = \<lparr>nr_id = i, nr_app = source, nr_title = title, nr_body = txt\<rparr> # g_notifications g in
     g\<lparr>g_notifications := (if length rows > NOTIF_CAP then butlast rows else rows)\<rparr>)"
| "gui_event (SClipboardUpdated t) g = gui_log (''remote clipboard: '' @ clamp_line t 80) g"
| "gui_event (SLogRecord level msg) g = gui_log (''['' @ level @ ''] '' @ msg) g"
| "gui_event SDaemonShutdown g = set_banner ''daemon shut down; waiting for it to come back'' (gui_log ''daemon shut down'' g)"
| "gui_event _ g = g"

fun gui_update :: "gui_env \<Rightarrow> gui_message \<Rightarrow> gui \<Rightarrow> gui" where
  "gui_update env MNothing g = g"
| "gui_update env (MTabSelected t) g = g\<lparr>g_tab := t\<rparr>"
| "gui_update env MBannerClosed g = g\<lparr>g_banner := None\<rparr>"
| "gui_update env (MIpcStatus st) g = (if st = IpcConnected then g\<lparr>g_conn := st, g_banner := None\<rparr> else g\<lparr>g_conn := st\<rparr>)"
| "gui_update env MBridgeReady g = g\<lparr>g_bridge := True\<rparr>"
| "gui_update env (MConnectionLost t) g = set_banner t g"
| "gui_update env (MLoadFailed t) g = set_banner (''load failed: '' @ t) g"
| "gui_update env (MDevicesLoaded cards) g = gui_log (''loaded '' @ show_nat (length cards) @ '' device(s)'')
     (g\<lparr>g_devices := cards, g_selected := None, g_selected_id := None, g_plugins := []\<rparr>)"
| "gui_update env (MPluginsLoaded rows) g = gui_log (''loaded '' @ show_nat (length rows) @ '' plugin(s)'')
     (g\<lparr>g_plugins := (case gui_selected_device g of
         Some d \<Rightarrow> apply_persisted_toggles d (g_toggles g) rows | None \<Rightarrow> rows)\<rparr>)"
| "gui_update env (MNotificationsLoaded rows) g = g\<lparr>g_notifications := rows\<rparr>"
| "gui_update env (MPaired r) g = finish_pairing r False g"
| "gui_update env (MUnpaired r) g = finish_pairing r True g"
| "gui_update env (MFileQueued r) g = (case r of
       Inr _ \<Rightarrow> gui_log ''file queued for transfer'' g | Inl e \<Rightarrow> set_banner (''send failed: '' @ e) g)"
| "gui_update env (MDismissed r) g = (case r of
       Inr _ \<Rightarrow> gui_log ''notification dismissed'' g | Inl e \<Rightarrow> set_banner (''dismiss failed: '' @ e) g)"
| "gui_update env (MPluginSet r) g = (case r of Inr _ \<Rightarrow> g | Inl e \<Rightarrow> set_banner (''plugin change failed: '' @ e) g)"
| "gui_update env (MClipboardSet r) g = (case r of
       Inr _ \<Rightarrow> gui_log ''clipboard sent'' (g\<lparr>g_clipboard_status := Some ''copied to daemon''\<rparr>)
     | Inl e \<Rightarrow> gui_log (''[error] clipboard send failed: '' @ e) (g\<lparr>g_clipboard_status := Some (''error: '' @ e)\<rparr>))"
| "gui_update env (MEvent e) g = gui_event e g"
| "gui_update env (MDeviceSelected k) g = (case get_at (g_devices g) k of
       Some d \<Rightarrow> dispatch_or_banner env (BListPlugins (en_id d))
         (g\<lparr>g_selected_id := Some (en_id d), g_selected := Some k, g_plugins := []\<rparr>)
     | None \<Rightarrow> g)"
| "gui_update env (MPairPressed i) g = dispatch_or_banner env (BPair i)
     ((change_device i (\<lambda>c. c\<lparr>en_state := ''pairing''\<rparr>) g)\<lparr>g_pair_target := Some i\<rparr>)"
| "gui_update env (MUnpairPressed i) g = dispatch_or_banner env (BUnpair i)
     ((change_device i (\<lambda>c. c\<lparr>en_state := ''unpairing''\<rparr>) g)\<lparr>g_unpair_target := Some i\<rparr>)"
| "gui_update env (MTogglePlugin p b) g = (let
       g1 = g\<lparr>g_plugins := update_first (\<lambda>r. pr_name r = p) (\<lambda>r. r\<lparr>pr_enabled := b\<rparr>) (g_plugins g)\<rparr> in
     case gui_selected_device g1 of
       Some d \<Rightarrow> dispatch_or_banner env (BSetPlugin d p b) (record_plugin_toggle env d p b g1)
     | None \<Rightarrow> g1)"
| "gui_update env MSettingsPressed g = g\<lparr>g_settings_open := \<not> g_settings_open g\<rparr>"
| "gui_update env (MToggleSavedPlugin key b) g = (case split_toggle_key key of
       Some (d, p) \<Rightarrow> dispatch_or_banner env (BSetPlugin d p b) (record_plugin_toggle env d p b g)
     | None \<Rightarrow> set_banner (''malformed plugin toggle key: '' @ key) g)"
| "gui_update env MQueueFilePressed g = (case gui_selected_device g of
       None \<Rightarrow> set_banner ''select a device first'' g
     | Some d \<Rightarrow> (let p = trim_str (g_file_path_draft g) in
         if p = [] then set_banner ''enter an absolute file path first'' g
         else dispatch_or_banner env (BSendFile d p) g))"
| "gui_update env (MDismissPressed i) g =
     snd (gui_dispatch env (BDismiss i) (g\<lparr>g_notifications := filter (\<lambda>r. nr_id r \<noteq> i) (g_notifications g)\<rparr>))"
| "gui_update env (MPathChanged p) g = g\<lparr>g_file_path_draft := p\<rparr>"
| "gui_update env (MClipboardChanged t) g = g\<lparr>g_clipboard_draft := t\<rparr>"
| "gui_update env MSendPressed g = (let t = trim_str (g_clipboard_draft g) in
     if t = [] then g\<lparr>g_clipboard_status := Some ''nothing to send''\<rparr>
     else (case gui_dispatch env (BClipboard t) (g\<lparr>g_clipboard_status := Some ''sending''\<rparr>) of
         (True, g') \<Rightarrow> g' | (False, g') \<Rightarrow> g'\<lparr>g_clipboard_status := Some ''not connected''\<rparr>))"
| "gui_update env MRefreshPressed g = dispatch_or_banner env BRefresh g"

section \<open>What the view decides\<close>

definition selected_card :: "gui \<Rightarrow> device_entry option" where
  "selected_card g = Option.bind (g_selected g) (get_at (g_devices g))"

text \<open>The message of the button of a device row; none while a request is in flight\<close>

definition device_button :: "device_entry \<Rightarrow> gui_message option" where
  "device_button d = (if en_state d = ''pairing'' \<or> en_state d = ''unpairing'' then None
     else if en_paired d then Some (MUnpairPressed (en_id d)) else Some (MPairPressed (en_id d)))"

definition can_refresh :: "gui \<Rightarrow> bool" where
  "can_refresh g = (g_conn g = IpcConnected)"

definition can_send :: "gui \<Rightarrow> bool" where
  "can_send g = (g_conn g = IpcConnected \<and> trim_str (g_clipboard_draft g) \<noteq> [])"

fun add_names :: "string \<Rightarrow> string list \<Rightarrow> string list \<Rightarrow> string list" where
  "add_names d names [] = names"
| "add_names d names (k # ks) = (case split_toggle_key k of
       Some (owner, p) \<Rightarrow> add_names d (if owner = d \<and> p \<notin> set names then names @ [p] else names) ks
     | None \<Rightarrow> add_names d names ks)"

definition settings_entries :: "gui \<Rightarrow> string \<Rightarrow> (string \<times> bool) list" where
  "settings_entries g d = (let
       here = (case selected_card g of Some c \<Rightarrow> en_id c = d | None \<Rightarrow> False);
       names = add_names d (if here then map pr_name (g_plugins g) else []) (keys (g_toggles g)) in
     map (\<lambda>n. (n, case tget (toggle_key d n) (g_toggles g) of
         Some b \<Rightarrow> b
       | None \<Rightarrow> (case List.find (\<lambda>r. pr_name r = n) (g_plugins g) of Some r \<Rightarrow> pr_enabled r | None \<Rightarrow> False))) names)"

definition daemon_label :: "gui \<Rightarrow> string" where
  "daemon_label g = (case g_daemon_version g of Some v \<Rightarrow> ''daemon ipc v'' @ v | None \<Rightarrow> ''daemon: unknown'')"

section \<open>The driver\<close>

text \<open>A request and its outcome as the driver reports it\<close>

definition unwrap_response :: "string + response \<Rightarrow> string + json" where
  "unwrap_response r = (case r of
       Inr (ROk v) \<Rightarrow> Ok v
     | Inr (RErr code msg) \<Rightarrow> Err (''daemon error '' @ show_i32 code @ '': '' @ msg)
     | Inl e \<Rightarrow> Err e)"

type_synonym 'w rpc = "request \<Rightarrow> 'w \<Rightarrow> (string + response) \<times> 'w"

definition ask_json :: "'w rpc \<Rightarrow> request \<Rightarrow> (string + json \<Rightarrow> gui_message list) \<Rightarrow> 'w \<Rightarrow> gui_message list \<times> 'w" where
  "ask_json rpc req f w = (let (r, w') = rpc req w in (f (unwrap_response r), w'))"

definition loaded :: "(json \<Rightarrow> gui_message) \<Rightarrow> string \<Rightarrow> string + json \<Rightarrow> gui_message list" where
  "loaded f what r = (case r of Inr v \<Rightarrow> [f v] | Inl e \<Rightarrow> [MLoadFailed (what @ '' failed: '' @ e)])"

definition done_msg :: "(string + unit \<Rightarrow> gui_message) \<Rightarrow> string + json \<Rightarrow> gui_message list" where
  "done_msg f r = [f (map_sum id (\<lambda>_. ()) r)]"

text \<open>One request after another: the messages in order\<close>

definition then_msgs :: "('w \<Rightarrow> gui_message list \<times> 'w) \<Rightarrow> ('w \<Rightarrow> gui_message list \<times> 'w) \<Rightarrow> 'w \<Rightarrow> gui_message list \<times> 'w" where
  "then_msgs f g w = (let (a, w1) = f w; (b, w2) = g w1 in (a @ b, w2))"

definition load_snapshot :: "'w rpc \<Rightarrow> 'w \<Rightarrow> gui_message list \<times> 'w" where
  "load_snapshot rpc = then_msgs
     (ask_json rpc DeviceList (loaded (\<lambda>v. MDevicesLoaded (gui_parse_devices v)) ''device list''))
     (ask_json rpc NotificationList (loaded (\<lambda>v. MNotificationsLoaded (gui_parse_notifications v)) ''notification list''))"

fun bridge_perform :: "'w rpc \<Rightarrow> bridge_in \<Rightarrow> 'w \<Rightarrow> gui_message list \<times> 'w" where
  "bridge_perform rpc BRefresh = ask_json rpc DeviceList (loaded (\<lambda>v. MDevicesLoaded (gui_parse_devices v)) ''refresh'')"
| "bridge_perform rpc (BListPlugins d) =
     ask_json rpc (PluginList d) (loaded (\<lambda>v. MPluginsLoaded (gui_parse_plugins v)) ''plugin list'')"
| "bridge_perform rpc (BSetPlugin d p b) = then_msgs
     (ask_json rpc (PluginSetEnabled d p b) (done_msg MPluginSet))
     (ask_json rpc (PluginList d) (\<lambda>r. case r of Inr v \<Rightarrow> [MPluginsLoaded (gui_parse_plugins v)] | Inl _ \<Rightarrow> []))"
| "bridge_perform rpc (BPair d) = ask_json rpc (DevicePair d) (done_msg MPaired)"
| "bridge_perform rpc (BUnpair d) = ask_json rpc (DeviceUnpair d) (done_msg MUnpaired)"
| "bridge_perform rpc (BSendFile d p) = ask_json rpc (ReqSendFile d p) (done_msg MFileQueued)"
| "bridge_perform rpc (BDismiss n) = ask_json rpc (NotificationDismiss n) (done_msg MDismissed)"
| "bridge_perform rpc (BClipboard t) = ask_json rpc (ClipboardSet t) (done_msg MClipboardSet)"

text \<open>
  What the driver's select yields on a live connection, and how a session stands: still open, its connection
  lost, or the application gone.
\<close>

datatype driver_input = DvEvent server_event | DvLost | DvCommand bridge_in | DvGone

datatype session_end = StillOpen | ConnLost | AppGone

fun drive_session :: "'w rpc \<Rightarrow> driver_input list \<Rightarrow> 'w \<Rightarrow> session_end \<times> gui_message list \<times> 'w" where
  "drive_session rpc [] w = (StillOpen, [], w)"
| "drive_session rpc (DvEvent e # is) w = (let (st, ms, w') = drive_session rpc is w in (st, MEvent e # ms, w'))"
| "drive_session rpc (DvLost # is) w = (ConnLost, [MIpcStatus Disconnected], w)"
| "drive_session rpc (DvCommand c # is) w = (let
       (ms, w1) = bridge_perform rpc c w; (st, ms', w2) = drive_session rpc is w1 in (st, ms @ ms', w2))"
| "drive_session rpc (DvGone # is) w = (AppGone, [], w)"

text \<open>The attempts to connect: each fails with a reason, gives no event stream, or is a session.\<close>

datatype attempt = Unreachable string | NoEvents | Session "driver_input list"

fun run_sessions :: "'w rpc \<Rightarrow> string \<Rightarrow> attempt list \<Rightarrow> 'w \<Rightarrow> gui_message list \<times> 'w" where
  "run_sessions rpc p [] w = ([], w)"
| "run_sessions rpc p (Unreachable e # as) w = (let (ms, w') = run_sessions rpc p as w in
     ([MIpcStatus Connecting, MIpcStatus Disconnected,
       MConnectionLost (''daemon unreachable at '' @ p @ '': '' @ e @ ''; retrying every 5s'')] @ ms, w'))"
| "run_sessions rpc p (NoEvents # as) w = (let (snap, w1) = load_snapshot rpc w; (ms, w2) = run_sessions rpc p as w1 in
     ([MIpcStatus Connecting, MIpcStatus IpcConnected] @ snap @ [MConnectionLost ''daemon provided no event stream''] @ ms, w2))"
| "run_sessions rpc p (Session is # as) w = (let
       (snap, w1) = load_snapshot rpc w; (st, body, w2) = drive_session rpc is w1;
       (ms, w3) = (if st = ConnLost then run_sessions rpc p as w2 else ([], w2)) in
     ([MIpcStatus Connecting, MIpcStatus IpcConnected] @ snap @ body @ ms, w3))"

section \<open>Well-formed states\<close>

definition selection_ok :: "gui \<Rightarrow> bool" where
  "selection_ok g = (case g_selected g of
       None \<Rightarrow> g_selected_id g = None
     | Some k \<Rightarrow> k < length (g_devices g) \<and> g_selected_id g = Some (en_id (g_devices g ! k)))"

definition gui_ok :: "gui \<Rightarrow> bool" where
  "gui_ok g = (selection_ok g \<and> length (g_logs g) \<le> GUI_LOG_CAP \<and> distinct (map te_id (g_transfers g)) \<and>
     distinct (keys (g_toggles g)))"

text \<open>The selection only depends on the identifiers of the list.\<close>

definition sel_view :: "gui \<Rightarrow> nat option \<times> string option \<times> string list" where
  "sel_view g = (g_selected g, g_selected_id g, map en_id (g_devices g))"

lemma selection_ok_view:
  "selection_ok g = (case sel_view g of (sel, sid, ids) \<Rightarrow>
     (case sel of None \<Rightarrow> sid = None | Some k \<Rightarrow> k < length ids \<and> sid = Some (ids ! k)))"
  by (auto simp: selection_ok_def sel_view_def split: option.split)

lemma selection_ok_cong: "sel_view g = sel_view h \<Longrightarrow> selection_ok g = selection_ok h"
  by (simp add: selection_ok_view)

lemma sel_view_simps [simp]:
  "sel_view (gui_log l g) = sel_view g" "sel_view (set_banner t g) = sel_view g"
  "sel_view (g\<lparr>g_pair_target := a\<rparr>) = sel_view g" "sel_view (g\<lparr>g_unpair_target := a\<rparr>) = sel_view g"
  "sel_view (g\<lparr>g_plugins := ps\<rparr>) = sel_view g" "sel_view (g\<lparr>g_transfers := ts\<rparr>) = sel_view g"
  "sel_view (g\<lparr>g_notifications := ns\<rparr>) = sel_view g" "sel_view (g\<lparr>g_toggles := tg\<rparr>) = sel_view g"
  "sel_view (g\<lparr>g_clipboard_status := cs\<rparr>) = sel_view g" "sel_view (g\<lparr>g_daemon_version := dv\<rparr>) = sel_view g"
  "sel_view (record_plugin_toggle env d p b g) = sel_view g" "sel_view (dispatch_or_banner env c g) = sel_view g"
  "sel_view (snd (gui_dispatch env c g)) = sel_view g" "sel_view (g\<lparr>g_tab := tb\<rparr>) = sel_view g"
  "sel_view (g\<lparr>g_banner := bn\<rparr>) = sel_view g" "sel_view (g\<lparr>g_conn := cn\<rparr>) = sel_view g"
  "sel_view (g\<lparr>g_bridge := br\<rparr>) = sel_view g" "sel_view (g\<lparr>g_settings_open := so\<rparr>) = sel_view g"
  "sel_view (g\<lparr>g_file_path_draft := fd\<rparr>) = sel_view g" "sel_view (g\<lparr>g_clipboard_draft := cd\<rparr>) = sel_view g"
  by (simp_all add: sel_view_def gui_log_def set_banner_def record_plugin_toggle_def dispatch_or_banner_def gui_dispatch_def Let_def
      split: option.split)

lemma sel_view_change [simp]: "(\<And>c. en_id (f c) = en_id c) \<Longrightarrow> sel_view (change_device i f g) = sel_view g"
  by (simp add: sel_view_def change_device_def update_first_ids)

lemma position_le: "position f xs = Some k \<Longrightarrow> k < length xs \<and> f (xs ! k)"
  using nth_length_takeWhile [of "\<lambda>x. \<not> f x" xs] by (auto simp: position_def Let_def split: if_splits)

lemma position_ex: "x \<in> set xs \<Longrightarrow> f x \<Longrightarrow> position f xs \<noteq> None"
  by (auto simp: position_None)

lemma sync_selection_ok:
  assumes "\<And>i. g_selected_id g = Some i \<Longrightarrow> i \<in> en_id ` set (g_devices g)"
  shows "selection_ok (sync_selection g)"
proof (cases "g_selected_id g")
  case (Some i)
  with assms obtain d where "d \<in> set (g_devices g)" "en_id d = i" by auto
  then obtain k where "position (\<lambda>d. en_id d = i) (g_devices g) = Some k"
    using position_ex [of d "g_devices g" "\<lambda>d. en_id d = i"] by auto
  with Some position_le [OF this] show ?thesis by (simp add: selection_ok_def sync_selection_def)
qed (simp add: selection_ok_def sync_selection_def)

lemma drop_at_keeps:
  assumes "x \<in> set xs" "k < length xs" "x \<noteq> xs ! k"
  shows "x \<in> set (drop_at k xs)"
proof -
  have "x \<in> set (take k xs @ xs ! k # drop (Suc k) xs)" using assms(1,2) by (simp flip: id_take_nth_drop)
  then show ?thesis using assms(3) by (auto simp: drop_at_def)
qed

lemma device_lost_selection: "selection_ok g \<Longrightarrow> selection_ok (device_lost i g)"
proof -
  assume ok: "selection_ok g"
  define g1 where "g1 = (case position (\<lambda>d. en_id d = i) (g_devices g) of
      Some k \<Rightarrow> g\<lparr>g_devices := drop_at k (g_devices g)\<rparr> | None \<Rightarrow> g)"
  define g2 where "g2 = (if g_selected_id g1 = Some i then g1\<lparr>g_selected_id := None, g_plugins := []\<rparr> else g1)"
  have sid: "g_selected_id g1 = g_selected_id g" by (simp add: g1_def split: option.split)
  have "j \<in> en_id ` set (g_devices g2)" if "g_selected_id g2 = Some j" for j
  proof -
    have j: "g_selected_id g = Some j" "j \<noteq> i" and d2: "g_devices g2 = g_devices g1"
      using that sid by (auto simp: g2_def split: if_splits)
    obtain n where n: "n < length (g_devices g)" "en_id (g_devices g ! n) = j"
      using ok j(1) by (auto simp: selection_ok_def split: option.splits)
    have "g_devices g ! n \<in> set (g_devices g1)"
    proof (cases "position (\<lambda>d. en_id d = i) (g_devices g)")
      case (Some k)
      then have "k < length (g_devices g)" "en_id (g_devices g ! k) = i" using position_le by fastforce+
      moreover from this have "g_devices g ! n \<noteq> g_devices g ! k" using n(2) j(2) by auto
      ultimately show ?thesis using Some n(1) drop_at_keeps [of "g_devices g ! n" "g_devices g" k] by (simp add: g1_def)
    qed (simp add: g1_def n(1))
    then show ?thesis using n(2) d2 by force
  qed
  then have "selection_ok (sync_selection g2)" by (rule sync_selection_ok)
  moreover have "sel_view (device_lost i g) = sel_view (sync_selection g2)"
    by (simp add: device_lost_def Let_def g1_def g2_def)
  ultimately show ?thesis using selection_ok_cong by blast
qed

lemma update_first_id_nth:
  "(\<And>x. en_id x = v \<Longrightarrow> en_id (f x) = v) \<Longrightarrow> k < length xs \<Longrightarrow> en_id (update_first (\<lambda>x. en_id x = v) f xs ! k) = en_id (xs ! k)"
  by (induction xs arbitrary: k) (auto simp: nth_Cons split: nat.split)

lemma gui_upsert_selection:
  assumes "selection_ok g"
  shows "selection_ok (g\<lparr>g_devices := gui_upsert e (g_devices g)\<rparr>)"
proof -
  have "k < length (gui_upsert e ds) \<and> en_id (gui_upsert e ds ! k) = en_id (ds ! k)" if "k < length ds" for k ds
    using that by (simp add: gui_upsert_def update_first_id_nth nth_append)
  then show ?thesis using assms by (cases "g_selected g") (simp_all add: selection_ok_def)
qed

lemma event_selection: "selection_ok g \<Longrightarrow> selection_ok (gui_event e g)"
proof (cases e)
  case (SDeviceFound i n)
  assume "selection_ok g"
  then show ?thesis using SDeviceFound gui_upsert_selection by (simp add: Let_def)
next
  case (SDeviceLost i)
  assume "selection_ok g"
  then show ?thesis using SDeviceLost device_lost_selection by simp
next
  case (SDeviceStateChanged i st)
  assume "selection_ok g"
  moreover have "sel_view (gui_event e g) = sel_view g" using SDeviceStateChanged by (simp add: gui_apply_state_def)
  ultimately show ?thesis using selection_ok_cong by blast
qed (simp_all add: selection_ok_view Let_def)

lemma update_selection: "selection_ok g \<Longrightarrow> selection_ok (gui_update env msg g)"
proof -
  assume ok: "selection_ok g"
  have keep: "selection_ok h" if "sel_view h = sel_view g" for h using ok selection_ok_cong that by blast
  show ?thesis
  proof (cases msg)
    case (MEvent e)
    then show ?thesis using event_selection [OF ok] by simp
  next
    case (MDeviceSelected k)
    show ?thesis
    proof (cases "get_at (g_devices g) k")
      case (Some d)
      then have "k < length (g_devices g)" "g_devices g ! k = d" by (auto simp: get_at_def split: if_splits)
      then show ?thesis using MDeviceSelected Some by (simp add: selection_ok_view) (simp add: sel_view_def)
    qed (simp add: MDeviceSelected ok)
  next
    case (MDevicesLoaded cards)
    then show ?thesis by (simp add: selection_ok_view) (simp add: sel_view_def)
  next
    case (MPaired r)
    show ?thesis unfolding MPaired by (rule keep) (simp add: finish_pairing_def take_target_def split: sum.split option.split)
  next
    case (MUnpaired r)
    show ?thesis unfolding MUnpaired by (rule keep) (simp add: finish_pairing_def take_target_def split: sum.split option.split)
  next
    case (MTogglePlugin p b)
    show ?thesis unfolding MTogglePlugin by (rule keep) (simp add: Let_def split: option.split)
  next
    case MSendPressed
    show ?thesis unfolding MSendPressed
      by (rule keep) (simp add: Let_def gui_dispatch_def sel_view_def)
  next
    case MQueueFilePressed
    show ?thesis unfolding MQueueFilePressed by (rule keep) (simp add: Let_def split: option.split)
  next
    case (MToggleSavedPlugin key b)
    show ?thesis unfolding MToggleSavedPlugin by (rule keep) (simp split: option.split)
  qed (rule keep; simp split: sum.split)+
qed

lemma log_bound [simp]: "length (g_logs g) \<le> GUI_LOG_CAP \<Longrightarrow> length (g_logs (gui_log l g)) \<le> GUI_LOG_CAP"
  by (auto simp: gui_log_def GUI_LOG_CAP_def)

lemma gui_log_simps [simp]:
  "g_toggles (gui_log l g) = g_toggles g" "g_transfers (gui_log l g) = g_transfers g" "g_file (gui_log l g) = g_file g"
  by (simp_all add: gui_log_def)

lemma banner_simps [simp]:
  "length (g_logs g) \<le> GUI_LOG_CAP \<Longrightarrow> length (g_logs (set_banner t g)) \<le> GUI_LOG_CAP"
  "g_toggles (set_banner t g) = g_toggles g" "g_transfers (set_banner t g) = g_transfers g" "g_file (set_banner t g) = g_file g"
  by (simp_all add: set_banner_def)

lemma dispatch_simps [simp]:
  "g_logs (snd (gui_dispatch env c g)) = g_logs g" "g_toggles (snd (gui_dispatch env c g)) = g_toggles g"
  "g_transfers (snd (gui_dispatch env c g)) = g_transfers g" "g_file (snd (gui_dispatch env c g)) = g_file g"
  "length (g_logs g) \<le> GUI_LOG_CAP \<Longrightarrow> length (g_logs (dispatch_or_banner env c g)) \<le> GUI_LOG_CAP"
  "g_toggles (dispatch_or_banner env c g) = g_toggles g" "g_transfers (dispatch_or_banner env c g) = g_transfers g"
  "g_file (dispatch_or_banner env c g) = g_file g"
  by (simp_all add: dispatch_or_banner_def gui_dispatch_def)

lemma change_device_simps [simp]:
  "g_logs (change_device i f g) = g_logs g" "g_toggles (change_device i f g) = g_toggles g"
  "g_transfers (change_device i f g) = g_transfers g" "g_file (change_device i f g) = g_file g"
  by (simp_all add: change_device_def)

lemma sync_simps [simp]:
  "g_logs (sync_selection g) = g_logs g" "g_toggles (sync_selection g) = g_toggles g"
  "g_transfers (sync_selection g) = g_transfers g" "g_file (sync_selection g) = g_file g"
  by (simp_all add: sync_selection_def)

lemma record_simps [simp]:
  "length (g_logs g) \<le> GUI_LOG_CAP \<Longrightarrow> length (g_logs (record_plugin_toggle env d p b g)) \<le> GUI_LOG_CAP"
  "g_toggles (record_plugin_toggle env d p b g) = tput (toggle_key d p) b (g_toggles g)"
  "g_transfers (record_plugin_toggle env d p b g) = g_transfers g"
  "g_file (record_plugin_toggle env d p b g) = (if ge_save env = None then tput (toggle_key d p) b (g_toggles g) else g_file g)"
  by (simp_all add: record_plugin_toggle_def Let_def split: option.split)

lemma target_simps [simp]:
  "g_logs (snd (take_target b g)) = g_logs g" "g_toggles (snd (take_target b g)) = g_toggles g"
  "g_transfers (snd (take_target b g)) = g_transfers g" "g_file (snd (take_target b g)) = g_file g"
  by (simp_all add: take_target_def)

lemma finish_simps [simp]:
  "length (g_logs g) \<le> GUI_LOG_CAP \<Longrightarrow> length (g_logs (finish_pairing r b g)) \<le> GUI_LOG_CAP"
  "g_toggles (finish_pairing r b g) = g_toggles g" "g_transfers (finish_pairing r b g) = g_transfers g"
  "g_file (finish_pairing r b g) = g_file g"
  by (simp_all add: finish_pairing_def split_beta Let_def split: sum.split option.split)

lemma lost_simps [simp]:
  "length (g_logs g) \<le> GUI_LOG_CAP \<Longrightarrow> length (g_logs (device_lost i g)) \<le> GUI_LOG_CAP"
  "g_toggles (device_lost i g) = g_toggles g" "g_transfers (device_lost i g) = g_transfers g" "g_file (device_lost i g) = g_file g"
  by (simp_all add: device_lost_def Let_def split: option.split)

lemma event_simps [simp]:
  "length (g_logs g) \<le> GUI_LOG_CAP \<Longrightarrow> length (g_logs (gui_event e g)) \<le> GUI_LOG_CAP"
  "g_toggles (gui_event e g) = g_toggles g" "g_file (gui_event e g) = g_file g"
  by (cases e; simp add: Let_def)+

lemma update_logs: "length (g_logs g) \<le> GUI_LOG_CAP \<Longrightarrow> length (g_logs (gui_update env msg g)) \<le> GUI_LOG_CAP"
  by (cases msg) (simp_all add: Let_def gui_dispatch_def split: sum.split option.split)

lemma row_ids [simp]: "te_id (row_progress dn tot r) = te_id r" "te_id (row_finished r) = te_id r"
  by (simp_all add: row_progress_def row_finished_def)

lemma event_transfers: "distinct (map te_id (g_transfers g)) \<Longrightarrow> distinct (map te_id (g_transfers (gui_event e g)))"
  by (cases e) (auto simp: Let_def row_upsert_def list_ex_iff update_first_ids distinct_map_filter)

lemma update_transfers:
  "distinct (map te_id (g_transfers g)) \<Longrightarrow> distinct (map te_id (g_transfers (gui_update env msg g)))"
  by (cases msg) (simp_all add: Let_def gui_dispatch_def event_transfers split: sum.split option.split)

text \<open>The toggle a message makes, and what messages do to the remembered toggles and the settings file\<close>

fun toggled_by :: "gui \<Rightarrow> gui_message \<Rightarrow> (string \<times> bool) option" where
  "toggled_by g (MTogglePlugin p b) = map_option (\<lambda>d. (toggle_key d p, b)) (gui_selected_device g)"
| "toggled_by g (MToggleSavedPlugin key b) = map_option (\<lambda>_. (key, b)) (split_toggle_key key)"
| "toggled_by g _ = None"

lemma toggle_key_split: "split_toggle_key key = Some (d, p) \<Longrightarrow> toggle_key d p = key"
proof -
  assume h: "split_toggle_key key = Some (d, p)"
  then have "CHR '':'' \<in> set key" by (auto simp: split_toggle_key_def split_once_def split: if_splits)
  then obtain a b where k: "key = a @ CHR '':'' # b" "CHR '':'' \<notin> set a" by (meson split_list_first)
  have "takeWhile (\<lambda>c. c \<noteq> CHR '':'') key = a" "dropWhile (\<lambda>c. c \<noteq> CHR '':'') key = CHR '':'' # b"
    using k by (auto simp: takeWhile_append dropWhile_append)
  with h k show ?thesis by (simp add: split_toggle_key_def split_once_def toggle_key_def)
qed

lemma split_toggle_key: "CHR '':'' \<notin> set d \<Longrightarrow> split_toggle_key (toggle_key d p) = Some (d, p)"
  by (auto simp: split_toggle_key_def split_once_def toggle_key_def takeWhile_append dropWhile_append)

lemma update_toggles:
  "g_toggles (gui_update env msg g) =
     (case toggled_by g msg of Some (k, b) \<Rightarrow> tput k b (g_toggles g) | None \<Rightarrow> g_toggles g)"
  by (cases msg) (auto simp: Let_def gui_dispatch_def gui_selected_device_def toggle_key_split split: sum.split option.split)

lemma update_file:
  "g_file (gui_update env msg g) =
     (if ge_save env = None \<and> toggled_by g msg \<noteq> None then g_toggles (gui_update env msg g) else g_file g)"
  by (cases msg) (auto simp: Let_def gui_dispatch_def gui_selected_device_def split: sum.split option.split)

lemma gui_update_ok: "gui_ok g \<Longrightarrow> gui_ok (gui_update env msg g)"
  unfolding gui_ok_def using update_selection update_logs update_transfers
  by (auto simp: update_toggles split: option.split)

type_synonym gui_input = "gui_env \<times> gui_message"

definition gui_step :: "gui_input \<Rightarrow> gui \<Rightarrow> gui" where
  "gui_step i g = gui_update (fst i) (snd i) g"

interpretation gs: guarded_system gui_step "\<lambda>_ _. True" gui_ok
  by unfold_locales (simp add: gui_step_def gui_update_ok)

lemma gui_new_ok: "distinct (keys tg) \<Longrightarrow> gui_ok (gui_new tg)"
  by (simp add: gui_ok_def gui_new_def selection_ok_def GUI_LOG_CAP_def)

text \<open>Whatever the daemon sends and the user does, the state of the graphical client is well formed: the selected row
  is the row of the selected device, so that what a button acts on (sending a file, toggling a plugin) is the
  device shown as selected; the log stays within its capacity, transfers and remembered toggles have unique
  keys.
\<close>

lemma gui_state_well_formed:
  fixes ins :: "gui_input list"
  assumes "distinct (keys toggles)"
  defines "g \<equiv> fold gui_step ins (gui_new toggles)"
  shows "gui_ok g \<and> gui_selected_device g = g_selected_id g"
proof -
  have "gui_ok g" unfolding g_def using gs.run_inv [OF gui_new_ok [OF assms(1)]] by simp
  moreover from this have "gui_selected_device g = g_selected_id g"
    by (cases "g_selected g") (auto simp: gui_ok_def selection_ok_def gui_selected_device_def get_at_def)
  ultimately show ?thesis by blast
qed

lemma toggles_file_roundtrip: "load_plugin_toggles (Some (toggles_json t)) = t"
proof -
  have "List.map_filter (\<lambda>(k, v). map_option (\<lambda>b. (k, b)) (as_bool v)) (map (\<lambda>(k, b). (k, JBool b)) t) = t"
    by (induction t) (auto simp: List.map_filter_simps as_bool_def)
  then show ?thesis by (simp add: load_plugin_toggles_def toggles_json_def as_object_def)
qed

lemma applied_toggle:
  assumes "tget (toggle_key d p) toggles = Some b" "r \<in> set (apply_persisted_toggles d toggles rows)" "pr_name r = p"
  shows "pr_enabled r = b"
  using assms by (auto simp: apply_persisted_toggles_def split: option.splits)

text \<open>Inputs that do not toggle a key\<close>

definition leaves_key :: "string \<Rightarrow> gui_input \<Rightarrow> gui \<Rightarrow> bool" where
  "leaves_key key i g = (case toggled_by g (snd i) of Some (k, _) \<Rightarrow> k \<noteq> key | None \<Rightarrow> True)"

lemma leaves_key_run:
  "guarded gui_step (leaves_key key) ins g \<Longrightarrow> tget key (g_toggles (fold gui_step ins g)) = tget key (g_toggles g)"
  by (induction ins arbitrary: g) (auto simp: gui_step_def update_toggles leaves_key_def split: option.splits)

lemma saved_step: "ge_save env = None \<Longrightarrow> g_file g = g_toggles g \<Longrightarrow> g_file (gui_update env msg g) = g_toggles (gui_update env msg g)"
  by (cases "toggled_by g msg") (simp_all add: update_file update_toggles)

lemma saved_run:
  "list_all (\<lambda>i. ge_save (fst i) = None) ins \<Longrightarrow> g_file g = g_toggles g \<Longrightarrow>
     g_file (fold gui_step ins g) = g_toggles (fold gui_step ins g)"
  by (induction ins arbitrary: g) (simp_all add: gui_step_def saved_step)

text \<open>A choice the user made for a plugin of a device stays: after the toggle, and until the same key is toggled again,
  each list of plugins that arrives while the device is selected shows the plugin as chosen, whatever the
  list says; and if the settings could be written, a client started from the file shows it too.
\<close>

lemma manual_choices_survive:
  assumes "toggled_by g msg = Some (toggle_key d p, b)"
    and "guarded gui_step (leaves_key (toggle_key d p)) ins (gui_update env msg g)"
  defines "g' \<equiv> fold gui_step ins (gui_update env msg g)"
  shows "(gui_selected_device g' = Some d \<longrightarrow>
      list_all (\<lambda>r. pr_name r = p \<longrightarrow> pr_enabled r = b) (g_plugins (gui_update env' (MPluginsLoaded rows) g'))) \<and>
    (g_file g = g_toggles g \<and> ge_save env = None \<and> list_all (\<lambda>i. ge_save (fst i) = None) ins \<longrightarrow>
      tget (toggle_key d p) (g_toggles (gui_new (load_plugin_toggles (Some (toggles_json (g_file g')))))) = Some b)"
proof -
  have "tget (toggle_key d p) (g_toggles (gui_update env msg g)) = Some b" using assms(1) by (simp add: update_toggles)
  then have t: "tget (toggle_key d p) (g_toggles g') = Some b" using leaves_key_run [OF assms(2)] by (simp add: g'_def)
  then have rows: "gui_selected_device g' = Some d \<longrightarrow>
      list_all (\<lambda>r. pr_name r = p \<longrightarrow> pr_enabled r = b) (g_plugins (gui_update env' (MPluginsLoaded rows) g'))"
    using applied_toggle [OF t] by (simp add: gui_log_def list_all_iff)
  have "g_file g' = g_toggles g'"
    if "g_file g = g_toggles g \<and> ge_save env = None \<and> list_all (\<lambda>i. ge_save (fst i) = None) ins"
    using that saved_run [of ins "gui_update env msg g"] assms(1) by (simp add: g'_def update_file)
  then show ?thesis using rows t by (simp add: toggles_file_roundtrip gui_new_def)
qed

definition demo_ge :: gui_env where
  "demo_ge = \<lparr>ge_driver = True, ge_save = None\<rparr>"

definition demo_gui :: gui where
  "demo_gui = fold gui_step [(demo_ge, MBridgeReady), (demo_ge, MEvent (SDeviceFound ''a'' ''A'')),
     (demo_ge, MEvent (SDeviceFound ''b'' ''B'')), (demo_ge, MDeviceSelected 1)] (gui_new [])"

section \<open>Where the front end misleads\<close>

text \<open>
  The driver discards what a positive answer to a pairing request says: a peer that declined is shown as
  paired.
\<close>

lemma declined_pairing_shown_as_paired:
  assumes "rpc (DevicePair d) w = (Ok (ROk (JObj [(''accepted'', JBool False)])), w')"
    and "g_pair_target g = Some d" "List.find (\<lambda>c. en_id c = d) (g_devices g) \<noteq> None"
  shows "fst (bridge_perform rpc (BPair d) w) = [MPaired (Ok ())]"
    and "\<exists>c \<in> set (g_devices (gui_update env (MPaired (Ok ())) g)). en_id c = d \<and> en_paired c"
proof -
  show "fst (bridge_perform rpc (BPair d) w) = [MPaired (Ok ())]"
    using assms(1) by (simp add: ask_json_def done_msg_def unwrap_response_def)
  have "\<exists>c \<in> set (update_first (\<lambda>c. en_id c = d) (\<lambda>c. c\<lparr>en_paired := True, en_state := ''paired''\<rparr>) cs). en_id c = d \<and> en_paired c"
    if "List.find (\<lambda>c. en_id c = d) cs \<noteq> None" for cs using that by (induction cs) auto
  then show "\<exists>c \<in> set (g_devices (gui_update env (MPaired (Ok ())) g)). en_id c = d \<and> en_paired c"
    using assms(2,3) by (simp add: finish_pairing_def take_target_def gui_log_def change_device_def)
qed

text \<open>
  One pairing is remembered, not one for each request: with two under way, the answer to the first is taken
  for the second.
\<close>

lemma pair_answer_credited_to_other:
  "map (\<lambda>c. (en_id c, en_paired c, en_state c)) (g_devices (fold gui_step [(demo_ge, MPairPressed ''a''), (demo_ge, MPairPressed ''b''),
     (demo_ge, MPaired (Ok ()))] demo_gui)) = [(''a'', False, ''pairing''), (''b'', True, ''paired'')]"
  by code_simp

text \<open>Once the driver has started, a command is accepted for later whether or not there is a connection.\<close>

lemma dispatch_ignores_connection:
  "g_bridge g \<Longrightarrow> ge_driver env \<Longrightarrow> gui_dispatch env c g = (True, g\<lparr>g_sent := g_sent g @ [c]\<rparr>)"
  by (simp add: gui_dispatch_def)

text \<open>A snapshot is taken over whole: the list of notifications can be longer than its capacity.\<close>

lemma notifications_exceed_cap:
  "length rows > NOTIF_CAP \<Longrightarrow> length (g_notifications (gui_update env (MNotificationsLoaded rows) g)) > NOTIF_CAP \<and>
     length (g_notifications (gui_event (SNotificationReceived i a t b) (gui_update env (MNotificationsLoaded rows) g))) = length rows"
  by (simp add: Let_def)

text \<open>A failed change leaves the checkbox as the user set it, also over the daemon's own list.\<close>

lemma failed_toggle_stays:
  "g_toggles (gui_update env (MPluginSet (Err e)) g) = g_toggles g" "g_plugins (gui_update env (MPluginSet (Err e)) g) = g_plugins g"
  by (simp_all add: set_banner_def gui_log_def)

end
