(* ===== verification/Hf_Window.thy ===== *)
theory Hf_Window
  imports Hf_Gui
begin

text \<open>
  The window of the graphical client (\<^verbatim>\<open>gui/src/view.rs\<close>): the tree of widgets built from the state, with the messages
  they send.  Sizes, spacing and alignment are left out; the percentage of a progress bar is computed from the
  two numbers kept with it.
\<close>

section \<open>Widgets\<close>

datatype elem =
    EText string
  | EButton elem "gui_message option"
  | ECheckbox string bool "bool \<Rightarrow> gui_message"
  | EInput string string "string \<Rightarrow> gui_message" gui_message
  | EProgress u64 u64
  | EColumn "elem list"
  | ERow "elem list"
  | EScroll elem
  | ERule
  | ESpace

definition GUI_TABS :: "gui_tab list" where
  "GUI_TABS = [GDevices, GTransfers, GNotifications, GLogs]"

section \<open>The window\<close>

definition banner_bar :: "gui \<Rightarrow> elem" where
  "banner_bar g = (case g_banner g of
       Some t \<Rightarrow> ERow [EText (''! '' @ t), EButton (EText ''dismiss'') (Some MBannerClosed)]
     | None \<Rightarrow> EColumn [])"

definition clipboard_panel :: "gui \<Rightarrow> elem" where
  "clipboard_panel g = EColumn ([EText ''clipboard'',
     EInput ''text to send'' (g_clipboard_draft g) MClipboardChanged MSendPressed,
     EButton (EText ''send'') (if can_send g then Some MSendPressed else None)] @
     (case g_clipboard_status g of Some st \<Rightarrow> [EText st] | None \<Rightarrow> []))"

definition settings_group :: "gui \<Rightarrow> device_entry \<Rightarrow> elem" where
  "settings_group g d = (let entries = settings_entries g (en_id d) in
     EColumn ([EText (en_name d @ '' ('' @ en_id d @ '')'')] @ (if entries = [] then [EText ''no plugin state yet''] else []) @
       map (\<lambda>(p, b). ECheckbox p b (MToggleSavedPlugin (toggle_key (en_id d) p))) entries))"

definition settings_panel :: "gui \<Rightarrow> elem" where
  "settings_panel g = (if g_devices g = [] then EColumn [EText ''plugin toggles'', EText ''pair a device to configure plugins'']
     else EScroll (EColumn (EText ''plugin toggles'' # map (settings_group g) (g_devices g))))"

definition tab_button :: "gui \<Rightarrow> gui_tab \<Rightarrow> elem" where
  "tab_button g t = EButton (EText (gui_tab_label t)) (if t = g_tab g then None else Some (MTabSelected t))"

definition sidebar :: "gui \<Rightarrow> elem" where
  "sidebar g = EColumn ([EColumn (map (tab_button g) GUI_TABS), ERule, EText (''ipc: '' @ conn_label (g_conn g)), EText (daemon_label g), ERule,
     clipboard_panel g, EButton (EText ''refresh devices'') (if can_refresh g then Some MRefreshPressed else None), ERule,
     EButton (EText (if g_settings_open g then ''close settings'' else ''settings'')) (Some MSettingsPressed)] @
     (if g_settings_open g then [settings_panel g] else []))"

definition transfer_bar :: "transfer_entry \<Rightarrow> elem" where
  "transfer_bar t = ERow [EText (if te_name t = [] then te_id t else te_name t), EProgress (te_done t) (te_total t),
     EText (show_nat (unat (te_done t)) @ ''/'' @ show_nat (unat (te_total t)) @ '' B'')]"

definition transfers_section :: "gui \<Rightarrow> elem" where
  "transfers_section g = EColumn ([EText ''transfers''] @ (if g_transfers g = [] then [EText ''none''] else []) @
     map transfer_bar (g_transfers g))"

definition device_row :: "gui \<Rightarrow> nat \<Rightarrow> device_entry \<Rightarrow> elem" where
  "device_row g k d = (let
       label = (if en_state d = ''pairing'' \<or> en_state d = ''unpairing'' then en_state d else if en_paired d then ''unpair'' else ''pair'');
       marker = (if g_selected g = Some k then ''> '' else []) in
     EButton (ERow [EColumn [EText (marker @ en_name d), EText (en_kind d @ ''/'' @ en_state d)], ESpace,
       EButton (EText label) (device_button d)]) (Some (MDeviceSelected k)))"

definition detail_panel :: "gui \<Rightarrow> device_entry \<Rightarrow> elem" where
  "detail_panel g d = EColumn [EText (''selected: '' @ en_name d @ '' ('' @ en_id d @ '')''), ERule, EText ''plugins'',
     (if g_plugins g = [] then EText (if g_conn g = IpcConnected then ''no plugins reported'' else ''connect to list plugins'')
      else EColumn (map (\<lambda>r. ECheckbox (pr_title r) (pr_enabled r) (MTogglePlugin (pr_name r))) (g_plugins g))),
     ERule, ERow [EInput ''/absolute/path/file.bin'' (g_file_path_draft g) MPathChanged MQueueFilePressed,
       EButton (EText ''send file'') (Some MQueueFilePressed)]]"

definition devices_pane :: "gui \<Rightarrow> elem" where
  "devices_pane g = (if g_devices g = []
     then EColumn [EText (if g_conn g = IpcConnected then ''discovering devices...'' else ''waiting for the daemon...''), ERule, transfers_section g]
     else let cards = EScroll (EColumn (map (\<lambda>(k, d). device_row g k d) (enumerate 0 (g_devices g)) @ [ERule, transfers_section g])) in
       case selected_card g of
         Some d \<Rightarrow> EColumn [cards, ERule, detail_panel g d]
       | None \<Rightarrow> cards)"

definition transfers_pane :: "gui \<Rightarrow> elem" where
  "transfers_pane g = (if g_transfers g = [] then EText ''no transfers yet'' else EScroll (EColumn (map transfer_bar (g_transfers g))))"

definition notification_row :: "notif_row \<Rightarrow> elem" where
  "notification_row r = ERow [EColumn [EText (nr_app r @ '': '' @ nr_title r), EText (nr_body r)],
     EButton (EText ''dismiss'') (Some (MDismissPressed (nr_id r)))]"

definition notifications_pane :: "gui \<Rightarrow> elem" where
  "notifications_pane g = (if g_notifications g = [] then EText ''no notifications''
     else EScroll (EColumn (map notification_row (g_notifications g))))"

definition logs_pane :: "gui \<Rightarrow> elem" where
  "logs_pane g = (if g_logs g = [] then EText ''no log entries'' else EScroll (EColumn (map EText (g_logs g))))"

definition pane :: "gui \<Rightarrow> elem" where
  "pane g = (case g_tab g of
       GDevices \<Rightarrow> devices_pane g
     | GTransfers \<Rightarrow> transfers_pane g
     | GNotifications \<Rightarrow> notifications_pane g
     | GLogs \<Rightarrow> logs_pane g)"

definition work_area :: "gui \<Rightarrow> elem" where
  "work_area g = ERow [sidebar g, ERule, pane g]"

definition footer :: "string \<Rightarrow> gui \<Rightarrow> elem" where
  "footer version g = ERow [EText (''ipc: '' @ conn_label (g_conn g)), ESpace, EText (daemon_label g), ESpace,
     EText (''handfast-gui v'' @ version)]"

definition window_root :: "string \<Rightarrow> gui \<Rightarrow> elem" where
  "window_root version g = EColumn [banner_bar g, ERule, work_area g, ERule, footer version g]"

section \<open>What the window offers\<close>

text \<open>The messages a click, a toggle or the enter key can send\<close>

fun offers :: "elem \<Rightarrow> gui_message list" where
  "offers (EText t) = []"
| "offers (EButton e m) = offers e @ (case m of Some msg \<Rightarrow> [msg] | None \<Rightarrow> [])"
| "offers (ECheckbox l b f) = [f (\<not> b)]"
| "offers (EInput hint v f submit) = [submit]"
| "offers (EProgress dn tot) = []"
| "offers (EColumn es) = concat (map offers es)"
| "offers (ERow es) = concat (map offers es)"
| "offers (EScroll e) = offers e"
| "offers ERule = []"
| "offers ESpace = []"

definition idle_card :: "device_entry \<Rightarrow> bool" where
  "idle_card d = (en_state d \<noteq> ''pairing'' \<and> en_state d \<noteq> ''unpairing'')"

fun on_display :: "gui \<Rightarrow> gui_message \<Rightarrow> bool" where
  "on_display g (MTabSelected t) = (t \<noteq> g_tab g)"
| "on_display g MBannerClosed = (g_banner g \<noteq> None)"
| "on_display g MRefreshPressed = (g_conn g = IpcConnected)"
| "on_display g MSendPressed = True"
| "on_display g MSettingsPressed = True"
| "on_display g (MDeviceSelected k) = (g_tab g = GDevices \<and> k < length (g_devices g))"
| "on_display g (MPairPressed i) = (g_tab g = GDevices \<and> (\<exists>d \<in> set (g_devices g). en_id d = i \<and> \<not> en_paired d \<and> idle_card d))"
| "on_display g (MUnpairPressed i) = (g_tab g = GDevices \<and> (\<exists>d \<in> set (g_devices g). en_id d = i \<and> en_paired d \<and> idle_card d))"
| "on_display g (MTogglePlugin p b) = (g_tab g = GDevices \<and> g_selected_id g \<noteq> None \<and>
     (\<exists>r \<in> set (g_plugins g). pr_name r = p \<and> pr_enabled r = (\<not> b)))"
| "on_display g MQueueFilePressed = (g_tab g = GDevices \<and> g_selected_id g \<noteq> None)"
| "on_display g (MDismissPressed i) = (g_tab g = GNotifications \<and> (\<exists>r \<in> set (g_notifications g). nr_id r = i))"
| "on_display g (MToggleSavedPlugin key b) = (g_settings_open g \<and>
     (\<exists>d \<in> set (g_devices g). \<exists>p. key = toggle_key (en_id d) p \<and> (p, \<not> b) \<in> set (settings_entries g (en_id d))))"
| "on_display g _ = False"

lemma quiet_parts [simp]:
  "offers (transfers_section g) = []" "offers (transfers_pane g) = []" "offers (logs_pane g) = []" "offers (footer version g) = []"
  by (auto simp: transfers_section_def transfers_pane_def logs_pane_def footer_def transfer_bar_def)

lemma panel_offers:
  "m \<in> set (offers (banner_bar g)) \<Longrightarrow> on_display g m"
  "m \<in> set (offers (clipboard_panel g)) \<Longrightarrow> on_display g m"
  "m \<in> set (offers (tab_button g t)) \<Longrightarrow> on_display g m"
  by (auto simp: banner_bar_def clipboard_panel_def tab_button_def split: option.splits if_splits)

lemma settings_offers:
  assumes "m \<in> set (offers (settings_panel g))" "g_settings_open g"
  shows "on_display g m"
proof -
  obtain d where d: "d \<in> set (g_devices g)" "m \<in> set (offers (settings_group g d))"
    using assms(1) by (auto simp: settings_panel_def split: if_splits)
  then obtain p b where "(p, b) \<in> set (settings_entries g (en_id d))" "m = MToggleSavedPlugin (toggle_key (en_id d) p) (\<not> b)"
    by (auto simp: settings_group_def Let_def split: if_splits)
  then show ?thesis using d(1) assms(2) by auto
qed

lemma sidebar_offers: "m \<in> set (offers (sidebar g)) \<Longrightarrow> on_display g m"
  using panel_offers settings_offers by (auto simp: sidebar_def can_refresh_def split: if_splits)

lemma device_row_offers:
  assumes "m \<in> set (offers (device_row g k d))" "k < length (g_devices g)" "d = g_devices g ! k" "g_tab g = GDevices"
  shows "on_display g m"
proof -
  have "d \<in> set (g_devices g)" using assms(2,3) by simp
  then show ?thesis
    using assms(1,2,4) by (auto simp: device_row_def device_button_def idle_card_def Let_def split: if_splits)
qed

lemma detail_offers:
  assumes "m \<in> set (offers (detail_panel g d))" "g_tab g = GDevices" "g_selected_id g \<noteq> None"
  shows "on_display g m"
  using assms by (auto simp: detail_panel_def split: if_splits)

lemma devices_pane_offers:
  assumes "m \<in> set (offers (devices_pane g))" "g_tab g = GDevices" "selection_ok g"
  shows "on_display g m"
proof (cases "g_devices g = []")
  case False
  have rows: "on_display g m" if "(k, d) \<in> set (enumerate 0 (g_devices g))" "m \<in> set (offers (device_row g k d))" for k d
    using device_row_offers [OF that(2)] that(1) assms(2) by (auto simp: in_set_enumerate_eq)
  have "g_selected_id g \<noteq> None" if "selected_card g = Some d" for d
    using that assms(3) by (auto simp: selected_card_def selection_ok_def split: option.splits)
  then show ?thesis using False assms(1,2) rows detail_offers
    by (auto simp: devices_pane_def Let_def split: option.splits)
qed (use assms in \<open>auto simp: devices_pane_def\<close>)

lemma notifications_offers:
  assumes "m \<in> set (offers (notifications_pane g))" "g_tab g = GNotifications"
  shows "on_display g m"
  using assms by (auto simp: notifications_pane_def notification_row_def split: if_splits)

lemma window_offers:
  assumes "m \<in> set (offers (window_root version g))" "selection_ok g"
  shows "on_display g m"
proof -
  have "m \<in> set (offers (banner_bar g)) \<or> m \<in> set (offers (sidebar g)) \<or> m \<in> set (offers (pane g))"
    using assms(1) by (auto simp: window_root_def work_area_def)
  then show ?thesis
    using panel_offers(1) sidebar_offers devices_pane_offers notifications_offers assms(2)
    by (auto simp: pane_def split: gui_tab.splits)
qed

text \<open>What a message makes the client ask of the daemon\<close>

definition new_commands :: "gui_env \<Rightarrow> gui_message \<Rightarrow> gui \<Rightarrow> bridge_in list" where
  "new_commands env msg g = drop (length (g_sent g)) (g_sent (gui_update env msg g))"

fun about_shown :: "gui \<Rightarrow> bridge_in \<Rightarrow> bool" where
  "about_shown g BRefresh = True"
| "about_shown g (BClipboard t) = (t = trim_str (g_clipboard_draft g) \<and> t \<noteq> [])"
| "about_shown g (BListPlugins d) = (d \<in> en_id ` set (g_devices g))"
| "about_shown g (BPair d) = (\<exists>e \<in> set (g_devices g). en_id e = d \<and> \<not> en_paired e)"
| "about_shown g (BUnpair d) = (\<exists>e \<in> set (g_devices g). en_id e = d \<and> en_paired e)"
| "about_shown g (BSetPlugin d p b) = (d \<in> en_id ` set (g_devices g))"
| "about_shown g (BSendFile d p) = (g_selected_id g = Some d \<and> d \<in> en_id ` set (g_devices g))"
| "about_shown g (BDismiss i) = (i \<in> nr_id ` set (g_notifications g))"

lemma sent_simps [simp]:
  "g_sent (gui_log l g) = g_sent g" "g_sent (set_banner t g) = g_sent g" "g_sent (change_device i f g) = g_sent g"
  "g_sent (record_plugin_toggle env d p b g) = g_sent g"
  by (simp_all add: gui_log_def set_banner_def change_device_def record_plugin_toggle_def Let_def split: option.split)

lemma dispatched [simp]:
  "g_sent (snd (gui_dispatch env c g)) = (if g_bridge g \<and> ge_driver env then g_sent g @ [c] else g_sent g)"
  "g_sent (dispatch_or_banner env c g) = (if g_bridge g \<and> ge_driver env then g_sent g @ [c] else g_sent g)"
  by (simp_all add: gui_dispatch_def dispatch_or_banner_def)

lemma selected_shown:
  assumes "selection_ok g" "gui_selected_device g = Some d"
  shows "g_selected_id g = Some d \<and> d \<in> en_id ` set (g_devices g)"
  using assms by (auto simp: selection_ok_def gui_selected_device_def get_at_def split: option.splits if_splits)

lemma displayed_commands:
  assumes "on_display g msg" "selection_ok g" "list_all (\<lambda>d. CHR '':'' \<notin> set (en_id d)) (g_devices g)"
  shows "list_all (about_shown g) (new_commands env msg g) \<and> length (new_commands env msg g) \<le> 1"
proof (cases msg)
  case (MTogglePlugin p b)
  let ?g1 = "g\<lparr>g_plugins := update_first (\<lambda>r. pr_name r = p) (\<lambda>r. r\<lparr>pr_enabled := b\<rparr>) (g_plugins g)\<rparr>"
  have "gui_selected_device ?g1 = gui_selected_device g" by (simp add: gui_selected_device_def)
  then show ?thesis using MTogglePlugin selected_shown [OF assms(2)]
    by (cases "gui_selected_device g") (simp_all add: new_commands_def Let_def)
next
  case (MToggleSavedPlugin key b)
  then obtain d p where d: "d \<in> set (g_devices g)" "key = toggle_key (en_id d) p" using assms(1) by auto
  then have "split_toggle_key key = Some (en_id d, p)" using assms(3) split_toggle_key by (auto simp: list_all_iff)
  then show ?thesis using MToggleSavedPlugin d(1) by (simp add: new_commands_def)
next
  case MQueueFilePressed
  then show ?thesis using selected_shown [OF assms(2)]
    by (cases "gui_selected_device g") (simp_all add: new_commands_def Let_def)
next
  case MSendPressed
  then show ?thesis by (simp add: new_commands_def gui_dispatch_def Let_def)
qed (use assms(1) in \<open>auto simp: new_commands_def get_at_def\<close>)


definition demo_window :: "gui_input list" where
  "demo_window = map (Pair \<lparr>ge_driver = True, ge_save = None\<rparr>) [MBridgeReady,
     MDevicesLoaded [\<lparr>en_id = ''d'', en_name = ''phone'', en_kind = ''phone'', en_paired = True, en_state = ''paired''\<rparr>]]"


text \<open>With a colon in its identifier, a device's remembered setting is changed on another device.\<close>

lemma toggle_reaches_another_device:
  "gui_update \<lparr>ge_driver = True, ge_save = None\<rparr> (MToggleSavedPlugin (toggle_key ''d:x'' ''ping'') b) g =
   dispatch_or_banner \<lparr>ge_driver = True, ge_save = None\<rparr> (BSetPlugin ''d'' ''x:ping'' b)
     (record_plugin_toggle \<lparr>ge_driver = True, ge_save = None\<rparr> ''d'' ''x:ping'' b g)"
  by (simp add: split_toggle_key_def toggle_key_def split_once_def)

end
