(* ===== verification/Hf_View.thy ===== *)
theory Hf_View
  imports Hf_Tui
begin

text \<open>
  What the terminal interface draws (\<^verbatim>\<open>tui/src/view.rs\<close>): every frame as the widgets placed on it, in order,
  with their text and styles.

  Text on the screen is a list of code points.  The layout engine of the terminal library, which divides
  an area by constraints, is a parameter; indexing its result out of range would panic and is \<open>None\<close>.
\<close>

section \<open>Text, styles and widgets\<close>

type_synonym uni = "nat list"

definition chars :: "string \<Rightarrow> uni" where
  "chars s = map of_char s"

definition MIDDLE_DOT :: nat where "MIDDLE_DOT = 0xB7"
definition EM_DASH :: nat where "EM_DASH = 0x2014"
definition ELLIPSIS :: nat where "ELLIPSIS = 0x2026"
definition FULL_BLOCK :: nat where "FULL_BLOCK = 0x2588"
definition LIGHT_SHADE :: nat where "LIGHT_SHADE = 0x2591"

text \<open>A dash with spaces around it, and parts with dots between them\<close>

definition dash :: uni where
  "dash = chars '' '' @ [EM_DASH] @ chars '' ''"

fun dotted :: "string list \<Rightarrow> uni" where
  "dotted [] = []"
| "dotted [s] = chars s"
| "dotted (s # t # ss) = chars s @ chars '' '' @ [MIDDLE_DOT] @ chars '' '' @ dotted (t # ss)"

datatype color = Black | Red | Green | Yellow | Magenta | Cyan | DarkGray

record style =
  st_fg :: "color option"
  st_bg :: "color option"
  st_bold :: bool

definition plain :: style where
  "plain = \<lparr>st_fg = None, st_bg = None, st_bold = False\<rparr>"

definition colored :: "color \<Rightarrow> style" where
  "colored c = plain\<lparr>st_fg := Some c\<rparr>"

definition header_style :: style where
  "header_style = (colored Cyan)\<lparr>st_bold := True\<rparr>"

definition row_selected_style :: style where
  "row_selected_style = plain\<lparr>st_bg := Some DarkGray\<rparr>"

type_synonym span = "style \<times> uni"

record rect =
  r_x :: nat
  r_y :: nat
  r_width :: nat
  r_height :: nat

datatype layout_dir = Vertical | Horizontal

datatype constr = Length nat | Min nat | Percentage nat

type_synonym splitter = "layout_dir \<Rightarrow> constr list \<Rightarrow> rect \<Rightarrow> rect list"

record block =
  bl_title :: uni
  bl_border :: style

text \<open>
  A paragraph has its lines, style and whether it wraps; a table its header, rows and column widths; a list its
  items.  \<open>Clear\<close> blanks its area.
\<close>

datatype widget =
    Paragraph "span list list" style bool "block option"
  | TableWidget "style \<times> span list" "(style \<times> span list) list" "constr list" block
  | ListWidget "(style \<times> span list) list" block
  | Clear

type_synonym drawn = "(widget \<times> rect) list"

definition titled :: "uni \<Rightarrow> block" where
  "titled t = \<lparr>bl_title = t, bl_border = plain\<rparr>"

definition one_line :: "span list \<Rightarrow> widget" where
  "one_line spans = Paragraph [spans] plain False None"

definition render_empty :: "uni \<Rightarrow> rect \<Rightarrow> drawn" where
  "render_empty t area = [(Paragraph [[(plain, t)]] (colored DarkGray) False None, area)]"

text \<open>The rows of a list, the one under the cursor highlighted\<close>

definition with_highlight :: "nat option \<Rightarrow> 'r list \<Rightarrow> (style \<times> 'r) list" where
  "with_highlight cursor rs = map (\<lambda>(i, r). (if Some i = cursor then row_selected_style else plain, r)) (enumerate 0 rs)"

section \<open>Numbers\<close>

definition progress_bar :: "u64 \<Rightarrow> u64 \<Rightarrow> nat \<Rightarrow> uni" where
  "progress_bar dn tot width = (if width = 0 then []
     else let d = min dn tot;
              filled = if tot = 0 then 0 else unat d * width div unat tot;
              filled = min filled width
          in replicate filled FULL_BLOCK @ replicate (width - filled) LIGHT_SHADE)"

definition percent_of :: "u64 \<Rightarrow> u64 \<Rightarrow> nat" where
  "percent_of dn tot = (if tot = 0 then 0 else min (unat (min dn tot) * 100) (2 ^ 64 - 1) div unat tot)"

definition padded :: "nat \<Rightarrow> uni \<Rightarrow> uni" where
  "padded n s = s @ replicate (n - length s) 0x20"

definition padded_left :: "nat \<Rightarrow> uni \<Rightarrow> uni" where
  "padded_left n s = replicate (n - length s) 0x20 @ s"

definition centered_rect :: "splitter \<Rightarrow> nat \<Rightarrow> nat \<Rightarrow> rect \<Rightarrow> rect option" where
  "centered_rect split px py outer =
     (let thirds = (\<lambda>p. [Percentage ((100 - p) div 2), Percentage p, Percentage ((100 - p) div 2)]) in
      Option.bind (get_at (split Vertical (thirds py) outer) 1)
        (\<lambda>middle. get_at (split Horizontal (thirds px) middle) 1))"

section \<open>Header, tabs and footer\<close>

definition draw_header :: "rect \<Rightarrow> tui \<Rightarrow> drawn" where
  "draw_header area u = [(one_line ([(header_style, chars '' hfctl'')] @
     (case t_daemon u of None \<Rightarrow> []
      | Some d \<Rightarrow> [(plain, chars '' '' @ [MIDDLE_DOT] @ chars '' '' @
          dotted [di_app d, ''pid '' @ show_nat (unat (di_pid d)), ''protocol v'' @ show_nat (unat (di_version d))])]) @
     (if t_shutdown u then [((colored Red)\<lparr>st_bold := True\<rparr>, chars '' '' @ [MIDDLE_DOT] @ chars '' DAEMON SHUTTING DOWN'')]
      else [])), area)]"

definition draw_tabs :: "rect \<Rightarrow> tui \<Rightarrow> drawn" where
  "draw_tabs area u = [(one_line (concat (map (\<lambda>t.
     [(if t = t_tab u then \<lparr>st_fg = Some Black, st_bg = Some Cyan, st_bold = True\<rparr> else colored DarkGray,
       chars ('' '' @ tab_label t @ '' '')), (plain, chars '' '')]) ALL_TABS)), area)]"

definition draw_footer :: "rect \<Rightarrow> tui \<Rightarrow> drawn" where
  "draw_footer area u = [(one_line
     ((case t_flash u of None \<Rightarrow> []
       | Some msg \<Rightarrow> [(\<lparr>st_fg = Some Black, st_bg = Some Yellow, st_bold = False\<rparr>, chars ('' '' @ msg @ '' ''))]) @
      [(colored DarkGray, chars '' '' @ dotted [''Tab switch'', ''j/k move'', ''p pair'', ''u unpair'', ''r reply'',
          ''Enter detail'', ''Space toggle'', ''? help'', ''q quit''])] @
      (case t_clipboard u of None \<Rightarrow> []
       | Some clip \<Rightarrow> [(colored DarkGray, chars '' '' @ [MIDDLE_DOT] @
           chars ('' remote clipboard: '' @ show_nat (length clip) @ '' chars''))])), area)]"

section \<open>The tabs\<close>

definition badge_cell :: "bool \<Rightarrow> span" where
  "badge_cell paired = (if paired then (colored Green, chars ''[paired]'') else (colored Yellow, chars ''[found]''))"

definition device_cells_of :: "device_entry \<Rightarrow> span list" where
  "device_cells_of d = [(plain, chars (en_name d)), (plain, chars (en_kind d)), badge_cell (en_paired d),
     (plain, chars (short_hash (en_id d)))]"

definition plugin_line :: "plugin_row \<Rightarrow> span list" where
  "plugin_line p = [(plain, chars (if pr_enabled p then ''[x]'' else ''[ ]'')), (plain, chars '' ''),
     (plain, chars (pr_title p)), (colored DarkGray, dash @ chars (pr_name p))]"

definition draw_plugins :: "rect \<Rightarrow> tui \<Rightarrow> drawn" where
  "draw_plugins area u =
     (let title = (case t_detail_device u of
           Some d \<Rightarrow> chars ('' Plugins of '' @ short_hash d) @ dash @ chars ''Space toggles ''
         | None \<Rightarrow> chars '' Plugins '')
      in if t_plugins u = [] then render_empty (chars ''loading plugins'' @ [ELLIPSIS] @ chars '' (or none reported)'') area
         else [(ListWidget (with_highlight (selected_plugin_index u) (map plugin_line (t_plugins u))) (titled title), area)])"

definition panel_rows :: "tui \<Rightarrow> nat" where
  "panel_rows u = min (length (t_plugins u)) 10 + 2"

definition device_table :: "tui \<Rightarrow> widget" where
  "device_table u = TableWidget (header_style, map (\<lambda>h. (plain, chars h)) [''NAME'', ''TYPE'', ''STATE'', ''ID''])
     (with_highlight (Some (t_device_cursor u)) (map device_cells_of (t_devices u)))
     [Percentage 35, Percentage 15, Percentage 15, Percentage 35]
     (titled (chars ('' Devices ('' @ show_nat (length (t_devices u)) @ '') '')))"

definition draw_devices :: "splitter \<Rightarrow> rect \<Rightarrow> tui \<Rightarrow> drawn option" where
  "draw_devices split area u =
     (if t_devices u = [] then Some (render_empty (chars ''no devices discovered yet'' @ dash @ chars ''waiting for discovery events'') area)
      else if t_detail_open u then
        (let parts = split Vertical [Min 3, Length (panel_rows u)] area in
         Option.bind (get_at parts 0) (\<lambda>table_area. Option.bind (get_at parts 1) (\<lambda>panel.
           Some ((device_table u, table_area) # draw_plugins panel u))))
      else Some [(device_table u, area)])"

definition TRANSFER_NAME_WIDTH :: nat where "TRANSFER_NAME_WIDTH = 22"

definition bar_width :: "rect \<Rightarrow> nat" where
  "bar_width area = max 4 (min 40 (r_width area - (8 + 2 + TRANSFER_NAME_WIDTH + 2 + length '' 100%'' + length ''  0 B / 0 B'')))"

definition transfer_spans :: "nat \<Rightarrow> string \<times> transfer_entry \<Rightarrow> span list" where
  "transfer_spans width = (\<lambda>(i, e).
     [(colored DarkGray, chars (short_hash i)), (plain, chars ''  ''),
      (plain, padded TRANSFER_NAME_WIDTH (ellipsize ELLIPSIS (chars (display_name e)) TRANSFER_NAME_WIDTH)),
      (colored (if is_finished e then Green else Cyan), progress_bar (te_done e) (te_total e) width),
      (plain, chars '' '' @ padded_left 3 (chars (show_nat (percent_of (te_done e) (te_total e)))) @
        chars (''%  '' @ human_bytes (te_done e) @ '' / '' @ human_bytes (te_total e)))])"

definition draw_transfers :: "rect \<Rightarrow> tui \<Rightarrow> drawn" where
  "draw_transfers area u =
     (if t_transfers u = [] then render_empty (chars ''no transfers yet'') area
      else [(ListWidget (with_highlight (Some (t_transfer_cursor u)) (map (transfer_spans (bar_width area)) (transfer_rows u)))
              (titled (chars ('' Transfers ('' @ show_nat (length (t_transfers u)) @ '') ''))), area)])"

definition notification_spans :: "notif_row \<Rightarrow> span list" where
  "notification_spans r = [(colored DarkGray, chars (short_hash (nr_id r))), (plain, chars '' ''), (colored Magenta, chars (nr_app r)),
     (plain, chars '': ''), (plain\<lparr>st_bold := True\<rparr>, chars (nr_title r)), (plain, dash), (plain, chars (nr_body r))]"

definition draw_notifications :: "rect \<Rightarrow> tui \<Rightarrow> drawn" where
  "draw_notifications area u =
     (if t_notifications u = [] then render_empty (chars ''no notifications mirrored yet'') area
      else [(ListWidget (with_highlight (Some (t_notification_cursor u)) (map notification_spans (t_notifications u)))
              (titled (chars ('' Notifications ('' @ show_nat (length (t_notifications u)) @ ''/'' @ show_nat NOTIFICATION_CAP @ '') ''))), area)])"

definition draw_logs :: "rect \<Rightarrow> tui \<Rightarrow> drawn" where
  "draw_logs area u =
     (if t_logs u = [] then render_empty (chars ''no log records received yet'') area
      else let inner = max (r_height area - 2) 1; skip = length (t_logs u) - inner
           in [(Paragraph (map (\<lambda>l. [(plain, chars l)]) (drop skip (t_logs u))) plain False
                 (Some (titled (chars ('' Logs ('' @ show_nat (length (t_logs u)) @ ''/'' @ show_nat LOG_CAP @ '' buffered) '')))), area)])"

section \<open>Help and replies\<close>

definition HELP_ROWS :: "(string \<times> uni) list" where
  "HELP_ROWS = [(''Tab / Shift+Tab'', chars ''switch tabs (Devices/Transfers/Notifications/Logs/Help)''),
     (''j / Down, k / Up'', chars ''move the selection down/up''),
     (''g / Home, G / End'', chars ''jump to the first / last row''),
     (''p'', chars ''pair the selected device''),
     (''u'', chars ''unpair the selected device''),
     (''r'', chars ''reply to the selected notification (opens a modal)''),
     (''Enter'', dotted [''open/close device detail'', ''send the reply draft in the modal'']),
     (''Space'', chars ''toggle the focused plugin in the detail panel''),
     (''printable keys'', chars ''type into the reply modal; Backspace deletes''),
     (''?'', chars ''toggle this help overlay''),
     (''Esc'', chars ''cancel/close: reply modal, help overlay, then detail panel''),
     (''q / Ctrl+C'', chars ''quit hfctl'')]"

definition help_lines :: "span list list" where
  "help_lines = map (\<lambda>(ks, description). [(colored Cyan, padded 22 (chars ks)), (plain, description)]) HELP_ROWS @
     [[], [(colored DarkGray, chars (''Buffers: notifications keep '' @ show_nat NOTIFICATION_CAP @
       '' entries, logs keep '' @ show_nat LOG_CAP @ '' lines (oldest dropped first).''))]]"

definition draw_help_tab :: "rect \<Rightarrow> drawn" where
  "draw_help_tab area = [(Paragraph help_lines plain True (Some (titled (chars '' Help ''))), area)]"

definition draw_help_overlay :: "splitter \<Rightarrow> rect \<Rightarrow> drawn option" where
  "draw_help_overlay split full = map_option (\<lambda>popup. [(Clear, popup),
     (Paragraph help_lines plain True (Some \<lparr>bl_title = chars '' Keybindings (? closes) '', bl_border = colored Cyan\<rparr>), popup)])
     (centered_rect split 72 85 full)"

definition reply_title :: "tui \<Rightarrow> uni" where
  "reply_title u = (case reply_subject u of
       Some r \<Rightarrow> if nr_title r = [] then chars '' Reply'' @ dash @ chars (short_hash (nr_id r) @ '' '')
         else chars '' Reply'' @ dash @ chars (nr_app r @ '': '') @ ellipsize ELLIPSIS (chars (nr_title r)) 32 @ chars '' ''
     | None \<Rightarrow> chars '' Reply '')"

definition reply_box :: "uni \<Rightarrow> string \<Rightarrow> widget" where
  "reply_box title draft = Paragraph
     [[(colored Magenta, chars ''> ''), (plain, chars draft), (colored Magenta, chars ''_'')], [],
      [(colored DarkGray, dotted [''Enter send'', ''Esc cancel''])]]
     plain True (Some \<lparr>bl_title = title, bl_border = colored Magenta\<rparr>)"

definition draw_reply_modal :: "splitter \<Rightarrow> rect \<Rightarrow> tui \<Rightarrow> drawn option" where
  "draw_reply_modal split full u = map_option (\<lambda>popup. [(Clear, popup), (reply_box (reply_title u) (t_reply_draft u), popup)])
     (centered_rect split 60 25 full)"

section \<open>The frame\<close>

definition draw_body :: "splitter \<Rightarrow> rect \<Rightarrow> tui \<Rightarrow> drawn option" where
  "draw_body split area u = (case t_tab u of
       TabDevices \<Rightarrow> draw_devices split area u
     | TabTransfers \<Rightarrow> Some (draw_transfers area u)
     | TabNotifications \<Rightarrow> Some (draw_notifications area u)
     | TabLogs \<Rightarrow> Some (draw_logs area u)
     | TabHelp \<Rightarrow> Some (draw_help_tab area))"

definition draw_frame :: "splitter \<Rightarrow> rect \<Rightarrow> tui \<Rightarrow> drawn option" where
  "draw_frame split full u =
     (let chunks = split Vertical [Length 1, Length 1, Min 1, Length 1] full in
      Option.bind (get_at chunks 0) (\<lambda>c0. Option.bind (get_at chunks 1) (\<lambda>c1.
      Option.bind (get_at chunks 2) (\<lambda>c2. Option.bind (draw_body split c2 u) (\<lambda>middle.
      Option.bind (get_at chunks 3) (\<lambda>c3.
      Option.bind (if t_help u then draw_help_overlay split full else Some []) (\<lambda>help.
      Option.bind (if t_reply_open u then draw_reply_modal split full u else Some []) (\<lambda>reply.
        Some (draw_header c0 u @ draw_tabs c1 u @ middle @ draw_footer c3 u @ help @ reply)))))))))"

section \<open>Progress\<close>

text \<open>A bar is as wide as asked, its filled part is the share that is done, and it is full exactly when all is done.\<close>

lemma progress_bar_shape:
  "length (progress_bar dn tot w) = w"
  "tot \<noteq> 0 \<Longrightarrow> length (filter (\<lambda>c. c = FULL_BLOCK) (progress_bar dn tot w)) = unat (min dn tot) * w div unat tot"
proof -
  show "length (progress_bar dn tot w) = w" by (simp add: progress_bar_def Let_def)
  assume "tot \<noteq> 0"
  then have t: "0 < unat tot" by (simp add: unat_gt_0)
  have "unat (min dn tot) \<le> unat tot" by (simp add: word_le_nat_alt [symmetric])
  then have "unat (min dn tot) * w div unat tot \<le> w"
    using t by (metis div_le_mono mult_le_mono1 nonzero_mult_div_cancel_left not_gr_zero)
  then show "length (filter (\<lambda>c. c = FULL_BLOCK) (progress_bar dn tot w)) = unat (min dn tot) * w div unat tot"
    using \<open>tot \<noteq> 0\<close> by (cases "w = 0") (simp_all add: progress_bar_def Let_def FULL_BLOCK_def LIGHT_SHADE_def min_absorb1)
qed

lemma full_bar_iff_finished:
  assumes "tot \<noteq> 0" "w \<noteq> 0"
  shows "progress_bar dn tot w = replicate w FULL_BLOCK \<longleftrightarrow> dn \<ge> tot"
proof
  assume "dn \<ge> tot"
  then show "progress_bar dn tot w = replicate w FULL_BLOCK"
    using assms by (simp add: progress_bar_def Let_def min_absorb2 unat_gt_0)
next
  have t: "0 < unat tot" using assms(1) by (simp add: unat_gt_0)
  assume "progress_bar dn tot w = replicate w FULL_BLOCK"
  then have "unat (min dn tot) * w div unat tot = w" using progress_bar_shape(2) [OF assms(1), of dn w] by simp
  then have "w * unat tot \<le> unat (min dn tot) * w" by (metis div_times_less_eq_dividend)
  then have "unat tot \<le> unat (min dn tot)" using assms(2) by (simp add: mult.commute)
  then show "dn \<ge> tot" by (simp add: word_le_nat_alt [symmetric] min_def split: if_splits)
qed

lemma percent_of_bounded: "percent_of dn tot \<le> 100"
proof (cases "tot = 0")
  case False
  have t: "0 < unat tot" using False by (simp add: unat_gt_0)
  have "unat (min dn tot) \<le> unat tot" by (simp add: word_le_nat_alt [symmetric])
  then have "min (unat (min dn tot) * 100) (2 ^ 64 - 1) \<le> unat tot * 100" by (simp add: min.coboundedI1)
  then have "min (unat (min dn tot) * 100) (2 ^ 64 - 1) div unat tot \<le> unat tot * 100 div unat tot" by (rule div_le_mono)
  also have "\<dots> = 100" using t by simp
  finally show ?thesis by (simp only: percent_of_def False if_False)
qed (simp add: percent_of_def)

lemma percent_of_exact:
  "unat tot \<le> (2 ^ 64 - 1) div 100 \<Longrightarrow> percent_of dn tot = unat (min dn tot) * 100 div unat tot"
proof -
  assume "unat tot \<le> (2 ^ 64 - 1) div 100"
  moreover have "unat (min dn tot) \<le> unat tot" by (simp add: word_le_nat_alt [symmetric])
  ultimately have "unat (min dn tot) * 100 \<le> 2 ^ 64 - 1" by linarith
  then show ?thesis by (simp add: percent_of_def)
qed

text \<open>The product saturates, so a finished transfer of enough bytes is shown at one percent beside a full bar.\<close>

lemma percent_of_saturates:
  "percent_of (2 ^ 63) (2 ^ 63) = 1" "progress_bar (2 ^ 63) (2 ^ 63) 4 = replicate 4 FULL_BLOCK"
proof -
  have "unat (2 ^ 63 :: u64) = 2 ^ 63" by simp
  then show "percent_of (2 ^ 63) (2 ^ 63) = 1" by (simp add: percent_of_def)
  show "progress_bar (2 ^ 63) (2 ^ 63) 4 = replicate 4 FULL_BLOCK" by (subst full_bar_iff_finished) simp_all
qed

section \<open>What the frame shows\<close>

definition fits :: "splitter \<Rightarrow> bool" where
  "fits split = (\<forall>dir cs r. length (split dir cs r) = length cs)"

lemma get_at_split: "fits split \<Longrightarrow> i < length cs \<Longrightarrow> get_at (split dir cs r) i = Some (split dir cs r ! i)"
  by (simp add: fits_def get_at_def)

lemma centered_rect_total: "fits split \<Longrightarrow> \<exists>r. centered_rect split px py full = Some r"
  by (simp add: centered_rect_def get_at_split)

fun table_rows :: "widget \<times> rect \<Rightarrow> (style \<times> span list) list" where
  "table_rows (TableWidget h rows cs b, r) = rows"
| "table_rows _ = []"

fun list_rows :: "widget \<times> rect \<Rightarrow> (style \<times> span list) list" where
  "list_rows (ListWidget rows b, r) = rows"
| "list_rows _ = []"

definition highlighted :: "(style \<times> span list) list \<Rightarrow> span list list" where
  "highlighted rows = map snd (filter (\<lambda>r. fst r = row_selected_style) rows)"

lemma highlight_from:
  "map snd (filter (\<lambda>r. fst r = row_selected_style)
     (map (\<lambda>(i, r). (if Some i = cur then row_selected_style else plain, r)) (enumerate n rs))) =
   (case cur of Some c \<Rightarrow> if n \<le> c \<and> c < n + length rs then [rs ! (c - n)] else [] | None \<Rightarrow> [])"
proof (induction rs arbitrary: n)
  case (Cons x rs)
  have "plain \<noteq> row_selected_style" by (simp add: plain_def row_selected_style_def)
  then show ?case using Cons [of "Suc n"] by (auto simp: nth_Cons' split: option.splits)
qed (auto split: option.split)

lemma highlighted_with_highlight:
  "highlighted (with_highlight cur rs) = (case cur of Some c \<Rightarrow> if c < length rs then [rs ! c] else [] | None \<Rightarrow> [])"
  using highlight_from [of cur 0 rs] by (simp add: highlighted_def with_highlight_def split: option.splits)

lemma rows_with_highlight: "map snd (with_highlight cur rs) = rs"
  by (simp add: with_highlight_def comp_def case_prod_beta')
definition tables :: "drawn \<Rightarrow> (style \<times> span list) list" where
  "tables ws = concat (map table_rows ws)"

definition items :: "drawn \<Rightarrow> (style \<times> span list) list" where
  "items ws = concat (map list_rows ws)"

lemma rows_simps [simp]:
  "tables [] = []" "tables (w # ws) = table_rows w @ tables ws" "tables (vs @ ws) = tables vs @ tables ws"
  "items [] = []" "items (w # ws) = list_rows w @ items ws" "items (vs @ ws) = items vs @ items ws"
  by (simp_all add: tables_def items_def)

text \<open>The frame is always drawn, and the rows on it are those of the open tab.\<close>

definition device_rows :: "tui \<Rightarrow> (style \<times> span list) list" where
  "device_rows u = (if t_tab u = TabDevices \<and> t_devices u \<noteq> []
     then with_highlight (Some (t_device_cursor u)) (map device_cells_of (t_devices u)) else [])"

definition item_rows :: "nat \<Rightarrow> tui \<Rightarrow> (style \<times> span list) list" where
  "item_rows width u = (case t_tab u of
       TabDevices \<Rightarrow> if t_devices u \<noteq> [] \<and> t_detail_open u
         then with_highlight (selected_plugin_index u) (map plugin_line (t_plugins u)) else []
     | TabTransfers \<Rightarrow> with_highlight (Some (t_transfer_cursor u)) (map (transfer_spans width) (transfer_rows u))
     | TabNotifications \<Rightarrow> with_highlight (Some (t_notification_cursor u)) (map notification_spans (t_notifications u))
     | _ \<Rightarrow> [])"

lemma with_highlight_Nil [simp]: "with_highlight cur [] = []"
  by (simp add: with_highlight_def)

lemma transfer_rows_Nil [simp]: "t_transfers u = [] \<Longrightarrow> transfer_rows u = []"
  by (simp add: transfer_rows_def)

lemma no_rows [simp]:
  "tables (draw_header r u) = []" "items (draw_header r u) = []"
  "tables (draw_tabs r u) = []" "items (draw_tabs r u) = []"
  "tables (draw_footer r u) = []" "items (draw_footer r u) = []"
  "tables (render_empty t r) = []" "items (render_empty t r) = []"
  by (simp_all add: draw_header_def draw_tabs_def draw_footer_def render_empty_def one_line_def)

lemma popup_rows:
  assumes "fits split"
  shows "\<exists>ws. draw_help_overlay split full = Some ws \<and> tables ws = [] \<and> items ws = []"
    and "\<exists>r. draw_reply_modal split full u = Some [(Clear, r), (reply_box (reply_title u) (t_reply_draft u), r)]"
  using centered_rect_total [OF assms, of 72 85 full] centered_rect_total [OF assms, of 60 25 full]
  by (auto simp: draw_help_overlay_def draw_reply_modal_def)

lemma plugins_rows:
  "tables (draw_plugins r u) = []"
  "items (draw_plugins r u) = with_highlight (selected_plugin_index u) (map plugin_line (t_plugins u))"
  by (simp_all add: draw_plugins_def Let_def)

lemma body_rows:
  assumes "fits split"
  shows "\<exists>ws. draw_body split area u = Some ws \<and> tables ws = device_rows u \<and>
    items ws = item_rows (bar_width area) u"
proof (cases "t_tab u")
  case TabDevices
  then show ?thesis using assms
    by (auto simp: draw_body_def draw_devices_def device_rows_def item_rows_def device_table_def get_at_split Let_def plugins_rows)
qed (simp_all add: draw_body_def draw_transfers_def draw_notifications_def draw_logs_def draw_help_tab_def device_rows_def item_rows_def Let_def)

lemma frame_rows:
  assumes "fits split"
  shows "\<exists>ws width. draw_frame split full u = Some ws \<and> tables ws = device_rows u \<and>
    items ws = item_rows width u \<and>
    (t_reply_open u \<longrightarrow> fst (last ws) = reply_box (reply_title u) (t_reply_draft u))"
proof -
  let ?c = "split Vertical [Length 1, Length 1, Min 1, Length 1] full ! 2"
  obtain body where body: "draw_body split ?c u = Some body" "tables body = device_rows u"
      "items body = item_rows (bar_width ?c) u"
    using body_rows [OF assms] by blast
  obtain hp where hp: "(if t_help u then draw_help_overlay split full else Some []) = Some hp"
      "tables hp = []" "items hp = []"
    using popup_rows(1) [OF assms, of full] by (cases "t_help u") auto
  obtain r where r: "draw_reply_modal split full u = Some [(Clear, r), (reply_box (reply_title u) (t_reply_draft u), r)]"
    using popup_rows(2) [OF assms] by blast
  have box: "table_rows (reply_box t d, r) = []" "list_rows (reply_box t d, r) = []" for t d
    by (simp_all add: reply_box_def)
  show ?thesis using body hp r box
    by (cases "t_reply_open u") (simp_all add: draw_frame_def get_at_split [OF assms] Let_def, blast+)
qed

text \<open>What a frame says about the key about to be pressed\<close>

fun screen_justifies :: "action \<Rightarrow> drawn \<Rightarrow> bool" where
  "screen_justifies Quit ws = True"
| "screen_justifies (APair d) ws = (\<exists>e. en_id e = d \<and> highlighted (tables ws) = [device_cells_of e])"
| "screen_justifies (AUnpair d) ws = (\<exists>e. en_id e = d \<and> highlighted (tables ws) = [device_cells_of e])"
| "screen_justifies (LoadPlugins d) ws = (\<exists>e. en_id e = d \<and> highlighted (tables ws) = [device_cells_of e])"
| "screen_justifies (TogglePlugin d p b) ws =
     (\<exists>row. pr_name row = p \<and> pr_enabled row = (\<not> b) \<and> highlighted (items ws) = [plugin_line row])"
| "screen_justifies (ReplyToNotification n txt) ws =
     (\<exists>title draft. fst (last ws) = reply_box title draft \<and> trim_str draft = txt)"

lemma selected_row_highlighted:
  assumes "on_selected d u"
  shows "\<exists>e. en_id e = d \<and> highlighted (device_rows u) = [device_cells_of e]"
  using assms by (intro exI [of _ "t_devices u ! t_device_cursor u"])
    (auto simp: on_selected_def device_rows_def highlighted_with_highlight)

lemma justified_on_screen:
  assumes "action_justified k u act" "fits split" "tui_ok u" "draw_frame split full u = Some ws"
  shows "screen_justifies act ws \<or> t_devices u = [] \<and> (\<exists>d p b. act = TogglePlugin d p b)"
proof -
  obtain width where ws: "tables ws = device_rows u" "items ws = item_rows width u"
      "t_reply_open u \<Longrightarrow> fst (last ws) = reply_box (reply_title u) (t_reply_draft u)"
    using frame_rows [OF assms(2), of full u] assms(4) by auto
  show ?thesis
  proof (cases act)
    case (TogglePlugin d p b)
    let ?row = "t_plugins u ! t_plugin_cursor u"
    have t: "t_tab u = TabDevices" "t_detail_open u" "t_plugin_cursor u < length (t_plugins u)" "pr_name ?row = p" "pr_enabled ?row = (\<not> b)"
      using assms(1,3) TogglePlugin by (auto simp: tui_ok_def panels_ok_def panel_ok_def)
    have "highlighted (items ws) = [plugin_line ?row]" if "t_devices u \<noteq> []"
      using t that by (simp add: ws item_rows_def selected_plugin_index_def get_at_def highlighted_with_highlight)
    then show ?thesis using TogglePlugin t by auto
  next
    case (ReplyToNotification n msg)
    then show ?thesis using assms(1) ws(3) by auto
  qed (use assms(1) selected_row_highlighted ws in \<open>auto\<close>)
qed



text \<open>
  The exception: a refreshed list without devices hides the open panel, and the space key still switches the
  plugin under its cursor.
\<close>

definition hidden_panel :: "app_input list" where
  "hidden_panel = [InReply 0 (Ok (ROk (JArr [JObj [(''device_id'', JStr ''d'')]]))), InOutcome,
     InKey \<lparr>k_code = KEnter, k_press = True, k_control = False\<rparr>,
     InReply 1 (Ok (ROk (JArr [JObj [(''name'', JStr ''ping'')]]))), InOutcome, press (CHR ''u''),
     InReply 1 (Ok (ROk JNull)), InReply 1 (Ok (ROk (JArr []))), InOutcome, InOutcome]"

lemma toggle_behind_the_screen:
  "guarded (app_step []) app_can hidden_panel app_start"
  "fst (handle_key \<lparr>k_code = KChar (CHR '' ''), k_press = True, k_control = False\<rparr> (a_ui (app_run [] hidden_panel app_start))) =
     Some (TogglePlugin ''d'' ''ping'' True)"
  "t_devices (a_ui (app_run [] hidden_panel app_start)) = []"
  by code_simp+

text \<open>The help page can be open under the reply box: opened first, it does not keep the key from opening the box.\<close>

definition help_then_reply :: "app_input list" where
  "help_then_reply = [InEvent (Some (SNotificationReceived ''n'' ''app'' ''title'' ''text'')), InKey \<lparr>k_code = KTab, k_press = True, k_control = False\<rparr>,
     InKey \<lparr>k_code = KTab, k_press = True, k_control = False\<rparr>, press (CHR ''?''), press (CHR ''r'')]"

lemma help_under_reply:
  "guarded (app_step []) app_can help_then_reply app_start"
  "t_help (a_ui (app_run [] help_then_reply app_start))" "t_reply_open (a_ui (app_run [] help_then_reply app_start))"
  by code_simp+

end
