(* ===== verification/Hf_Services.thy ===== *)
theory Hf_Services
  imports Hf_Transfer Hf_Bus Hf_Session Hf_Float
begin

text \<open>
  The services beside the device manager: the listeners of \<^verbatim>\<open>daemon/src/dbus.rs\<close>, which publish battery
  levels and notification signals, and the file server processes of \<^verbatim>\<open>daemon/src/sftp.rs\<close>.

  A listener is a function from what it observes (one entry per poll, property change or signal) to what
  it publishes.  The bus libraries and the file system of the kernel are observations.  Sums of
  capacities wrap at 64 bits, as in a build without overflow checks.
\<close>

section \<open>Battery levels\<close>

type_synonym battery_level = "int \<times> string"

definition battery_message :: "battery_level \<Rightarrow> string" where
  "battery_message lv = ''battery: '' @ show_nat (nat (fst lv)) @ ''% ('' @ snd lv @ '')''"

definition publish_level :: "battery_level \<Rightarrow> bus \<Rightarrow> bus" where
  "publish_level lv = publish (LogRecord ''info'' (battery_message lv))"

text \<open>\<^verbatim>\<open>str::parse::<i64>\<close> and \<^verbatim>\<open>to_lowercase\<close> on the characters up to U+00FF.\<close>

definition parse_i64 :: "string \<Rightarrow> int option" where
  "parse_i64 s = (case s of
       CHR ''-'' # ds \<Rightarrow> if ds \<noteq> [] \<and> list_all is_digit ds \<and> read_nat ds \<le> 2 ^ 63 then Some (- int (read_nat ds)) else None
     | _ \<Rightarrow> map_option int (parse_uint (2 ^ 63) s))"

definition lowercase :: "char \<Rightarrow> char" where
  "lowercase c = (let n = of_char c :: nat in
     if 65 \<le> n \<and> n \<le> 90 \<or> 192 \<le> n \<and> n \<le> 222 \<and> n \<noteq> 215 then char_of (n + 32) else c)"

text \<open>One directory entry: its name, and the two files where they can be read.\<close>

record sysfs_entry =
  se_name :: string
  se_capacity :: "string option"
  se_status :: "string option"

definition BATTERY_NAME_PREFIX :: string where
  "BATTERY_NAME_PREFIX = ''BAT''"

definition sysfs_level :: "sysfs_entry \<Rightarrow> battery_level option" where
  "sysfs_level e =
     (if take (length BATTERY_NAME_PREFIX) (se_name e) \<noteq> BATTERY_NAME_PREFIX then None
      else (case se_capacity e of None \<Rightarrow> None | Some raw \<Rightarrow>
        (case parse_i64 (trim_str raw) of None \<Rightarrow> None | Some capacity \<Rightarrow>
          (let status = (case se_status e of Some text \<Rightarrow> map lowercase (trim_str text) | None \<Rightarrow> [])
           in Some (capacity, if status = [] then ''unknown'' else status)))))"

text \<open>The directory may be missing; an entry that cannot be listed is None.\<close>

type_synonym sysfs = "sysfs_entry option list option"

definition read_sysfs_levels :: "sysfs \<Rightarrow> battery_level list option" where
  "read_sysfs_levels d = map_option (\<lambda>es. List.map_filter (\<lambda>e. Option.bind e sysfs_level) es) d"

fun distinct_states :: "string list \<Rightarrow> string list \<Rightarrow> string list" where
  "distinct_states acc [] = acc"
| "distinct_states acc (s # ss) = distinct_states (if contains acc s then acc else acc @ [s]) ss"

definition div_trunc :: "int \<Rightarrow> int \<Rightarrow> int" where
  "div_trunc a b = (if 0 \<le> a then a div b else - ((- a) div b))"

definition summarize_levels :: "battery_level list \<Rightarrow> battery_level" where
  "summarize_levels levels =
     (let total = sint (sum_list (map (\<lambda>l. word_of_int (fst l) :: i64) levels));
          average = div_trunc total (int (max (length levels) 1))
      in (max 0 (min 100 average), join_with ''+'' (distinct_states [] (map snd levels))))"

text \<open>A level is published when it differs from the last one.\<close>

definition report_change :: "battery_level \<Rightarrow> battery_level option \<times> bus \<Rightarrow> battery_level option \<times> bus" where
  "report_change lv s = (if fst s = Some lv then s else (Some lv, publish_level lv (snd s)))"

definition park_forever :: "string \<Rightarrow> string \<Rightarrow> bus \<Rightarrow> bus" where
  "park_forever service cause =
     publish (LogRecord ''warn'' (''dbus: '' @ service @ '' unavailable ('' @ cause @ ''); listener parked''))"

definition sysfs_snapshot :: "sysfs \<Rightarrow> battery_level option" where
  "sysfs_snapshot d = (case read_sysfs_levels d of
       Some levels \<Rightarrow> if levels = [] then None else Some (summarize_levels levels)
     | None \<Rightarrow> None)"

definition battery_poll :: "sysfs \<Rightarrow> battery_level option \<times> bus \<Rightarrow> battery_level option \<times> bus" where
  "battery_poll d s = (case sysfs_snapshot d of None \<Rightarrow> s | Some lv \<Rightarrow> report_change lv s)"

definition battery_monitor :: "sysfs \<Rightarrow> sysfs list \<Rightarrow> bus \<Rightarrow> bus" where
  "battery_monitor first polls b = (case sysfs_snapshot first of
       None \<Rightarrow> park_forever ''sysfs battery monitor'' ''no readable batteries under /sys/class/power_supply'' b
     | Some lv \<Rightarrow> snd (fold battery_poll polls (Some lv, publish_level lv b)))"

section \<open>UPower\<close>

fun upower_state_label :: "nat \<Rightarrow> string" where
  "upower_state_label n =
     (if n = 1 then ''charging'' else if n = 2 then ''discharging'' else if n = 3 then ''empty''
      else if n = 4 then ''fully charged'' else if n = 5 then ''pending charge''
      else if n = 6 then ''pending discharge'' else ''unknown'')"

text \<open>The two property reads, in order; each may fail.\<close>

type_synonym upower_reads = "(string + f64) \<times> (string + u32)"

definition read_upower_snapshot :: "upower_reads \<Rightarrow> string + battery_level" where
  "read_upower_snapshot r = (case fst r of Inl e \<Rightarrow> Err e | Inr percentage \<Rightarrow>
     (case snd r of Inl e \<Rightarrow> Err e | Inr state \<Rightarrow>
       Ok (as_i64 (f64_clamp 0 100 (f64_round percentage)), upower_state_label (unat state))))"

definition refresh :: "upower_reads \<Rightarrow> battery_level option \<times> bus \<Rightarrow> battery_level option \<times> bus" where
  "refresh r s = (case read_upower_snapshot r of Inl _ \<Rightarrow> s | Inr lv \<Rightarrow> report_change lv s)"

text \<open>What the two property streams deliver: a change, after which both properties are read, or the end.\<close>

datatype property_item = PropertyChanged upower_reads | StreamEnded

fun upower_loop :: "property_item list \<Rightarrow> battery_level option \<times> bus \<Rightarrow> string option \<times> bus" where
  "upower_loop [] s = (None, snd s)"
| "upower_loop (StreamEnded # _) s = (Some ''UPower property stream ended'', snd s)"
| "upower_loop (PropertyChanged r # items) s = upower_loop items (refresh r s)"

text \<open>The error it ends with, if it ends, and the bus.\<close>

definition run_upower_battery :: "string option \<Rightarrow> string option \<Rightarrow> upower_reads \<Rightarrow> property_item list \<Rightarrow> bus \<Rightarrow> string option \<times> bus" where
  "run_upower_battery connection proxy initial items b =
     (case connection of Some e \<Rightarrow> (Some (''system bus unavailable: '' @ e), b) | None \<Rightarrow>
     (case proxy of Some e \<Rightarrow> (Some (''UPower DisplayDevice proxy: '' @ e), b) | None \<Rightarrow>
       upower_loop items (refresh initial (None, b))))"

definition upower_battery :: "string option \<Rightarrow> string option \<Rightarrow> upower_reads \<Rightarrow> property_item list \<Rightarrow> bus \<Rightarrow> bus" where
  "upower_battery connection proxy initial items b =
     (case run_upower_battery connection proxy initial items b of
        (Some err, b') \<Rightarrow> park_forever ''UPower battery monitor'' err b'
      | (None, b') \<Rightarrow> b')"

section \<open>Notification signals\<close>

datatype signal_body = ActionBody u32 string | ReasonBody u32 u32 | OtherBody

record signal =
  sg_member :: "string option"
  sg_sender :: "string option"
  sg_body :: signal_body

definition publish_notification_signal :: "signal \<Rightarrow> bus \<Rightarrow> bus" where
  "publish_notification_signal m b =
     (let member = (case sg_member m of Some n \<Rightarrow> n | None \<Rightarrow> ''Unknown'');
          sender = (case sg_sender m of Some n \<Rightarrow> n | None \<Rightarrow> ''unknown'');
          (ident, detail) = (case sg_body m of
              ActionBody i act \<Rightarrow> (Some (show_nat (unat i)), act)
            | ReasonBody i why \<Rightarrow> (Some (show_nat (unat i)), show_nat (unat why))
            | OtherBody \<Rightarrow> (None, []))
      in publish (NotificationReceived (case ident of Some i \<Rightarrow> i | None \<Rightarrow> member) sender member detail) b)"

text \<open>The stream of signals: an item, a hiccup, or the end.\<close>

datatype signal_item = SignalOk signal | SignalError | SignalsEnded

fun notifications_loop :: "signal_item list \<Rightarrow> bus \<Rightarrow> string option \<times> bus" where
  "notifications_loop [] b = (None, b)"
| "notifications_loop (SignalsEnded # _) b = (Some ''Notifications signal stream ended'', b)"
| "notifications_loop (SignalError # items) b = notifications_loop items b"
| "notifications_loop (SignalOk m # items) b = notifications_loop items (publish_notification_signal m b)"

definition run_notifications_listener :: "string option \<Rightarrow> string option \<Rightarrow> string option \<Rightarrow> signal_item list \<Rightarrow> bus \<Rightarrow> string option \<times> bus" where
  "run_notifications_listener connection match_rule watch items b =
     (case connection of Some e \<Rightarrow> (Some (''session bus unavailable: '' @ e), b) | None \<Rightarrow>
     (case match_rule of Some e \<Rightarrow> (Some (''invalid match rule: '' @ e), b) | None \<Rightarrow>
     (case watch of Some e \<Rightarrow> (Some (''cannot watch Notifications signals: '' @ e), b) | None \<Rightarrow>
       notifications_loop items b)))"

definition notifications_listener :: "string option \<Rightarrow> string option \<Rightarrow> string option \<Rightarrow> signal_item list \<Rightarrow> bus \<Rightarrow> bus" where
  "notifications_listener connection match_rule watch items b =
     (case run_notifications_listener connection match_rule watch items b of
        (Some err, b') \<Rightarrow> park_forever ''notifications listener'' err b'
      | (None, b') \<Rightarrow> b')"

section \<open>What the listeners publish\<close>

text \<open>
  Reporting changes is removing adjacent duplicates: the last level is the last of the levels reported,
  and the bus has one record for each of them.
\<close>

definition level_records :: "battery_level list \<Rightarrow> event list" where
  "level_records lvs = map (\<lambda>lv. LogRecord ''info'' (battery_message lv)) lvs"

lemma report_changes:
  "snd (fold report_change lvs (Some lv, b)) = b @ level_records (tl (remdups_adj (lv # lvs)))"
  by (induction lvs arbitrary: lv b)
     (auto simp: report_change_def publish_level_def publish_def level_records_def remdups_adj_Cons split: list.splits)

lemma report_changes_first:
  "lvs \<noteq> [] \<Longrightarrow> snd (fold report_change lvs (None, b)) = b @ level_records (remdups_adj lvs)"
  by (cases lvs) (simp_all add: report_change_def report_changes publish_level_def publish_def level_records_def
      remdups_adj_Cons split: list.splits)

lemma polls_report:
  "fold battery_poll polls s = fold report_change (List.map_filter sysfs_snapshot polls) s"
  by (induction polls arbitrary: s) (simp_all add: battery_poll_def map_filter_simps split: option.split)

lemma summary_range: "0 \<le> fst (summarize_levels lvs) \<and> fst (summarize_levels lvs) \<le> 100"
  by (simp add: summarize_levels_def Let_def)

lemma snapshot_range: "sysfs_snapshot d = Some lv \<Longrightarrow> 0 \<le> fst lv \<and> fst lv \<le> 100"
  using summary_range by (auto simp: sysfs_snapshot_def split: option.splits if_splits)

lemma upower_range:
  assumes "read_upower_snapshot r = Ok lv"
  shows "0 \<le> fst lv \<and> fst lv \<le> 100"
proof -
  have "0 \<le> as_i64 (f64_clamp 0 100 x) \<and> as_i64 (f64_clamp 0 100 x) \<le> 100" for x
  proof (cases x)
    case (Finite q)
    have "\<lfloor>max 0 (min 100 q)\<rfloor> \<le> 100" "0 \<le> \<lfloor>max 0 (min 100 q)\<rfloor>" by (simp_all add: floor_le_iff)
    then show ?thesis by (simp add: Finite as_i64_def)
  qed (simp_all add: as_i64_def)
  then show ?thesis using assms by (auto simp: read_upower_snapshot_def split: sum.splits)
qed

text \<open>The levels UPower was seen at until its streams ended.\<close>

fun upower_seen :: "property_item list \<Rightarrow> battery_level list" where
  "upower_seen [] = []"
| "upower_seen (StreamEnded # _) = []"
| "upower_seen (PropertyChanged r # items) =
     (case read_upower_snapshot r of Inl _ \<Rightarrow> upower_seen items | Inr lv \<Rightarrow> lv # upower_seen items)"

lemma upower_loop_report:
  "upower_loop items s =
     (if StreamEnded \<in> set items then Some ''UPower property stream ended'' else None,
      snd (fold report_change (upower_seen items) s))"
  by (induction items s rule: upower_loop.induct) (auto simp: refresh_def split: sum.split)

definition upower_levels :: "upower_reads \<Rightarrow> property_item list \<Rightarrow> battery_level list" where
  "upower_levels initial items = upower_seen (PropertyChanged initial # items)"

abbreviation "NO_BATTERIES \<equiv> LogRecord ''warn''
  ''dbus: sysfs battery monitor unavailable (no readable batteries under /sys/class/power_supply); listener parked''"

abbreviation "UPOWER_ENDED \<equiv> LogRecord ''warn''
  ''dbus: UPower battery monitor unavailable (UPower property stream ended); listener parked''"

lemma sysfs_reports:
  "battery_monitor first polls b = b @ (case sysfs_snapshot first of
       None \<Rightarrow> [NO_BATTERIES]
     | Some lv \<Rightarrow> level_records (remdups_adj (lv # List.map_filter sysfs_snapshot polls)))"
  by (auto simp: battery_monitor_def polls_report report_changes park_forever_def publish_def publish_level_def
      level_records_def remdups_adj_Cons split: option.split list.splits)

lemma upower_reports:
  "upower_battery None None initial items b = b @ level_records (remdups_adj (upower_levels initial items)) @
     (if StreamEnded \<in> set items then [UPOWER_ENDED] else [])"
proof -
  have refresh_first: "refresh initial (None, b) =
      fold report_change (case read_upower_snapshot initial of Inl _ \<Rightarrow> [] | Inr lv \<Rightarrow> [lv]) (None, b)"
    by (simp add: refresh_def split: sum.split)
  have "snd (fold report_change (upower_seen items) (refresh initial (None, b))) =
      b @ level_records (remdups_adj (upower_levels initial items))"
    using report_changes_first [of "upower_levels initial items" b]
    by (cases "upower_levels initial items = []")
       (auto simp: upower_levels_def refresh_first level_records_def split: sum.splits)
  then show ?thesis
    by (simp add: upower_battery_def run_upower_battery_def upower_loop_report park_forever_def publish_def)
qed

definition percentage :: "battery_level \<Rightarrow> bool" where
  "percentage lv = (0 \<le> fst lv \<and> fst lv \<le> 100)"

lemma snapshots_percentages: "list_all percentage (List.map_filter sysfs_snapshot ds)"
  by (induction ds) (auto simp: map_filter_simps percentage_def dest: snapshot_range split: option.split)

lemma upower_percentages: "list_all percentage (upower_seen items)"
  by (induction items rule: upower_seen.induct) (auto simp: percentage_def dest: upower_range split: sum.split)

text \<open>C40. Battery reports: both monitors publish the levels they observe with repetitions left out, one
  record for each change and in order, every level between 0 and 100; readings that fail or show no
  battery publish nothing.  A monitor without its service publishes one warning and then nothing.\<close>

theorem battery_reports_changes:
  "battery_monitor first polls b = b @ (case sysfs_snapshot first of
       None \<Rightarrow> [NO_BATTERIES]
     | Some lv \<Rightarrow> level_records (remdups_adj (lv # List.map_filter sysfs_snapshot polls))) \<and>
   upower_battery None None initial items b = b @ level_records (remdups_adj (upower_levels initial items)) @
     (if StreamEnded \<in> set items then [UPOWER_ENDED] else []) \<and>
   list_all percentage (List.map_filter sysfs_snapshot (first # polls) @ upower_levels initial items)"
  unfolding list_all_append by (intro conjI sysfs_reports upower_reports snapshots_percentages)
    (simp only: upower_levels_def upower_percentages)

lemma distinct_states_set: "set (distinct_states acc ss) = set acc \<union> set ss \<and> (distinct acc \<longrightarrow> distinct (distinct_states acc ss))"
  by (induction acc ss rule: distinct_states.induct) (auto simp: contains_def)

section \<open>File server processes\<close>

text \<open>
  \<^verbatim>\<open>SftpManager\<close>.  A process is a number with the command line it was started with; killing covers the
  explicit kill of a teardown and the kill of a handle that is dropped.  What one start finds outside, the
  environment, the file system and the fate of the child, is its environment.
\<close>

record sftp_env =
  sp_vars :: environment
  sp_is_file :: "path \<Rightarrow> bool"
  sp_spawn :: "string + nat"
  sp_try_wait :: "io_error + string option"

definition SFTP_SERVER_OVERRIDE_ENV :: string where
  "SFTP_SERVER_OVERRIDE_ENV = ''HANDFAST_SFTP_SERVER''"

definition SFTP_SERVER_CANDIDATES :: "path list" where
  "SFTP_SERVER_CANDIDATES = [''/usr/lib/openssh/sftp-server'', ''/usr/lib/ssh/sftp-server'',
     ''/usr/libexec/openssh/sftp-server'', ''/usr/lib/sftp-server'', ''/usr/libexec/sftp-server'', ''/usr/sbin/sftp-server'']"

definition non_empty_var :: "environment \<Rightarrow> string \<Rightarrow> string option" where
  "non_empty_var env k = (case env k of Some v \<Rightarrow> if v = [] then None else Some v | None \<Rightarrow> None)"

definition find_in_path :: "sftp_env \<Rightarrow> string \<Rightarrow> path option" where
  "find_in_path env name = (case sp_vars env ''PATH'' of None \<Rightarrow> None
     | Some paths \<Rightarrow> find (sp_is_file env) (map (\<lambda>dir. join dir name) (split_colon [] paths)))"

definition sftp_home_dir :: "sftp_env \<Rightarrow> string option" where
  "sftp_home_dir env = (case non_empty_var (sp_vars env) ''HOME'' of Some h \<Rightarrow> Some h
     | None \<Rightarrow> non_empty_var (sp_vars env) ''USERPROFILE'')"

definition locate_server_binary :: "sftp_env \<Rightarrow> core_error + path" where
  "locate_server_binary env = (case non_empty_var (sp_vars env) SFTP_SERVER_OVERRIDE_ENV of
       Some p \<Rightarrow> Ok p
     | None \<Rightarrow> (case find (sp_is_file env) SFTP_SERVER_CANDIDATES of
           Some p \<Rightarrow> Ok p
         | None \<Rightarrow> (case find_in_path env ''sftp-server'' of
               Some p \<Rightarrow> Ok p
             | None \<Rightarrow> Err (COther (''sftp server binary not found; install the package providing sftp-server (e.g. openssh-sftp-server) searched at ['' @
                 join_with '', '' SFTP_SERVER_CANDIDATES @ ''], or point $'' @ SFTP_SERVER_OVERRIDE_ENV @ '' at the binary'')))))"

record sftp_session =
  ss_child :: nat
  ss_port :: u16

record sftp_manager =
  active_sessions :: "sftp_session table"
  sf_spawned :: "(nat \<times> string list) list"
  sf_killed :: "nat list"

definition sftp_new :: sftp_manager where
  "sftp_new = \<lparr>active_sessions = [], sf_spawned = [], sf_killed = []\<rparr>"

definition kill_child :: "nat \<Rightarrow> sftp_manager \<Rightarrow> sftp_manager" where
  "kill_child pid m = m\<lparr>sf_killed := pid # sf_killed m\<rparr>"

definition shutdown_session :: "sftp_session \<Rightarrow> sftp_manager \<Rightarrow> sftp_manager" where
  "shutdown_session s m = kill_child (ss_child s) m"

definition take_session :: "string \<Rightarrow> sftp_manager \<Rightarrow> sftp_manager" where
  "take_session d m = (case tget d (active_sessions m) of
       None \<Rightarrow> m
     | Some s \<Rightarrow> shutdown_session s (m\<lparr>active_sessions := tdel d (active_sessions m)\<rparr>))"

definition command_line :: "sftp_env \<Rightarrow> path \<Rightarrow> string list" where
  "command_line env binary = [binary, ''-R''] @ (case sftp_home_dir env of Some home \<Rightarrow> [''-d'', home] | None \<Rightarrow> [])"

definition start_session :: "sftp_env \<Rightarrow> string \<Rightarrow> u16 \<Rightarrow> sftp_manager \<Rightarrow> (core_error + unit) \<times> sftp_manager" where
  "start_session env d port m =
     (if port = 0 then (Err (COther ''refusing to start sftp session on port 0; the listener must bind first''), m)
      else let m1 = take_session d m in
        (case locate_server_binary env of Inl e \<Rightarrow> (Err e, m1) | Inr binary \<Rightarrow>
        (case sp_spawn env of
           Inl e \<Rightarrow> (Err (COther (''sftp server '' @ quote binary @ '' failed to spawn: '' @ e)), m1)
         | Inr pid \<Rightarrow> (let m2 = m1\<lparr>sf_spawned := (pid, command_line env binary) # sf_spawned m1\<rparr> in
             (case sp_try_wait env of
                Inr None \<Rightarrow> (Ok (), m2\<lparr>active_sessions := tput d \<lparr>ss_child = pid, ss_port = port\<rparr> (active_sessions m2)\<rparr>)
              | Inr (Some status) \<Rightarrow>
                  (Err (COther (''sftp server '' @ quote binary @ '' exited immediately ('' @ status @ '')'')), kill_child pid m2)
              | Inl e \<Rightarrow> (Err (CIo e), kill_child pid m2))))))"

definition stop_session :: "string \<Rightarrow> sftp_manager \<Rightarrow> sftp_manager" where
  "stop_session d m = take_session d m"

definition sftp_is_active :: "string \<Rightarrow> sftp_manager \<Rightarrow> bool" where
  "sftp_is_active d m = thas d (active_sessions m)"

definition session_port :: "string \<Rightarrow> sftp_manager \<Rightarrow> u16 option" where
  "session_port d m = map_option ss_port (tget d (active_sessions m))"

datatype sftp_op = StartSftp sftp_env string u16 | StopSftp string

fun sftp_step :: "sftp_op \<Rightarrow> sftp_manager \<Rightarrow> sftp_manager" where
  "sftp_step (StartSftp env d port) m = snd (start_session env d port m)"
| "sftp_step (StopSftp d) m = stop_session d m"

text \<open>
  No file server is lost: what was started and not killed is exactly the children of the active sessions,
  one for each device.
\<close>

definition sftp_children :: "sftp_manager \<Rightarrow> nat set" where
  "sftp_children m = (ss_child \<circ> snd) ` set (active_sessions m)"

definition sftp_inv :: "sftp_manager \<Rightarrow> bool" where
  "sftp_inv m \<longleftrightarrow> distinct (keys (active_sessions m)) \<and> distinct (map (ss_child \<circ> snd) (active_sessions m)) \<and>
     fst ` set (sf_spawned m) - set (sf_killed m) = sftp_children m \<and> set (sf_killed m) \<subseteq> fst ` set (sf_spawned m)"

text \<open>The kernel gives a new process a number that no process of this manager has.\<close>

fun fresh_pid :: "sftp_op \<Rightarrow> sftp_manager \<Rightarrow> bool" where
  "fresh_pid (StartSftp env d port) m = (case sp_spawn env of Inr pid \<Rightarrow> pid \<notin> fst ` set (sf_spawned m) | Inl _ \<Rightarrow> True)"
| "fresh_pid (StopSftp d) m = True"

lemma children_tdel:
  assumes "sftp_inv m" "tget d (active_sessions m) = Some s"
  shows "(ss_child \<circ> snd) ` set (tdel d (active_sessions m)) = sftp_children m - {ss_child s}"
    "distinct (map (ss_child \<circ> snd) (tdel d (active_sessions m)))"
proof -
  let ?ss = "active_sessions m"
  have d: "distinct (map (ss_child \<circ> snd) ?ss)" and k: "distinct (keys ?ss)" using assms(1) by (auto simp: sftp_inv_def)
  have del: "tdel d ?ss = filter (\<lambda>x. fst x \<noteq> d) ?ss" by (auto simp: tdel_def AList.delete_eq intro: filter_cong)
  have s: "(d, s) \<in> set ?ss" using assms(2) by (simp add: tget_def map_of_SomeD)
  have "fst x = d" if "x \<in> set ?ss" "ss_child (snd x) = ss_child s" for x
    using d that s unfolding distinct_map by (auto dest: inj_onD [of _ _ x "(d, s)"])
  moreover have "x = (d, s)" if "x \<in> set ?ss" "fst x = d" for x
    using k that s unfolding distinct_map by (auto dest: inj_onD [of _ _ x "(d, s)"])
  ultimately show "(ss_child \<circ> snd) ` set (tdel d ?ss) = sftp_children m - {ss_child s}"
    unfolding del sftp_children_def by fastforce
  show "distinct (map (ss_child \<circ> snd) (tdel d ?ss))"
    unfolding del using d by (metis distinct_map_filter)
qed

lemma take_session_inv:
  assumes "sftp_inv m"
  shows "sftp_inv (take_session d m)"
proof (cases "tget d (active_sessions m)")
  case None
  then show ?thesis using assms by (simp add: take_session_def)
next
  case (Some s)
  have "ss_child s \<in> sftp_children m"
    using Some by (force simp: sftp_children_def tget_def dest: map_of_SomeD)
  moreover have "distinct (keys (tdel d (active_sessions m)))" using assms by (simp add: sftp_inv_def)
  ultimately show ?thesis
    using assms children_tdel [OF assms Some] Some
    by (auto simp: take_session_def shutdown_session_def kill_child_def sftp_inv_def sftp_children_def)
qed

lemma take_session_absent: "distinct (keys (active_sessions m)) \<Longrightarrow> tget d (active_sessions (take_session d m)) = None"
  by (auto simp: take_session_def shutdown_session_def kill_child_def split: option.split)

lemma take_session_spawned [simp]: "sf_spawned (take_session d m) = sf_spawned m"
  by (simp add: take_session_def shutdown_session_def kill_child_def split: option.split)

lemma tput_absent: "tget d t = None \<Longrightarrow> tput d v t = t @ [(d, v)]"
  by (induction t) (auto simp: tget_def tput_def split: if_splits)

lemma spawned_inv:
  assumes "sftp_inv m" "pid \<notin> fst ` set (sf_spawned m)"
  shows "sftp_inv (kill_child pid (m\<lparr>sf_spawned := (pid, cl) # sf_spawned m\<rparr>))"
    "tget d (active_sessions m) = None \<Longrightarrow> sftp_inv (m\<lparr>sf_spawned := (pid, cl) # sf_spawned m,
       active_sessions := tput d \<lparr>ss_child = pid, ss_port = port\<rparr> (active_sessions m)\<rparr>)"
proof -
  have "pid \<notin> set (sf_killed m)" "pid \<notin> sftp_children m" using assms by (auto simp: sftp_inv_def)
  then show "sftp_inv (kill_child pid (m\<lparr>sf_spawned := (pid, cl) # sf_spawned m\<rparr>))"
    "tget d (active_sessions m) = None \<Longrightarrow> sftp_inv (m\<lparr>sf_spawned := (pid, cl) # sf_spawned m,
       active_sessions := tput d \<lparr>ss_child = pid, ss_port = port\<rparr> (active_sessions m)\<rparr>)"
    using assms by (auto simp: sftp_inv_def kill_child_def sftp_children_def tput_absent tget_def map_of_eq_None_iff)
qed

lemma sftp_step_inv:
  assumes "sftp_inv m" "fresh_pid c m"
  shows "sftp_inv (sftp_step c m)"
proof (cases c)
  case (StartSftp env d port)
  have t: "sftp_inv (take_session d m)" "tget d (active_sessions (take_session d m)) = None"
    using take_session_inv [OF assms(1)] take_session_absent assms(1) by (auto simp: sftp_inv_def)
  have "pid \<notin> fst ` set (sf_spawned (take_session d m))" if "sp_spawn env = Inr pid" for pid
    using assms(2) that by (simp add: StartSftp)
  then show ?thesis
    using assms(1) t spawned_inv [OF t(1)]
    by (auto simp: StartSftp start_session_def Let_def split: sum.split option.split)
qed (simp add: stop_session_def take_session_inv assms)

interpretation sftp: guarded_system sftp_step fresh_pid sftp_inv
  by unfold_locales (rule sftp_step_inv)

lemma read_only_step:
  assumes "list_all (\<lambda>(_, cl). cl ! 1 = ''-R'') (sf_spawned m)"
  shows "list_all (\<lambda>(_, cl). cl ! 1 = ''-R'') (sf_spawned (sftp_step c m))"
  using assms by (cases c)
    (auto simp: start_session_def stop_session_def command_line_def kill_child_def Let_def split: sum.splits option.splits)


definition demo_sftp :: "nat \<Rightarrow> sftp_env" where
  "demo_sftp pid = \<lparr>sp_vars = (\<lambda>k. if k = ''HOME'' then Some ''/home/u'' else None),
     sp_is_file = (\<lambda>p. p = ''/usr/lib/ssh/sftp-server''), sp_spawn = Inr pid, sp_try_wait = Inr None\<rparr>"

definition demo_sftp_ops :: "sftp_op list" where
  "demo_sftp_ops = [StartSftp (demo_sftp 1) ''a'' 22, StartSftp (demo_sftp 2) ''a'' 23, StartSftp (demo_sftp 3) ''b'' 0,
     StartSftp ((demo_sftp 4)\<lparr>sp_try_wait := Inr (Some ''exit status: 1'')\<rparr>) ''b'' 24, StopSftp ''a'']"

lemma demo_sftp_run:
  "fold sftp_step demo_sftp_ops sftp_new = \<lparr>active_sessions = [],
     sf_spawned = map (\<lambda>pid. (pid, [''/usr/lib/ssh/sftp-server'', ''-R'', ''-d'', ''/home/u''])) [4, 2, 1], sf_killed = [2, 4, 1]\<rparr>"
  by (simp add: demo_sftp_ops_def demo_sftp_def sftp_new_def start_session_def stop_session_def take_session_def
      shutdown_session_def kill_child_def locate_server_binary_def non_empty_var_def SFTP_SERVER_CANDIDATES_def
      SFTP_SERVER_OVERRIDE_ENV_def command_line_def sftp_home_dir_def tdel_def tput_def Let_def)


text \<open>
  A request to refresh a session gives up the old one first: when the new server cannot be found or
  started the device is left with none.
\<close>

lemma failed_refresh_drops_session:
  assumes "distinct (keys (active_sessions m))" "port \<noteq> 0" "sp_spawn env = Inl e"
  shows "fst (start_session env d port m) \<noteq> Ok () \<and> \<not> sftp_is_active d (snd (start_session env d port m))"
  using assms take_session_absent [of m d]
  by (auto simp: start_session_def sftp_is_active_def thas_def tget_def Let_def split: sum.split)

text \<open>A session counts as active until it is stopped, whatever became of its process.\<close>

lemma started_session_is_active:
  assumes "fst (start_session env d port m) = Ok ()"
  shows "sftp_is_active d (snd (start_session env d port m)) \<and> session_port d (snd (start_session env d port m)) = Some port"
  using assms by (auto simp: start_session_def sftp_is_active_def session_port_def Let_def split: sum.splits option.splits if_splits)

end
