(* ===== verification/Hf_Daemon.thy ===== *)
theory Hf_Daemon
  imports Hf_Main Hf_Services
begin

text \<open>
  The daemon as a whole: the rest of \<^verbatim>\<open>daemon/src/main.rs\<close> (start, supervised tasks, shutdown), the directories
  of \<^verbatim>\<open>core/src/paths.rs\<close> and the endpoint of \<^verbatim>\<open>ipc/src/server.rs\<close>; and what the composition of its parts
  guarantees about pairing.
\<close>

section \<open>Directories on disk\<close>

text \<open>The directories that exist, with their modes; new ones get the mode the process creates them with.\<close>

type_synonym dir_modes = "path \<Rightarrow> nat option"

definition PRIVATE_MODE :: nat where
  "PRIVATE_MODE = 448"

fun create_all :: "(path \<Rightarrow> io_error option) \<Rightarrow> nat \<Rightarrow> path list \<Rightarrow> dir_modes \<Rightarrow> (core_error + unit) \<times> dir_modes" where
  "create_all fault mode [] ds = (Ok (), ds)"
| "create_all fault mode (p # ps) ds = (case fault p of
       Some e \<Rightarrow> (Err (CIo e), ds)
     | None \<Rightarrow> create_all fault mode ps (if ds p = None then ds(p \<mapsto> mode) else ds))"

definition restrict_private :: "(path \<Rightarrow> io_error option) \<Rightarrow> path \<Rightarrow> dir_modes \<Rightarrow> (core_error + unit) \<times> dir_modes" where
  "restrict_private fault p ds = (case fault p of Some e \<Rightarrow> (Err (CIo e), ds) | None \<Rightarrow> (Ok (), ds(p \<mapsto> PRIVATE_MODE)))"

definition paths_init :: "(path \<Rightarrow> io_error option) \<Rightarrow> (path \<Rightarrow> io_error option) \<Rightarrow> nat \<Rightarrow> paths \<Rightarrow> dir_modes \<Rightarrow>
    (core_error + paths) \<times> dir_modes" where
  "paths_init mk_fault ch_fault mode p ds =
     (case create_all mk_fault mode [config_dir p, data_dir p, cache_dir p, runtime_dir p] ds of
        (Inl e, ds1) \<Rightarrow> (Err e, ds1)
      | (Inr _, ds1) \<Rightarrow> (case restrict_private ch_fault (config_dir p) ds1 of
            (Inl e, ds2) \<Rightarrow> (Err e, ds2)
          | (Inr _, ds2) \<Rightarrow> (case restrict_private ch_fault (data_dir p) ds2 of
                (Inl e, ds3) \<Rightarrow> (Err e, ds3)
              | (Inr _, ds3) \<Rightarrow> (Ok p, ds3))))"

lemma create_all_exists:
  "create_all fault mode ps ds = (Ok u, ds') \<Longrightarrow> q \<in> set ps \<or> ds q \<noteq> None \<Longrightarrow> ds' q \<noteq> None"
  by (induction ps arbitrary: ds) (auto split: option.splits if_splits)

text \<open>After a successful initialisation all four directories exist, and the keys and the state are private.\<close>

lemma paths_init_private:
  assumes "paths_init mk_fault ch_fault mode p ds = (Ok p', ds')"
  shows "p' = p \<and> ds' (config_dir p) = Some PRIVATE_MODE \<and> ds' (data_dir p) = Some PRIVATE_MODE \<and>
    ds' (cache_dir p) \<noteq> None \<and> ds' (runtime_dir p) \<noteq> None"
proof -
  obtain u ds1 where c: "create_all mk_fault mode [config_dir p, data_dir p, cache_dir p, runtime_dir p] ds = (Ok u, ds1)"
    using assms unfolding paths_init_def
    by (cases "create_all mk_fault mode [config_dir p, data_dir p, cache_dir p, runtime_dir p] ds"; cases "fst (create_all mk_fault mode [config_dir p, data_dir p, cache_dir p, runtime_dir p] ds)") auto
  have "ds1 (cache_dir p) \<noteq> None" "ds1 (runtime_dir p) \<noteq> None" using create_all_exists [OF c] by simp_all
  then show ?thesis using assms c
    by (auto simp: paths_init_def restrict_private_def simp del: create_all.simps split: option.splits)
qed

section \<open>The endpoint\<close>

text \<open>A socket file: the process that listens on it, and its mode.\<close>

type_synonym sockets = "path \<Rightarrow> (nat \<times> nat) option"

record bind_env =
  bi_mkdir :: "io_error option"
  bi_remove :: "io_error option"
  bi_bind :: "io_error option"
  bi_chmod :: bool
  bi_mode :: nat

definition SOCKET_MODE :: nat where
  "SOCKET_MODE = 384"

definition set_owner_only :: "bind_env \<Rightarrow> nat \<Rightarrow> nat" where
  "set_owner_only env mode = (if bi_chmod env then SOCKET_MODE else mode)"

definition bind_new :: "bind_env \<Rightarrow> nat \<Rightarrow> path \<Rightarrow> sockets \<Rightarrow> (io_error + unit) \<times> sockets" where
  "bind_new env pid p s = (case bi_bind env of
       Some e \<Rightarrow> (Err e, s)
     | None \<Rightarrow> (Ok (), s(p \<mapsto> (pid, set_owner_only env (bi_mode env)))))"

definition server_bind :: "bind_env \<Rightarrow> nat \<Rightarrow> path \<Rightarrow> sockets \<Rightarrow> (io_error + unit) \<times> sockets" where
  "server_bind env pid p s =
     (case (if path_parent p \<noteq> [] then bi_mkdir env else None) of Some e \<Rightarrow> (Err e, s) | None \<Rightarrow>
     (case (case bi_remove env of Some e \<Rightarrow> Some e | None \<Rightarrow> if s p = None then Some NotFound else None) of
        Some e \<Rightarrow> if e \<noteq> NotFound then (Err e, s) else bind_new env pid p s
      | None \<Rightarrow> bind_new env pid p (s(p := None))))"

definition cleanup_socket :: "io_error option \<Rightarrow> path \<Rightarrow> sockets \<Rightarrow> sockets" where
  "cleanup_socket fault p s = (case fault of None \<Rightarrow> s(p := None) | Some _ \<Rightarrow> s)"

text \<open>The accept loop: a session for every connection, a pause after every failed accept.\<close>

datatype accepted = Accepted "string + u32" | AcceptFailed io_error

fun serve :: "string option \<Rightarrow> accepted list \<Rightarrow> session list" where
  "serve status [] = []"
| "serve status (Accepted cred # as) = session_open (peer_is_owner status cred) # serve status as"
| "serve status (AcceptFailed e # as) = serve status as"

text \<open>
  Binding takes the path over whether or not another daemon listens on it; when that daemon stops it
  removes the file of its successor, which then runs without an endpoint.
\<close>

lemma second_daemon_loses_its_socket:
  assumes "server_bind env1 pid1 p s = (Ok (), s1)" "server_bind env2 pid2 p s1 = (Ok (), s2)"
  shows "map_option fst (s1 p) = Some pid1" "map_option fst (s2 p) = Some pid2" "cleanup_socket None p s2 p = None"
  using assms by (auto simp: server_bind_def bind_new_def cleanup_socket_def split: option.splits if_splits)

lemma bound_socket_private:
  assumes "server_bind env pid p s = (Ok (), s')" "bi_chmod env"
  shows "s' p = Some (pid, SOCKET_MODE)"
  using assms by (auto simp: server_bind_def bind_new_def set_owner_only_def split: option.splits if_splits)

text \<open>The session of a peer that is not the owner handles nothing.\<close>

lemma stranger_session:
  assumes "\<not> peer_is_owner status cred"
  shows "fst (session_run de handler ins (w, session_greet pid (fold session_background early (session_open (peer_is_owner status cred))))) = w"
proof -
  let ?s = "session_greet pid (fold session_background early (session_open (peer_is_owner status cred)))"
  have bg: "sess_result (session_background i s) = sess_result s" for i s
    by (cases i) simp_all
  have "sess_result (fold session_background early s) = sess_result s" for s
    by (induction early arbitrary: s) (simp_all add: bg)
  then have s: "sess_result ?s \<noteq> None"
    using assms by (simp add: session_greet_def session_open_def)
  have "fst (session_run de handler ins (w, s)) = w" if "sess_result s \<noteq> None" for s
    using that
  proof (induction ins arbitrary: s)
    case (Cons i ins)
    have "\<exists>s'. session_step de handler i (w, s) = (w, s') \<and> sess_result s' \<noteq> None"
      using Cons.prems by (cases i) (simp_all add: bg)
    then show ?case using Cons.IH by (auto simp: session_run_def)
  qed (simp add: session_run_def)
  then show ?thesis using s by blast
qed

section \<open>Readiness\<close>

text \<open>
  \<^verbatim>\<open>sd_notify_ready\<close>: the datagrams sent, given \<^verbatim>\<open>NOTIFY_SOCKET\<close>, whether a socket could be made and which
  paths can be connected to.
\<close>

definition notify_path :: "string \<Rightarrow> string" where
  "notify_path p = (if p \<noteq> [] \<and> hd p = CHR ''@'' then CHR 0x00 # p else p)"

definition sd_notify_ready :: "string option \<Rightarrow> bool \<Rightarrow> (string \<Rightarrow> bool) \<Rightarrow> (string \<times> string) list" where
  "sd_notify_ready var unbound can_connect = (case var of None \<Rightarrow> []
     | Some p \<Rightarrow> if unbound \<and> can_connect (notify_path p) then [(notify_path p, ''READY=1'')] else [])"

text \<open>
  The standard library refuses socket paths with a zero byte, so an abstract socket is never notified;
  and the path that is built keeps the sign that stands for the zero byte.
\<close>

lemma abstract_socket_never_notified:
  assumes "\<And>p. CHR 0x00 \<in> set p \<Longrightarrow> \<not> can_connect p"
  shows "sd_notify_ready (Some (CHR ''@'' # name)) unbound can_connect = []"
    "notify_path (CHR ''@'' # name) = CHR 0x00 # CHR ''@'' # name"
  using assms by (simp_all add: sd_notify_ready_def notify_path_def)

section \<open>Supervised tasks\<close>

definition daemon_tasks :: "string list" where
  "daemon_tasks = [''event-forwarder'', ''devices'', ''battery-sysfs'', ''battery-upower'', ''notifications'', ''discovery'',
     ''announcement-bridge'', ''tcp-listener'', ''ipc-server'']"

text \<open>The attempts of the manager's task: the first takes the manager out of its cell, later ones end at once.\<close>

fun devices_attempts :: "'m option \<Rightarrow> ('m \<Rightarrow> core_error + unit) \<Rightarrow> nat \<Rightarrow> (core_error + unit) list" where
  "devices_attempts cell run 0 = []"
| "devices_attempts cell run (Suc n) =
     (case cell of Some m \<Rightarrow> run m | None \<Rightarrow> Ok ()) # devices_attempts None run n"

text \<open>The bridge from discovery: each announcement, and whether the manager still takes commands.\<close>

fun announcement_bridge :: "(announcement \<times> bool) list \<Rightarrow> command list" where
  "announcement_bridge [] = []"
| "announcement_bridge ((a, up) # as) = (if up then Announce a # announcement_bridge as else [])"

text \<open>
  The listener: a failed accept ends the attempt, a finished handshake is reported if it was accepted.
  The handshakes run at the same time; they are listed in the order in which they finish.
\<close>

fun tcp_listener :: "(io_error + (core_error + identity \<times> transport)) list \<Rightarrow> command list \<times> core_error option" where
  "tcp_listener [] = ([], None)"
| "tcp_listener (Inl e # as) = ([], Some (CIo e))"
| "tcp_listener (Inr r # as) = (let (cs, e) = tcp_listener as in
     ((case accept_report r of Some c \<Rightarrow> [c] | None \<Rightarrow> []) @ cs, e))"

section \<open>Start and shutdown\<close>

record run_args =
  ra_socket :: "path option"
  ra_data_dir :: "path option"
  ra_tcp_port :: u16
  ra_name :: string

record run_env =
  rn_environment :: environment
  rn_status :: "string option"
  rn_tmp :: path
  rn_mk_fault :: "path \<Rightarrow> io_error option"
  rn_ch_fault :: "path \<Rightarrow> io_error option"
  rn_mode :: nat
  rn_open :: "path \<Rightarrow> core_error + store"
  rn_get_fault :: "string option"
  rn_set_fault :: "string option"
  rn_uuid :: string
  rn_certs :: cert_env

datatype run_error = NoDirectories core_error | NoDatabaseDir io_error | NoDatabase core_error | NoIdentity start_error

record daemon =
  dn_device_id :: string
  dn_pair :: cert_pair
  dn_identity :: identity
  dn_store :: store
  dn_socket :: path
  dn_supervisor :: supervisor

definition db_path :: "run_args \<Rightarrow> paths \<Rightarrow> path" where
  "db_path a p = (case ra_data_dir a of Some dir \<Rightarrow> join dir ''state.db3'' | None \<Rightarrow> join (data_dir p) ''state.db3'')"

definition run_start :: "run_args \<Rightarrow> run_env \<Rightarrow> dir_modes \<Rightarrow> fs \<Rightarrow> (run_error + daemon) \<times> dir_modes \<times> fs" where
  "run_start a env ds fs =
     (let p = resolve (rn_environment env) (rn_status env) (rn_tmp env) in
      case paths_init (rn_mk_fault env) (rn_ch_fault env) (rn_mode env) p ds of
        (Inl e, ds1) \<Rightarrow> (Err (NoDirectories e), ds1, fs)
      | (Inr _, ds1) \<Rightarrow> (case rn_mk_fault env (path_parent (db_path a p)) of
          Some e \<Rightarrow> (Err (NoDatabaseDir e), ds1, fs)
        | None \<Rightarrow> (case rn_open env (db_path a p) of
            Inl e \<Rightarrow> (Err (NoDatabase e), ds1, fs)
          | Inr st \<Rightarrow> (case identity_setup (rn_get_fault env) (rn_set_fault env) (rn_uuid env) (rn_certs env)
                (config_dir p) (ra_name a) (ra_tcp_port a) (st, fs) of
              (Inl e, _, fs') \<Rightarrow> (Err (NoIdentity e), ds1, fs')
            | (Inr (d, pair, me), st', fs') \<Rightarrow>
                (Ok \<lparr>dn_device_id = d, dn_pair = pair, dn_identity = me, dn_store = st',
                     dn_socket = (case ra_socket a of Some s \<Rightarrow> s
                       | None \<Rightarrow> default_socket_path (rn_environment env ''XDG_RUNTIME_DIR'') (rn_status env)),
                     dn_supervisor = fold spawn daemon_tasks (sup_new [])\<rparr>, ds1, fs')))))"

definition run_stop :: "io_error option \<Rightarrow> daemon \<Rightarrow> sockets \<Rightarrow> daemon \<times> sockets" where
  "run_stop fault dn s =
     (let sup = dn_supervisor dn in
      (dn\<lparr>dn_supervisor := shutdown_all (sup\<lparr>sup_bus := publish DaemonShutdown (sup_bus sup)\<rparr>)\<rparr>,
       cleanup_socket fault (dn_socket dn) s))"

lemma started_tasks:
  assumes "run_start a env ds fs = (Ok dn, ds', fs')"
  shows "keys (children (dn_supervisor dn)) = daemon_tasks" "live (dn_supervisor dn) = []"
proof -
  have "dn_supervisor dn = fold spawn daemon_tasks (sup_new [])"
    using assms by (auto simp: run_start_def Let_def split: sum.splits prod.splits option.splits)
  then show "keys (children (dn_supervisor dn)) = daemon_tasks" "live (dn_supervisor dn) = []"
    by (simp_all add: daemon_tasks_def sup_new_def spawn_def tput_def tget_def Let_def)
qed

text \<open>
  The certificate is looked up in the configuration directory whatever directory the state is kept in, so
  a daemon started on a new state directory gets a new identifier and the certificate of the old one.
\<close>

lemma run_start_identity:
  assumes "run_start a env ds fs = (Ok dn, ds', fs')"
  shows "\<exists>st. rn_open env (db_path a (resolve (rn_environment env) (rn_status env) (rn_tmp env))) = Ok st \<and>
    ensure_device_id (rn_get_fault env) (rn_set_fault env) (rn_uuid env) st = (Ok (dn_device_id dn), dn_store dn) \<and>
    load_or_generate (rn_certs env) (config_dir (resolve (rn_environment env) (rn_status env) (rn_tmp env)))
      (dn_device_id dn) fs = (Ok (dn_pair dn), fs')"
  using assms by (auto simp: run_start_def identity_setup_def Let_def split: sum.splits prod.splits option.splits)

lemma data_dir_shares_certificate:
  assumes "run_start a1 env1 ds fs = (Ok dn1, ds1, fs1)" "run_start a2 env2 ds1 fs1 = (Ok dn2, ds2, fs2)"
    and "\<And>c k d. ce_generate (rn_certs env1) d = Inr (c, k) \<Longrightarrow> c \<noteq> [] \<and> k \<noteq> []"
    and "rn_environment env2 = rn_environment env1" "rn_status env2 = rn_status env1" "rn_tmp env2 = rn_tmp env1"
    and "ce_readable (rn_certs env2) = (\<lambda>_. True)"
    and "rn_open env2 = (\<lambda>_. Ok store_empty)" "rn_get_fault env2 = None" "rn_set_fault env2 = None"
  shows "cert_der (dn_pair dn2) = cert_der (dn_pair dn1) \<and> dn_device_id dn2 = rn_uuid env2"
proof -
  let ?dir = "config_dir (resolve (rn_environment env1) (rn_status env1) (rn_tmp env1))"
  have one: "load_or_generate (rn_certs env1) ?dir (dn_device_id dn1) fs = (Ok (dn_pair dn1), fs1)"
    using run_start_identity [OF assms(1)] by blast
  have two: "load_or_generate (rn_certs env2) ?dir (dn_device_id dn2) fs1 = (Ok (dn_pair dn2), fs2)"
    and ident: "ensure_device_id None None (rn_uuid env2) store_empty = (Ok (dn_device_id dn2), dn_store dn2)"
    using run_start_identity [OF assms(2)] assms(4-10) by auto
  have "fs1 (join ?dir CERT_FILE_NAME) = Some (cert_der (dn_pair dn1))"
      "fs1 (join ?dir KEY_FILE_NAME) = Some (key_der_pkcs8 (dn_pair dn1))" "cert_der (dn_pair dn1) \<noteq> []" "key_der_pkcs8 (dn_pair dn1) \<noteq> []"
    using load_or_generate_stored [OF one] assms(3) by blast+
  then have "dn_pair dn2 = make_pair (rn_certs env2) (cert_der (dn_pair dn1)) (key_der_pkcs8 (dn_pair dn1))"
    using two assms(7) by (simp add: load_or_generate_def read_file_def)
  moreover have "dn_device_id dn2 = rn_uuid env2"
    using ident by (simp add: ensure_device_id_def kv_get_def kv_set_def store_empty_def)
  ultimately show ?thesis by (simp add: make_pair_def)
qed

section \<open>Who can make a device trusted\<close>

text \<open>
  A command reaches the manager from a client of the control socket, from the network (discovery and the
  listener) or from one of the manager's own tasks.  The request of a client becomes at most one command.
\<close>

fun request_command :: "request \<Rightarrow> nat \<Rightarrow> command option" where
  "request_command DeviceList rid = Some (ListDevices rid)"
| "request_command (DevicePair d) rid = Some (StartPairing d rid)"
| "request_command (DeviceUnpair d) rid = Some (Unpair d rid)"
| "request_command (ReqPairingAnswer d acc) rid = Some (PairingAnswer d acc rid)"
| "request_command (ReqSendFile d p) rid = Some (SendFile d p rid)"
| "request_command TransferList rid = Some (ListTransfers rid)"
| "request_command (TransferCancel tid) rid = Some (CancelTransfer tid rid)"
| "request_command _ rid = None"

text \<open>Handling a request is delivering its command; a pairing request then waits while the manager goes on.\<close>

lemma handle_request_command:
  assumes "re_up env"
  shows "snd (handle_request env self rid req m) = (case request_command req rid of
      Some c \<Rightarrow> mgr_run (Deliver (re_mgr env) c # (case req of DevicePair _ \<Rightarrow> re_later env | _ \<Rightarrow> [])) m
    | None \<Rightarrow> (case req of PluginSetEnabled d p b \<Rightarrow> snd (set_plugin env d p b m) | _ \<Rightarrow> m))"
  using assms by (cases req)
    (simp_all add: answer_with_def handle_list_devices_def handle_transfer_list_def handle_start_pairing_def handle_unpair_def
      handle_pairing_answer_def handle_transfer_cancel_def handle_unit_def handle_send_file_def mgr_run_def Let_def
      split: prod.splits sum.splits)

datatype origin = FromClient "string option" "string + u32" request | FromNetwork | FromTask

fun issued :: "origin \<Rightarrow> command \<Rightarrow> bool" where
  "issued (FromClient status cred req) c = (peer_is_owner status cred \<and> (\<exists>rid. request_command req rid = Some c))"
| "issued FromNetwork c = (case c of Announce _ \<Rightarrow> True | Connected _ _ \<Rightarrow> True | _ \<Rightarrow> False)"
| "issued FromTask c = (case c of Connected _ _ \<Rightarrow> True | PacketFrom _ _ \<Rightarrow> True | ConnClosed _ \<Rightarrow> True | PairingTimeout _ \<Rightarrow> True
     | SharePayload _ _ _ \<Rightarrow> True | TransferOutcome _ _ \<Rightarrow> True | _ \<Rightarrow> False)"

lemma network_commands_issued:
  "c \<in> set (announcement_bridge as) \<Longrightarrow> issued FromNetwork c"
  "c \<in> set (fst (tcp_listener rs)) \<Longrightarrow> issued FromNetwork c"
proof -
  show "c \<in> set (announcement_bridge as) \<Longrightarrow> issued FromNetwork c"
    by (induction "as" rule: announcement_bridge.induct) (auto split: if_splits)
  show "c \<in> set (fst (tcp_listener rs)) \<Longrightarrow> issued FromNetwork c"
    by (induction rs rule: tcp_listener.induct) (auto simp: accept_report_def split: sum.splits prod.splits)
qed

datatype daemon_input =
    Issue origin mgr_env command
  | Ran engine fs "event list"
  | SaveSetting req_env string string bool

fun daemon_step :: "daemon_input \<Rightarrow> manager \<Rightarrow> manager" where
  "daemon_step (Issue from env c) m = mgr_step env c m"
| "daemon_step (Ran e fs evs) m = mgr_input_step (TaskRan e fs evs) m"
| "daemon_step (SaveSetting env d p b) m = snd (set_plugin env d p b m)"

fun daemon_ok :: "daemon_input \<Rightarrow> manager \<Rightarrow> bool" where
  "daemon_ok (Issue from env c) m = (issued from c \<and> input_ok (Deliver env c) m)"
| "daemon_ok _ m = True"

text \<open>The manager never writes settings, and only starting a pairing leaves one pending.\<close>

definition AUTO_ACCEPT_KEY :: string where
  "AUTO_ACCEPT_KEY = ''pairing.auto_accept''"

lemma persist_trust_frame:
  "kv_tbl (mstore (persist_trust env d b m)) = kv_tbl (mstore m)"
  "pending_of (persist_trust env d b m) x = pending_of m x"
  by (auto simp: persist_trust_def upsert_device_def pending_of_def Let_def split: option.splits)

lemma quiet_frame:
  "quiet m m' \<Longrightarrow> kv_tbl (mstore m') = kv_tbl (mstore m) \<and> (pending_of m' x \<noteq> None \<longrightarrow> pending_of m x \<noteq> None)"
  using quiet_views(3) [of m m' x] by (simp add: quiet_def)

definition frame :: "string \<Rightarrow> manager \<Rightarrow> manager \<Rightarrow> bool" where
  "frame x m m' \<longleftrightarrow> kv_tbl (mstore m') = kv_tbl (mstore m) \<and> (pending_of m' x \<noteq> None \<longrightarrow> pending_of m x \<noteq> None)"

lemma frame_trans: "frame x m m' \<Longrightarrow> frame x m' m'' \<Longrightarrow> frame x m m''"
  by (auto simp: frame_def)

lemma frame_quiet: "quiet m m' \<Longrightarrow> frame x m m'"
  using quiet_frame [of m m' x] by (simp add: frame_def)

lemma frame_ops [simp]:
  "frame x m m" "frame x m (send_pair env d b m)" "frame x m (m\<lparr>incoming_pairs := t\<rparr>)" "frame x m (pub ev m)"
  "frame x m (respond rid a m)" "frame x m (park_request env d m)"
  "frame x m (m\<lparr>devices := tmod d (\<lambda>st. st\<lparr>pending_pair_reply := None\<rparr>) (devices m)\<rparr>)"
  by (auto simp: frame_def park_request_def pending_of_def Let_def split: option.splits bind_splits)

lemma frame_persist [simp]: "frame x m (persist_trust env d b m)"
  by (simp add: frame_def persist_trust_frame)

lemma frame_intros:
  "frame x m m' \<Longrightarrow> frame x m (persist_trust env d b m')" "frame x m m' \<Longrightarrow> frame x m (send_pair env d b m')"
  "frame x m m' \<Longrightarrow> frame x m (pub ev m')" "frame x m m' \<Longrightarrow> frame x m (respond rid a m')"
  by (erule frame_trans, simp)+

lemma frame_pair_packet: "frame x m (on_pair_packet env d p m)"
proof (cases rule: on_pair_packet_cases [of p env d m])
  case (answered w rid)
  then show ?thesis by (simp add: Let_def frame_intros)
qed (simp_all add: frame_intros)

lemma frame_answer: "frame x m (snd (answer_incoming_pairing env d acc m))"
  by (auto simp: answer_incoming_pairing_def Let_def frame_intros split: option.split)

lemma frame_step:
  assumes "\<And>rid. c \<noteq> StartPairing x rid"
  shows "frame x m (mgr_step env c m)"
proof (cases c)
  case (Announce a)
  then show ?thesis
    by (auto simp: frame_def pending_of_def on_announce_devices device_state_new_def Let_def split: option.splits bind_splits)
next
  case (Connected d t)
  then show ?thesis
  proof (cases "pin_mismatch m d (hex (peer_fingerprint t))")
    case True
    then show ?thesis using Connected by (simp add: on_connected_def frame_intros)
  next
    case False
    then show ?thesis using Connected
      by (auto simp: frame_def pending_of_def on_connected_devices device_state_new_def split: option.splits bind_splits)
  qed
next
  case (PacketFrom d p)
  then show ?thesis
    by (cases "ptype p = TYPE_PAIR") (simp_all add: on_packet_pair frame_pair_packet frame_quiet [OF on_packet_quiet])
next
  case (ConnClosed d)
  then show ?thesis by (auto simp: frame_def pending_of_def on_closed_devices split: option.splits bind_splits)
next
  case (StartPairing d rid)
  then have "d \<noteq> x" using assms by auto
  then show ?thesis using StartPairing begin_pairing_rest [of env d rid m]
    by (cases rule: begin_pairing_cases [of env d rid m])
       (auto simp: frame_def pending_of_def dest: pair_packet_state)
next
  case (Unpair d rid)
  then show ?thesis by (simp add: reply_with_def unpair_def frame_intros)
next
  case (PairingAnswer d acc rid)
  then show ?thesis by (simp add: reply_with_def frame_intros frame_answer)
next
  case (PairingTimeout d)
  then show ?thesis by (simp add: pairing_timeout_def frame_intros)
next
  case (SendFile d p rid)
  then show ?thesis by (simp add: reply_with_def frame_intros frame_quiet [OF quiet_send_file])
next
  case (CancelTransfer tid rid)
  then show ?thesis by (simp add: reply_with_def frame_intros frame_quiet [OF quiet_cancel])
next
  case (SharePayload d h r)
  then show ?thesis by (auto intro: frame_quiet [OF quiet_on_share_payload])
next
  case (TransferOutcome tid r)
  then show ?thesis by (auto intro: frame_quiet [OF quiet_outcome])
qed simp_all

text \<open>The owner of the daemon asked for the trust in a device: by starting the pairing or by accepting a request.\<close>

definition asked :: "string \<Rightarrow> daemon_input list \<Rightarrow> bool" where
  "asked x is \<longleftrightarrow> (\<exists>status cred req env c. Issue (FromClient status cred req) env c \<in> set is \<and> peer_is_owner status cred \<and>
     (req = DevicePair x \<or> req = ReqPairingAnswer x True))"

lemma asked_mono: "asked x is \<Longrightarrow> asked x (is @ [i])"
  unfolding asked_def by (metis UnI1 set_append)

lemma asked_now:
  assumes "peer_is_owner status cred" "req = DevicePair x \<or> req = ReqPairingAnswer x True"
  shows "asked x (is @ [Issue (FromClient status cred req) env c])"
  unfolding asked_def using assms by (intro exI conjI) auto

lemma pairing_requests:
  "request_command req r = Some (StartPairing x rid) \<Longrightarrow> req = DevicePair x"
  "request_command req r = Some (PairingAnswer x True rid) \<Longrightarrow> req = ReqPairingAnswer x True"
  by (cases req; simp)+

lemma issued_pairing:
  assumes "issued who c" "c = StartPairing x rid \<or> c = PairingAnswer x True rid"
  shows "asked x (is @ [Issue who env c])"
proof (cases who)
  case (FromClient status cred req)
  then obtain r where "peer_is_owner status cred" "request_command req r = Some c" using assms(1) by auto
  then show ?thesis using assms(2) pairing_requests [of req r x rid] asked_now FromClient by blast
qed (use assms in auto)

text \<open>What a run preserves, for one device.\<close>

definition consented :: "string \<Rightarrow> manager \<Rightarrow> daemon_input list \<Rightarrow> manager \<Rightarrow> bool" where
  "consented x m is m' \<longleftrightarrow> mgr_inv m' \<and> tget AUTO_ACCEPT_KEY (kv_tbl (mstore m')) = tget AUTO_ACCEPT_KEY (kv_tbl (mstore m)) \<and>
     (pending_of m' x \<noteq> None \<longrightarrow> asked x is) \<and> (\<forall>f. trust m' x = Some f \<longrightarrow> trust m x = Some f \<or> asked x is)"

lemma consented_setting:
  assumes "consented x m is m'"
  shows "consented x m is (snd (set_plugin env d p b m'))"
proof -
  have "plugin_key d p \<noteq> AUTO_ACCEPT_KEY" by (simp add: plugin_key_def AUTO_ACCEPT_KEY_def)
  then show ?thesis
    using assms by (auto simp: consented_def set_plugin_def kv_set_def mgr_inv_def pending_of_def trust_def connected_now_def
        split: option.splits)
qed

lemma consented_ran:
  assumes "consented x m is m'"
  shows "consented x m is (mgr_input_step (TaskRan e fs evs) m')"
  using assms by (auto simp: consented_def mgr_inv_def pending_of_def trust_def connected_now_def)

lemma step_keeps_settings: "kv_tbl (mstore (mgr_step env c m)) = kv_tbl (mstore m)"
proof -
  obtain y where "\<And>rid. c \<noteq> StartPairing y rid"
  proof (cases c)
    case (StartPairing d r)
    then show ?thesis using that [of "CHR ''x'' # d"] by simp
  qed auto
  then show ?thesis using frame_step [of c y m env] by (simp add: frame_def)
qed

lemma consented_command:
  assumes "consented x m is m'" "tget AUTO_ACCEPT_KEY (kv_tbl (mstore m)) \<noteq> Some ''1''"
    and "issued who c" "input_ok (Deliver env c) m'"
  shows "consented x m (is @ [Issue who env c]) (mgr_step env c m')"
proof -
  let ?is = "is @ [Issue who env c]"
  have inv: "mgr_inv m'" and auto: "\<not> auto_accept env m'"
    using assms(1,2) by (auto simp: consented_def auto_accept_def kv_get_def AUTO_ACCEPT_KEY_def split: option.splits)
  have inv': "mgr_inv (mgr_step env c m')" using mgr.step_inv [OF inv assms(4)] by simp
  have granted: "asked x ?is" if "grants env c m' x"
    using that auto assms(1,3) issued_pairing
    by (auto simp: grants_def consented_def intro: asked_mono split: command.splits)
  have "trust m x = Some f \<or> asked x ?is" if "trust (mgr_step env c m') x = Some f" for f
    using that mgr_step_trust [OF inv, of env c x] granted assms(1)
    by (auto simp: consented_def intro: asked_mono split: if_splits)
  moreover have "asked x ?is" if "pending_of (mgr_step env c m') x \<noteq> None"
  proof (cases "\<exists>rid. c = StartPairing x rid")
    case True
    then show ?thesis using assms(3) issued_pairing by blast
  next
    case False
    then have "pending_of m' x \<noteq> None" using frame_step [of c x m' env] that by (simp add: frame_def)
    then show ?thesis using assms(1) by (auto simp: consented_def intro: asked_mono)
  qed
  moreover have "kv_tbl (mstore (mgr_step env c m')) = kv_tbl (mstore m')"
    by (rule step_keeps_settings)
  ultimately show ?thesis using inv' assms(1) by (simp add: consented_def)
qed

lemma consented_run:
  assumes "mgr_inv m" "pending_of m x = None" "tget AUTO_ACCEPT_KEY (kv_tbl (mstore m)) \<noteq> Some ''1''"
    and "guarded daemon_step daemon_ok is m"
  shows "consented x m is (fold daemon_step is m)"
  using assms(4)
proof (induction "is" rule: rev_induct)
  case Nil
  then show ?case using assms(1,2) by (simp add: consented_def)
next
  case (snoc i "is")
  have IH: "consented x m is (fold daemon_step is m)" and ok: "daemon_ok i (fold daemon_step is m)"
    using snoc by (auto simp: guarded_append)
  have weaken: "consented x m is m' \<Longrightarrow> consented x m (is @ [i]) m'" for m'
    by (auto simp: consented_def intro: asked_mono)
  show ?case
  proof (cases i)
    case (Issue who env c)
    then show ?thesis using consented_command [OF IH assms(3)] ok by simp
  next
    case (Ran e fs evs)
    then show ?thesis using weaken [OF consented_ran [OF IH]] by simp
  next
    case (SaveSetting env d p b)
    then show ?thesis using weaken [OF consented_setting [OF IH]] by simp
  qed
qed


definition demo_status :: string where
  "demo_status = ''Uid: 7 7 7 7''"

definition demo_client :: "request \<Rightarrow> origin" where
  "demo_client req = FromClient (Some demo_status) (Inr 7) req"

definition demo_daemon :: "daemon_input list" where
  "demo_daemon = [Issue FromNetwork calm (Connected ''d'' demo_peer), Issue (demo_client (DevicePair ''d'')) calm (StartPairing ''d'' 1),
     Issue FromTask calm (PacketFrom ''d'' (demo_pair True))]"

lemma demo_owner: "peer_is_owner (Some demo_status) (Inr 7)"
  by (simp add: peer_is_owner_def current_uid_def demo_status_def strip_prefix_def split_whitespace_def is_whitespace_def
      parse_u32_def parse_uint_def is_digit_def read_nat_def)

end
