(* ===== verification/Hf_Tls.thy ===== *)
theory Hf_Tls
  imports Hf_Startup
begin

text \<open>
  The TLS configurations a device uses (\<^verbatim>\<open>client_config\<close> and \<^verbatim>\<open>server_config\<close> of \<^verbatim>\<open>daemon/src/tls.rs\<close>), and what they
  mean for the certificate a peer sees.

  The TLS library says whether its protocol versions are available and whether it takes a certificate and
  key.
\<close>

section \<open>Configurations\<close>

datatype signature_scheme =
    RSA_PKCS1_SHA256
  | RSA_PKCS1_SHA384
  | RSA_PKCS1_SHA512
  | RSA_PSS_SHA256
  | RSA_PSS_SHA384
  | RSA_PSS_SHA512
  | ECDSA_NISTP256_SHA256
  | ECDSA_NISTP384_SHA384
  | ED25519

definition supported_verify_schemes :: "signature_scheme list" where
  "supported_verify_schemes = [RSA_PKCS1_SHA256, RSA_PKCS1_SHA384, RSA_PKCS1_SHA512, RSA_PSS_SHA256, RSA_PSS_SHA384, RSA_PSS_SHA512,
     ECDSA_NISTP256_SHA256, ECDSA_NISTP384_SHA384, ED25519]"

record tls_config =
  tc_verifier :: verifier
  tc_schemes :: "signature_scheme list"
  tc_hints :: "bytes list"
  tc_chain :: "bytes list"
  tc_key :: bytes

record tls_lib =
  tl_versions :: "string option"
  tl_refuses :: "bytes list \<Rightarrow> bytes \<Rightarrow> string option"

definition private_key :: "cert_pair \<Rightarrow> core_error + bytes" where
  "private_key pair = Ok (key_der_pkcs8 pair)"

definition own_cert :: "tls_lib \<Rightarrow> string \<Rightarrow> verifier \<Rightarrow> cert_pair \<Rightarrow> core_error + tls_config" where
  "own_cert lib stage v pair = (case private_key pair of
       Inl e \<Rightarrow> Err e
     | Inr key \<Rightarrow> (case tl_refuses lib [cert_der pair] key of
           Some e \<Rightarrow> Err (COther (stage @ '': '' @ e))
         | None \<Rightarrow> Ok \<lparr>tc_verifier = v, tc_schemes = supported_verify_schemes, tc_hints = [], tc_chain = [cert_der pair], tc_key = key\<rparr>))"

definition client_config :: "tls_lib \<Rightarrow> cert_pair \<Rightarrow> core_error + tls_config" where
  "client_config lib pair = (case tl_versions lib of
       Some e \<Rightarrow> Err (COther (''rustls protocol versions: '' @ e))
     | None \<Rightarrow> own_cert lib ''client auth cert'' AcceptAnyServer pair)"

definition server_config :: "tls_lib \<Rightarrow> cert_pair \<Rightarrow> core_error + tls_config" where
  "server_config lib pair = (case tl_versions lib of
       Some e \<Rightarrow> Err (COther (''rustls protocol versions: '' @ e))
     | None \<Rightarrow> own_cert lib ''server cert'' AcceptAnyClient pair)"

text \<open>The two roles of a connection (\<^verbatim>\<open>Wire\<close>)\<close>

datatype wire_role = WireClient | WireServer

fun own_config :: "wire_role \<Rightarrow> tls_lib \<Rightarrow> cert_pair \<Rightarrow> core_error + tls_config" where
  "own_config WireClient = client_config"
| "own_config WireServer = server_config"

definition link_over :: "core_error + string \<Rightarrow> core_error + tls_config \<Rightarrow> link" where
  "link_over tcp config = \<lparr>link_addr = tcp, link_config = (case config of Inl e \<Rightarrow> Some e | Inr _ \<Rightarrow> None)\<rparr>"

section \<open>The certificate a peer sees\<close>

text \<open>
  TLS as it is specified, between devices of this program: a connection that is established has presented the
  certificates of the configuration at the other end.
\<close>

definition presents :: "tls_config tls_engine \<Rightarrow> bool" where
  "presents engine = (\<forall>v peer certs. engine v peer = Ok certs \<longrightarrow> certs = Some (tc_chain peer))"

lemma own_config_chain: "own_config role lib pair = Ok cfg \<Longrightarrow> tc_chain cfg = [cert_der pair]"
  by (cases role) (auto simp: client_config_def server_config_def own_cert_def split: option.splits sum.splits)

lemma peer_sees_own_cert:
  assumes "presents engine" "own_config role lib pair = Ok cfg" "upgrade_on engine digest v cfg l = Ok t"
  shows "peer_fingerprint t = digest (cert_der pair)"
proof -
  have "certs = Some [cert_der pair]" if "engine v cfg = Ok certs" for certs
    using that assms(1) own_config_chain [OF assms(2)] unfolding presents_def by metis
  then show ?thesis using assms(3)
    by (auto simp: upgrade_on_def tls_upgrade_def fingerprint_of_first_def split: sum.splits option.splits list.splits)
qed

text \<open>
  When the devices reach each other and their libraries take the certificates, both roles get a link that TLS can
  start on.
\<close>

lemma link_ready:
  assumes "tl_versions lib = None" "tl_refuses lib [cert_der pair] (key_der_pkcs8 pair) = None"
  shows "\<exists>cfg. own_config role lib pair = Ok cfg \<and> link_config (link_over tcp (own_config role lib pair)) = None"
  using assms by (cases role) (simp_all add: client_config_def server_config_def own_cert_def private_key_def link_over_def)

end
