(* ===== verification/Hf_Release.thy ===== *)
theory Hf_Release
  imports Hf_Device
begin

text \<open>
  The release tooling (\<^verbatim>\<open>xtask/src/main.rs\<close>): packing the built programs with their checksums, and writing
  shell completions.

  SHA-256 and the program that prints completions are parameters.  A failed copy or write leaves what the
  operating system says it leaves.
\<close>

unbundle bit_operations_syntax

section \<open>Checksums\<close>

definition HEX :: string where
  "HEX = ''0123456789abcdef''"

definition hex_encode :: "bytes \<Rightarrow> string" where
  "hex_encode bs = concat (map (\<lambda>b. [HEX ! unat (drop_bit 4 b), HEX ! unat (b AND 0x0f)]) bs)"

definition HASH_BUFFER :: nat where
  "HASH_BUFFER = 64 * 1024"

text \<open>The loop over a file: each read returns some of the bytes that are left, and none only at the end.\<close>

function hash_loop :: "(nat \<Rightarrow> nat) \<Rightarrow> nat \<Rightarrow> bytes \<Rightarrow> bytes \<Rightarrow> bytes" where
  "hash_loop sizes i rest acc = (if rest = [] then acc
     else let n = max 1 (min (sizes i) HASH_BUFFER) in hash_loop sizes (Suc i) (drop n rest) (acc @ take n rest))"
  by pat_completeness auto
termination by (relation "measure (\<lambda>(_, _, rest, _). length rest)") (auto simp: max_def)

declare hash_loop.simps [simp del]

section \<open>Packing\<close>

record dist_env =
  de_target :: "string option"
  de_mkdir :: "io_error option"
  de_copy :: "path \<Rightarrow> (io_error \<times> bytes option) option"
  de_read :: "path \<Rightarrow> io_error option"
  de_sizes :: "nat \<Rightarrow> nat"
  de_write :: "(io_error \<times> bytes option) option"
  de_sha :: "bytes \<Rightarrow> bytes"

datatype dist_error =
    NotBuilt string path
  | Failed string io_error
  | HfctlFailed string

definition BINARIES :: "string list" where
  "BINARIES = [''handfastd'', ''hfctl'', ''handfast-gui'']"

definition release_dir :: "dist_env \<Rightarrow> path" where
  "release_dir env = join (case de_target env of Some d \<Rightarrow> d | None \<Rightarrow> ''target'') ''release''"

definition left_behind :: "path \<Rightarrow> bytes option \<Rightarrow> fs \<Rightarrow> fs" where
  "left_behind p left fs = (case left of None \<Rightarrow> fs | Some bs \<Rightarrow> fs(p \<mapsto> bs))"

text \<open>\<^verbatim>\<open>std::fs::copy\<close>: the destination is truncated before the source is read, which matters when they are the same file.\<close>

definition copy_file :: "(io_error \<times> bytes option) option \<Rightarrow> path \<Rightarrow> path \<Rightarrow> fs \<Rightarrow> (io_error + unit) \<times> fs" where
  "copy_file fault src dest fs = (case fs src of
       None \<Rightarrow> (Err NotFound, fs)
     | Some bs \<Rightarrow> (case fault of
           Some (e, left) \<Rightarrow> (Err e, left_behind dest left fs)
         | None \<Rightarrow> (Ok (), fs(dest \<mapsto> (if src = dest then [] else bs)))))"

definition sha256_file :: "dist_env \<Rightarrow> path \<Rightarrow> fs \<Rightarrow> io_error + string" where
  "sha256_file env p fs = (case fs p of
       None \<Rightarrow> Err NotFound
     | Some bs \<Rightarrow> (case de_read env p of
           Some e \<Rightarrow> Err e
         | None \<Rightarrow> Ok (hex_encode (de_sha env (hash_loop (de_sizes env) 0 bs [])))))"

fun pack :: "dist_env \<Rightarrow> path \<Rightarrow> string list \<Rightarrow> (string \<times> string) list \<Rightarrow> fs \<Rightarrow>
    (dist_error + (string \<times> string) list) \<times> fs" where
  "pack env out [] hashes fs = (Ok hashes, fs)"
| "pack env out (name # names) hashes fs =
     (let candidate = join (release_dir env) name; dest = join out name in
      if fs candidate = None then (Err (NotBuilt name candidate), fs)
      else case copy_file (de_copy env candidate) candidate dest fs of
        (Inl e, fs1) \<Rightarrow> (Err (Failed (''copying '' @ candidate) e), fs1)
      | (Inr _, fs1) \<Rightarrow> (case sha256_file env dest fs1 of
            Inl e \<Rightarrow> (Err (Failed [] e), fs1)
          | Inr digest \<Rightarrow> pack env out names (hashes @ [(digest, name)]) fs1))"

definition checksum_lines :: "(string \<times> string) list \<Rightarrow> bytes" where
  "checksum_lines hashes = map of_char (concat (map (\<lambda>(digest, name). digest @ ''  '' @ name @ [CHR 0x0A]) hashes))"

definition write_out :: "(io_error \<times> bytes option) option \<Rightarrow> path \<Rightarrow> bytes \<Rightarrow> fs \<Rightarrow> (io_error + unit) \<times> fs" where
  "write_out fault p bs fs = (case fault of
       Some (e, left) \<Rightarrow> (Err e, left_behind p left fs)
     | None \<Rightarrow> (Ok (), fs(p \<mapsto> bs)))"

definition release_dist :: "dist_env \<Rightarrow> path \<Rightarrow> fs \<Rightarrow> (dist_error + unit) \<times> fs" where
  "release_dist env out fs = (case de_mkdir env of
       Some e \<Rightarrow> (Err (Failed ''creating dist dir'' e), fs)
     | None \<Rightarrow> (case pack env out BINARIES [] fs of
           (Inl e, fs1) \<Rightarrow> (Err e, fs1)
         | (Inr hashes, fs1) \<Rightarrow> (case write_out (de_write env) (join out ''SHA256SUMS'') (checksum_lines hashes) fs1 of
               (Inl e, fs2) \<Rightarrow> (Err (Failed ''writing SHA256SUMS'' e), fs2)
             | (Inr _, fs2) \<Rightarrow> (Ok (), fs2))))"

section \<open>Completions\<close>

datatype xshell = Bash | Zsh | Fish | PowerShell | Elvish

fun hfctl_name :: "xshell \<Rightarrow> string" where
  "hfctl_name Bash = ''bash''"
| "hfctl_name Zsh = ''zsh''"
| "hfctl_name Fish = ''fish''"
| "hfctl_name PowerShell = ''powershell''"
| "hfctl_name Elvish = ''elvish''"

fun completion_file :: "xshell \<Rightarrow> string" where
  "completion_file Bash = ''hfctl.bash''"
| "completion_file Zsh = ''_hfctl''"
| "completion_file Fish = ''hfctl.fish''"
| "completion_file PowerShell = ''_hfctl.ps1''"
| "completion_file Elvish = ''hfctl.elv''"

text \<open>A run of the program: it could not be started, or it ended with or without success, its output and its errors.\<close>

type_synonym program = "path \<Rightarrow> string list \<Rightarrow> io_error + (bool \<times> bytes \<times> string)"

definition completions :: "dist_env \<Rightarrow> program \<Rightarrow> xshell \<Rightarrow> path \<Rightarrow> fs \<Rightarrow> (dist_error + unit) \<times> fs" where
  "completions env run sh out fs =
     (let hfctl = join (release_dir env) ''hfctl'' in
      if fs hfctl = None then (Err (NotBuilt ''hfctl'' hfctl), fs)
      else case de_mkdir env of
        Some e \<Rightarrow> (Err (Failed ''creating completions dir'' e), fs)
      | None \<Rightarrow> (case run hfctl [''completions'', hfctl_name sh] of
            Inl e \<Rightarrow> (Err (Failed ''running hfctl completions'' e), fs)
          | Inr (success, output, errors) \<Rightarrow>
              if \<not> success then (Err (HfctlFailed errors), fs)
              else (case write_out (de_write env) (join out (completion_file sh)) output fs of
                  (Inl e, fs1) \<Rightarrow> (Err (Failed ''writing completion'' e), fs1)
                | (Inr _, fs1) \<Rightarrow> (Ok (), fs1))))"

section \<open>Facts\<close>

text \<open>The local encoder agrees with the one of the daemon.\<close>

lemma HEX_nth: "n < 16 \<Longrightarrow> HEX ! n = hex_digit n"
proof -
  have "\<forall>n \<in> set [0..<16]. HEX ! n = hex_digit n" by code_simp
  then show "HEX ! n = hex_digit n" if "n < 16"
    by (rule bspec) (simp only: set_upt atLeastLessThan_iff le0 that simp_thms)
qed

lemma hex_encode_hex: "hex_encode bs = hex bs"
proof -
  have "[HEX ! unat (drop_bit 4 b), HEX ! unat (b AND 0x0f)] = hex_byte b" for b :: byte
  proof -
    have "unat (drop_bit 4 b) = unat b div 16" by (simp add: drop_bit_eq_div unat_div_distrib)
    moreover have "b AND 0x0f = take_bit 4 b" by (simp add: take_bit_eq_mask mask_eq_exp_minus_1)
    then have "unat (b AND 0x0f) = unat b mod 16" by (simp add: take_bit_eq_mod unat_mod_distrib)
    moreover have "unat b < 256" using unsigned_less [of b, where 'a = nat] by simp
    ultimately show ?thesis by (simp add: hex_byte_def HEX_nth)
  qed
  then show ?thesis by (simp add: hex_encode_def hex_def)
qed

lemma hash_loop_all: "hash_loop sizes i rest acc = acc @ rest"
proof (induction sizes i rest acc rule: hash_loop.induct)
  case (1 sizes i rest acc)
  then show ?case by (subst hash_loop.simps) (simp add: Let_def)
qed

text \<open>A directory with the separator that joining puts after it\<close>

definition dir_of :: "path \<Rightarrow> path" where
  "dir_of d = (if d = [] \<or> last d = CHR ''/'' then d else d @ ''/'')"

definition plain_name :: "string \<Rightarrow> bool" where
  "plain_name n = (n \<noteq> [] \<and> CHR ''/'' \<notin> set n)"

lemma join_plain: "plain_name n \<Longrightarrow> join d n = dir_of d @ n"
  by (cases n) (auto simp: join_def dir_of_def plain_name_def)

lemma join_plain_eq:
  assumes "plain_name n" "plain_name n'"
  shows "join a n = join b n' \<longleftrightarrow> dir_of a = dir_of b \<and> n = n'"
proof
  have dir: "takeWhile (\<lambda>c. c \<noteq> CHR ''/'') (rev (dir_of d @ m)) = rev m" if "plain_name m" for d m
  proof -
    have "takeWhile (\<lambda>c. c \<noteq> CHR ''/'') (rev m @ rev (dir_of d)) = rev m @ takeWhile (\<lambda>c. c \<noteq> CHR ''/'') (rev (dir_of d))"
      using that by (intro takeWhile_append2) (auto simp: plain_name_def)
    moreover have "takeWhile (\<lambda>c. c \<noteq> CHR ''/'') (rev (dir_of d)) = []"
      by (cases d rule: rev_cases) (auto simp: dir_of_def)
    ultimately show ?thesis by simp
  qed
  assume "join a n = join b n'"
  then have eq: "dir_of a @ n = dir_of b @ n'" using assms by (simp add: join_plain)
  then have "rev n = rev n'" using dir [OF assms(1), of a] dir [OF assms(2), of b] by simp
  then show "dir_of a = dir_of b \<and> n = n'" using eq by simp
qed (use assms in \<open>simp add: join_plain\<close>)

lemma pack_effect:
  assumes "pack env out names hashes fs = (Ok hs, fs')" "dir_of out \<noteq> dir_of (release_dir env)"
    and "list_all plain_name names" "distinct names"
  shows "(\<forall>n \<in> set names. fs (join (release_dir env) n) \<noteq> None \<and> fs' (join out n) = fs (join (release_dir env) n)) \<and>
    hs = hashes @ map (\<lambda>n. (hex (de_sha env (the (fs (join (release_dir env) n)))), n)) names \<and>
    (\<forall>p. p \<notin> join out ` set names \<longrightarrow> fs' p = fs p)"
  using assms(1,3,4)
proof (induction names arbitrary: hashes fs)
  case (Cons name names)
  let ?src = "join (release_dir env) name" and ?dest = "join out name"
  obtain bs where bs: "fs ?src = Some bs" using Cons.prems(1) by (auto simp: Let_def split: if_splits)
  have apart: "?src \<noteq> ?dest" using Cons.prems(2) assms(2) by (simp add: join_plain_eq)
  obtain u fs1 where cp: "copy_file (de_copy env ?src) ?src ?dest fs = (Inr u, fs1)"
    using Cons.prems(1) bs by (auto simp: Let_def split: prod.splits sum.splits)
  then have fs1: "fs1 = fs(?dest \<mapsto> bs)" using bs apart by (auto simp: copy_file_def split: option.splits)
  have digest: "sha256_file env ?dest fs1 = Inr (hex (de_sha env bs))"
      and rest: "pack env out names (hashes @ [(hex (de_sha env bs), name)]) fs1 = (Ok hs, fs')"
    using Cons.prems(1) bs cp fs1
    by (auto simp: Let_def sha256_file_def hash_loop_all hex_encode_hex split: option.splits)
  have src: "fs1 (join (release_dir env) n) = fs (join (release_dir env) n)" if "plain_name n" for n
    using that Cons.prems(2) assms(2) by (simp add: fs1 join_plain_eq)
  have plain: "list_all plain_name names" "distinct names" "name \<notin> set names" "\<And>n. n \<in> set names \<Longrightarrow> plain_name n"
    using Cons.prems(2,3) by (auto simp: list_all_iff)
  have dest: "?dest \<notin> join out ` set names" using plain Cons.prems(2) by (auto simp: join_plain_eq)
  show ?case using Cons.IH [OF rest plain(1,2)] src plain dest bs fs1 by (auto simp: list_all_iff)
qed simp

lemma BINARIES_plain: "list_all plain_name (''SHA256SUMS'' # BINARIES)" "distinct (''SHA256SUMS'' # BINARIES)"
  by (simp_all add: BINARIES_def plain_name_def)

text \<open>Packing succeeds when every program was built and the system refuses nothing.\<close>

lemma pack_succeeds:
  assumes "de_copy env = (\<lambda>_. None)" "de_read env = (\<lambda>_. None)" "list_all (\<lambda>n. fs (join (release_dir env) n) \<noteq> None) names"
  shows "\<exists>hs fs'. pack env out names hashes fs = (Ok hs, fs')"
  using assms(3)
proof (induction names arbitrary: hashes fs)
  case (Cons name names)
  then obtain bs where bs: "fs (join (release_dir env) name) = Some bs" by auto
  have "\<exists>hs fs'. pack env out names h (fs(join out name \<mapsto> c)) = (Ok hs, fs')" for h c
    by (rule Cons.IH) (use Cons.prems in \<open>auto simp: list_all_iff\<close>)
  then show ?case using bs assms(1,2) by (simp add: copy_file_def sha256_file_def Let_def)
qed simp

lemma dist_succeeds:
  assumes "de_copy env = (\<lambda>_. None)" "de_read env = (\<lambda>_. None)" "de_mkdir env = None" "de_write env = None"
    and "list_all (\<lambda>n. fs (join (release_dir env) n) \<noteq> None) BINARIES"
  shows "\<exists>fs'. release_dist env out fs = (Ok (), fs')"
proof -
  obtain hs fs1 where "pack env out BINARIES [] fs = (Ok hs, fs1)" using pack_succeeds [OF assms(1,2,5)] by blast
  then show ?thesis using assms(3,4) by (simp add: release_dist_def write_out_def)
qed

text \<open>A release can be verified: when packing into a directory other than the build directory succeeds, every
  program is there with exactly the bytes that were built, the checksum file has one line for each, in order, with the
  SHA-256 of those bytes in hexadecimal and its name, and no other file has changed.\<close>

lemma dist_is_verifiable:
  assumes "release_dist env out fs = (Ok (), fs')" "dir_of out \<noteq> dir_of (release_dir env)"
  shows "list_all (\<lambda>name. fs (join (release_dir env) name) \<noteq> None \<and> fs' (join out name) = fs (join (release_dir env) name)) BINARIES \<and>
    fs' (join out ''SHA256SUMS'') = Some (map of_char (concat (map (\<lambda>name.
      hex (de_sha env (the (fs' (join out name)))) @ ''  '' @ name @ [CHR 0x0A]) BINARIES))) \<and>
    (\<forall>p. p \<notin> join out ` set (''SHA256SUMS'' # BINARIES) \<longrightarrow> fs' p = fs p)"
proof -
  obtain hs fs1 where pk: "pack env out BINARIES [] fs = (Ok hs, fs1)"
      and fs': "fs' = fs1(join out ''SHA256SUMS'' \<mapsto> checksum_lines hs)"
    using assms(1) by (auto simp: release_dist_def write_out_def split: option.splits prod.splits sum.splits)
  have sums: "join out n \<noteq> join out ''SHA256SUMS''" if "n \<in> set BINARIES" for n
    using that BINARIES_plain join_plain_eq [of n "''SHA256SUMS''" out out] by (auto simp: list_all_iff)
  note eff = pack_effect [OF pk assms(2) _ _] BINARIES_plain
  have got: "fs (join (release_dir env) n) \<noteq> None \<and> fs' (join out n) = fs (join (release_dir env) n)" if "n \<in> set BINARIES" for n
    using that eff sums by (auto simp: fs')
  have hs: "hs = map (\<lambda>n. (hex (de_sha env (the (fs' (join out n)))), n)) BINARIES"
    using eff got by (auto intro: map_cong)
  have "fs' (join out ''SHA256SUMS'') = Some (checksum_lines hs)" by (simp add: fs')
  also have "checksum_lines hs = map of_char (concat (map (\<lambda>name.
      hex (de_sha env (the (fs' (join out name)))) @ ''  '' @ name @ [CHR 0x0A]) BINARIES))"
    by (simp add: hs checksum_lines_def comp_def)
  finally have lines: "fs' (join out ''SHA256SUMS'') = Some (map of_char (concat (map (\<lambda>name.
      hex (de_sha env (the (fs' (join out name)))) @ ''  '' @ name @ [CHR 0x0A]) BINARIES)))" .
  have "fs' p = fs p" if "p \<notin> join out ` set (''SHA256SUMS'' # BINARIES)" for p
    using that eff by (auto simp: fs')
  then show ?thesis using got lines by (simp add: list_all_iff)
qed

text \<open>Packing a program into the directory it was built in empties it, and reports success.\<close>

lemma packing_in_place_empties:
  assumes "fs (join (release_dir env) name) \<noteq> None" "de_copy env (join (release_dir env) name) = None" "de_read env (join (release_dir env) name) = None"
  shows "\<exists>hs fs'. pack env (release_dir env) [name] [] fs = (Ok hs, fs') \<and> fs' (join (release_dir env) name) = Some []"
  using assms by (auto simp: copy_file_def sha256_file_def Let_def)

end
