(* ===== verification/Spec2Isabelle.thy ===== *)
theory Spec2Isabelle
  imports Hf_Hfctl Hf_Window Hf_View Hf_Daemon Hf_Tls Hf_Release
begin

text \<open>
  Handfast is a desktop service that pairs with phones and other desktops over the KDE Connect protocol.  The
  daemon discovers devices, connects to them over TLS, pins their certificates when the user pairs with
  them, exchanges packets with plugins, and sends and receives files; clients on the same machine (a
  command line and terminal interface, and a graphical one) control it over a local socket.  This
  development models it from the bytes on the wire to the frame on the screen, and proves
  what makes it correct.  All paths below are under \<^verbatim>\<open>src/crates\<close>.

  \<^bold>\<open>Conventions.\<close>  Structs are records, enums datatypes, functions of the code are functions of the same name
  where it is free.  Machine integers are words and wrap as in the code; sizes and counters that cannot
  overflow are natural numbers.  Errors are values: \<^verbatim>\<open>Ok\<close> and \<^verbatim>\<open>Err\<close> are the right and left injections of a
  sum.  State is passed explicitly.  Maps are association lists without duplicate keys, files a function
  from paths to bytes.  What the outside decides (faults of the operating system, the clock, which
  bytes arrive and in what pieces, how a library answers) is an argument, mostly a field of an
  environment record, and theorems hold for all of its values.  Code of libraries (JSON text, SHA-256, TLS,
  the keymap library, the layout engine of the terminal) is a parameter with its documented behaviour
  as a named hypothesis where a theorem needs it.  Characters are code points up to U+00FF.
  Interleavings are sequences of steps; a step function with the condition under which a step can happen
  is an instance of the locale \<^verbatim>\<open>guarded_system\<close>, whose lemmas give invariants of all runs.

  \<^bold>\<open>Foundations.\<close>
  \<^item> \<^verbatim>\<open>Hf_Prelude\<close>: tables, words, text functions of the standard library, and the locale \<^verbatim>\<open>guarded_system\<close>.
  \<^item> \<^verbatim>\<open>Hf_Json\<close>, \<^verbatim>\<open>Hf_Float\<close>: JSON values with their accessors; rounding, clamping and conversion of floats, as
    rationals with infinities and NaN.
  \<^item> \<^verbatim>\<open>Hf_Bus\<close>, \<^verbatim>\<open>Hf_Supervise\<close> (\<^verbatim>\<open>core/src/bus.rs\<close>, \<^verbatim>\<open>supervise.rs\<close>): events; the supervision tree with its watchers by
    program point.  Crashes back off exponentially up to the cap and are reported.

  \<^bold>\<open>Protocol.\<close>
  \<^item> \<^verbatim>\<open>Hf_Packet\<close> (\<^verbatim>\<open>protocol/src\<close>): packets, identities, newline framing.  Reading a frame in any division
    into chunks meets the specification on the undivided stream; what is written is read back.
  \<^item> \<^verbatim>\<open>Hf_Plugins\<close> (\<^verbatim>\<open>plugins/src\<close>): every plugin as a handler, against one contract locale: foreign packets are
    ignored, and at most one packet of an announced type answers.
  \<^item> \<^verbatim>\<open>Hf_Handshake\<close>, \<^verbatim>\<open>Hf_Tls\<close> (\<^verbatim>\<open>daemon/src/handshake.rs\<close>, \<^verbatim>\<open>tls.rs\<close>, \<^verbatim>\<open>payload.rs\<close>, \<^verbatim>\<open>discovery.rs\<close>): discovery, the
    plaintext and the encrypted introduction, the configurations of both roles.  Accepted handshakes are
    verified, two daemons that reach each other complete theirs, announcements are heard.

  \<^bold>\<open>Trust.\<close>
  \<^item> \<^verbatim>\<open>Hf_Store\<close> (\<^verbatim>\<open>core/src/store.rs\<close>): the database tables, against one contract locale for keyed tables, and
    atomic replacement of files.
  \<^item> \<^verbatim>\<open>Hf_Device\<close>, \<^verbatim>\<open>Hf_Trust\<close>, \<^verbatim>\<open>Hf_Registry\<close> (\<^verbatim>\<open>daemon/src/device.rs\<close>): the device manager, an actor with one
    handler for each command.  A device becomes trusted only through consent and under the certificate
    it presented; the exact effect of every command on trust; connected paired devices present their pin;
    a certificate other than the pin is turned away; the stored rows represent the trust in memory, so a
    restart keeps it; every request is answered once; transfers are registered soundly.
  \<^item> \<^verbatim>\<open>Hf_Startup\<close> (\<^verbatim>\<open>protocol/src/tls.rs\<close>, \<^verbatim>\<open>core/src/paths.rs\<close>, parts of \<^verbatim>\<open>daemon/src/main.rs\<close>): who the daemon is.  Its
    identifier and certificate survive restarts.

  \<^bold>\<open>Files.\<close>
  \<^item> \<^verbatim>\<open>Hf_Transfer\<close> (\<^verbatim>\<open>daemon/src/transfer.rs\<close>): staging of downloads.  A download ends with exactly the bytes
    received, under a name that stays in its directory; staging files are distinct and as long as recorded.
  \<^item> \<^verbatim>\<open>Hf_Backends\<close>, \<^verbatim>\<open>Hf_Stream\<close> (\<^verbatim>\<open>backends.rs\<close>, \<^verbatim>\<open>device.rs\<close>): sources and destinations outside the file
    system, and the tasks that stream.  A receive is complete for every division into reads, and a failed
    one leaves no trace.

  \<^bold>\<open>Control.\<close>
  \<^item> \<^verbatim>\<open>Hf_Codec\<close>, \<^verbatim>\<open>Hf_Proto\<close>, \<^verbatim>\<open>Hf_Ipc\<close> (\<^verbatim>\<open>ipc/src\<close>): length-prefixed frames, messages, sessions, and the
    client with its reader task and time-outs.  The incremental reader refines the stream and is bounded;
    requests are handled in order and every caller gets its own answer; no caller waits for ever.
  \<^item> \<^verbatim>\<open>Hf_Main\<close>, \<^verbatim>\<open>Hf_Daemon\<close> (\<^verbatim>\<open>daemon/src/main.rs\<close>, \<^verbatim>\<open>ipc/src/server.rs\<close>): every request, start and shutdown, and the
    daemon as a whole: only a client of its owner can make a device trusted.
  \<^item> \<^verbatim>\<open>Hf_Services\<close> (\<^verbatim>\<open>daemon/src/dbus.rs\<close>, \<^verbatim>\<open>sftp.rs\<close>): battery and notification listeners, file server
    processes.  Levels are reported exactly when they change, no file server outlives its session.

  \<^bold>\<open>Desktop.\<close>
  \<^item> \<^verbatim>\<open>Hf_Session\<close>, \<^verbatim>\<open>Hf_Wayland_Input\<close>, \<^verbatim>\<open>Hf_Desktop\<close> (\<^verbatim>\<open>wayland/src\<close>): session detection, virtual input, the portal,
    clipboard and idle inhibition, as the requests they send.  They keep the protocols, typed keys arrive, the portal
    is used within its grant, the clipboard watcher forwards the news and nothing else, idle inhibition is
    balanced.

  \<^bold>\<open>Clients.\<close>
  \<^item> \<^verbatim>\<open>Hf_Tui_Model\<close>, \<^verbatim>\<open>Hf_Cmd\<close>, \<^verbatim>\<open>Hf_Filemanager\<close>, \<^verbatim>\<open>Hf_Hfctl\<close> (\<^verbatim>\<open>tui/src\<close>): the command line.  Exit statuses, the menus
    of file managers, and across all layers: once \<^verbatim>\<open>hfctl unpair\<close> has succeeded every client sees it.
  \<^item> \<^verbatim>\<open>Hf_Tui\<close>, \<^verbatim>\<open>Hf_View\<close>: the terminal interface, its loop with background tasks, and what it draws.  Its
    state stays well formed, its work ends, and the screen shows what a key will act on.
  \<^item> \<^verbatim>\<open>Hf_Gui\<close>, \<^verbatim>\<open>Hf_Window\<close> (\<^verbatim>\<open>gui/src\<close>): the graphical client, its driver and its window, which only offers what it
    shows.
  \<^item> \<^verbatim>\<open>Hf_Release\<close> (\<^verbatim>\<open>xtask/src\<close>): packing a release with its checksums.

  This theory adds a property of the whole: a peer recognises a daemon that was restarted.

  \<^bold>\<open>Bounds.\<close>  No definition has fuel: loops are structural or come with a termination proof, and endless loops
  (watchers, listeners, reconnects) are functions of the finite sequence of what happened so far, so that
  their theorems hold at every moment.  Capacities and sizes are those of the code.

  \<^bold>\<open>Not modelled.\<close>
  \<^item> Argument parsing, logging, the panic hook, signals and the allocator: calls into libraries.
  \<^item> Opening the database, creating sockets and threads: the operating system; their failures are arguments
    where the code handles them.
  \<^item> The capacity of the broadcast channel: a subscriber that lags is an input of the loops that read it, not
    a consequence of how fast they run.
  \<^item> Delays: back-off and time-outs are values or events; that a timer fires after its time is the runtime.
  \<^item> Builds for other systems or without features, where an operation answers that it is not supported.
  \<^item> Sizes, spacing and colours of the graphical window, and putting widgets on the screen.
  \<^item> The Python program written for file managers, except the list of devices it shows.
  \<^item> Tests, benchmarks, fuzz targets and packaging scripts.
\<close>

section \<open>A device that restarts\<close>

lemma known_certificate_admitted:
  assumes "trust m d = Some f" "hex (peer_fingerprint t) = f"
  shows "trust (mgr_step env (Connected d t) m) d = Some f \<and> live_of (mgr_step env (Connected d t) m) d = Some f \<and>
    Option.bind (tget d (devices (mgr_step env (Connected d t) m))) outbound = Some \<lparr>conn_id = next_conn m, queued = []\<rparr>"
proof -
  obtain st where st: "tget d (devices m) = Some st" "pinned_fingerprint st = Some f"
    using assms(1) by (cases "tget d (devices m)") (auto simp: trust_def)
  have "\<not> pin_mismatch m d (hex (peer_fingerprint t))" using assms by (simp add: pin_mismatch_trust)
  then show ?thesis
    using st assms(2) by (simp add: on_connected_def spawn_task_def pub_def trust_def live_of_def Let_def)
qed

lemma identity_setup_fingerprint:
  assumes "identity_setup gf sf uuid env dir name port (st, fs) = (Ok (d, pair, i), st1, fs1)"
    and "\<And>x c k. ce_generate env x = Ok (c, k) \<Longrightarrow> c \<noteq> [] \<and> k \<noteq> []"
  shows "fingerprint_sha256 pair = ce_digest env (cert_der pair)"
proof -
  have "load_or_generate env dir d fs = (Ok pair, fs1)"
    using assms(1) by (auto simp: identity_setup_def split: sum.splits prod.splits)
  then have "pair = make_pair env (cert_der pair) (key_der_pkcs8 pair)" using load_or_generate_stored assms(2) by blast
  then show ?thesis by (metis cert_pair.select_convs(3) make_pair_def)
qed

text \<open>C7. A pairing outlives restarts of the other side too.  A daemon starts, some device connects to it and
  pins the certificate it sees; the daemon stops and starts again on the same database and directory.
  Whichever of them dials and in whichever role, the device then sees the certificate it pinned, under the
  same device identifier: it admits the connection, the daemon is still trusted and comes online.\<close>

theorem restarted_daemon_is_recognised:
  assumes "identity_setup gf sf uuid env dir name port (st, fs) = (Ok (d, pair, i), st1, fs1)"
    and "\<And>x c k. ce_generate env x = Ok (c, k) \<Longrightarrow> c \<noteq> [] \<and> k \<noteq> []"
    and "own_config role lib pair = Ok cfg" "upgrade_on engine (ce_digest env) v cfg l = Ok t"
    and "trust m d = Some (hex (peer_fingerprint t))"
    and "identity_setup None sf' uuid' env' dir name port (st1, fs1) = (Ok (d', pair', i'), st2, fs2)"
    and "ce_digest env' = ce_digest env" "ce_readable env' (join dir CERT_FILE_NAME)" "ce_readable env' (join dir KEY_FILE_NAME)"
    and "own_config role' lib' pair' = Ok cfg'" "upgrade_on engine (ce_digest env) v' cfg' l' = Ok t'"
    and "presents engine"
  shows "d' = d \<and> i' = i \<and> trust m d = Some (fingerprint_hex pair') \<and>
    trust (mgr_step menv (Connected d' t') m) d = trust m d \<and> live_of (mgr_step menv (Connected d' t') m) d = trust m d \<and>
    Option.bind (tget d (devices (mgr_step menv (Connected d' t') m))) outbound = Some \<lparr>conn_id = next_conn m, queued = []\<rparr>"
proof -
  have same: "d' = d" "pair' = pair" "i' = i"
    using identity_setup_stable [OF assms(1,2,7-9), where sf' = sf' and uuid' = uuid'] assms(6) by simp_all
  have fp: "peer_fingerprint t = ce_digest env (cert_der pair)" "peer_fingerprint t' = ce_digest env (cert_der pair)"
    using peer_sees_own_cert [OF assms(12,3,4)] peer_sees_own_cert [OF assms(12,10,11)] same by simp_all
  have "fingerprint_sha256 pair = ce_digest env (cert_der pair)"
    using identity_setup_fingerprint [OF assms(1,2)] .
  then have "fingerprint_hex pair = hex (peer_fingerprint t')" by (simp add: fingerprint_hex_def hex_def fp)
  then show ?thesis
    using known_certificate_admitted [of m d "hex (peer_fingerprint t')" t' menv] assms(5) fp same by simp
qed

definition open_engine :: "tls_config tls_engine" where
  "open_engine v peer = Ok (Some (tc_chain peer))"

definition demo_lib :: tls_lib where
  "demo_lib = \<lparr>tl_versions = None, tl_refuses = (\<lambda>_ _. None)\<rparr>"

definition desk_link :: link where
  "desk_link = \<lparr>link_addr = Ok ''10.0.0.2'', link_config = None\<rparr>"

definition paired_with_desk :: manager where
  "paired_with_desk = demo_mgr\<lparr>devices := [(''uuid'', (device_state_new (shell_identity ''uuid''))\<lparr>pinned_fingerprint := Some (hex [1, 5])\<rparr>)]\<rparr>"

theorem restarted_daemon_is_recognised_witness:
  "trust (mgr_step calm (Connected ''uuid'' \<lparr>peer_fingerprint = [1, 5], peer_ip = ''10.0.0.2''\<rparr>) paired_with_desk) ''uuid'' = Some (hex [1, 5]) \<and>
   Option.bind (tget ''uuid'' (devices (mgr_step calm (Connected ''uuid'' \<lparr>peer_fingerprint = [1, 5], peer_ip = ''10.0.0.2''\<rparr>) paired_with_desk)))
     outbound = Some \<lparr>conn_id = next_conn paired_with_desk, queued = []\<rparr>"
proof -
  let ?pair = "make_pair (demo_certs [5]) [1, 5] [2, 5]"
  let ?t = "\<lparr>peer_fingerprint = [1, 5], peer_ip = ''10.0.0.2''\<rparr>"
  obtain st1 fs1 where first: "identity_setup None None ''uuid'' (demo_certs [5]) ''/c'' ''Desk'' 1716 (store_empty, \<lambda>_. None) =
      (Ok (''uuid'', ?pair, build_self_identity ''uuid'' ''Desk'' 1716), st1, fs1)"
    using demo_identity_setup by blast
  have again: "identity_setup None (Some ''full'') ''other'' (demo_certs [9]) ''/c'' ''Desk'' 1716 (st1, fs1) =
      (Ok (''uuid'', ?pair, build_self_identity ''uuid'' ''Desk'' 1716), st1, fs1)"
    by (rule identity_setup_stable [OF first]) (auto simp: demo_certs_def)
  obtain cfg cfg' where cfg: "own_config WireServer demo_lib ?pair = Ok cfg" "own_config WireClient demo_lib ?pair = Ok cfg'"
    by (simp add: server_config_def client_config_def own_cert_def private_key_def demo_lib_def)
  have t: "upgrade_on open_engine (ce_digest (demo_certs [5])) v c desk_link = Ok ?t" if "tc_chain c = [[1, 5]]" for v c
    using that by (simp add: upgrade_on_def tls_upgrade_def open_engine_def fingerprint_of_first_def desk_link_def demo_certs_def)
  have "tc_chain cfg = [[1, 5]]" "tc_chain cfg' = [[1, 5]]"
    using cfg [THEN own_config_chain] by (simp_all add: make_pair_def)
  note ts = this [THEN t]
  have pinned: "trust paired_with_desk ''uuid'' = Some (hex (peer_fingerprint ?t))"
    by (simp add: trust_def paired_with_desk_def tget_def)
  have gen: "c \<noteq> [] \<and> k \<noteq> []" if "ce_generate (demo_certs [5]) x = Ok (c, k)" for x c k using that by (auto simp: demo_certs_def)
  have env: "ce_digest (demo_certs [9]) = ce_digest (demo_certs [5])" "\<And>p. ce_readable (demo_certs [9]) p" "presents open_engine"
    by (simp_all add: demo_certs_def presents_def open_engine_def)
  show ?thesis
    using restarted_daemon_is_recognised [OF first gen cfg(1) ts(1) pinned again env(1,2,2) cfg(2) ts(2) env(3), where menv = calm] pinned by simp
qed

end
